(* ===== verification/Prelude.thy ===== *)
theory Prelude
  imports "HOL-Library.Word" "HOL-Library.AList"
begin

text \<open>
  Shared vocabulary of the development: the exceptions the simulator raises, the dynamically
  typed values that cross its system-call boundary, and HOL counterparts of the parts of the
  Python standard library the sources use (dictionaries with insertion order, slices, bounded
  deques, \<^verbatim>\<open>str.split\<close>, \<^verbatim>\<open>str.join\<close>, \<^verbatim>\<open>str.rstrip\<close>), with the generic lemmas about
  them that every component reuses.
\<close>

named_theorems wf_defs \<open>definitions of the component invariants\<close>

section \<open>Exceptions and dynamically typed values\<close>

text \<open>An exception that escapes an operation is the left value of a sum; the right value is
  what the operation returns. The state is always returned beside it: Python does not undo the
  assignments made before the \<^verbatim>\<open>raise\<close>.\<close>

datatype pyexn = ValueError | TypeError | AttributeError | FileExistsError | IndexError | KeyboardInterrupt | KernelPanic string string

type_synonym 'a result = "pyexn + 'a"

type_synonym byte = "8 word"
type_synonym bytes = "byte list"

text \<open>Values of a parameter whose annotation Python does not enforce.\<close>

datatype pyval = VInt int | VStr string | VBytes bytes

fun truthy :: "pyval \<Rightarrow> bool" where
  "truthy (VInt i) = (i \<noteq> 0)"
| "truthy (VStr s) = (s \<noteq> [])"
| "truthy (VBytes b) = (b \<noteq> [])"

section \<open>Dictionaries\<close>

text \<open>
  A \<^verbatim>\<open>dict\<close> iterates in insertion order, and storing under a present key keeps its place:
  exactly \<^const>\<open>AList.update\<close> on association lists. \<open>map_of d k\<close> is \<^verbatim>\<open>d.get(k)\<close>,
  \<open>AList.delete k d\<close> is \<^verbatim>\<open>d.pop(k, None)\<close>, \<open>map snd d\<close> is \<^verbatim>\<open>list(d.values())\<close>.
\<close>

type_synonym ('k, 'v) dict = "('k \<times> 'v) list"

abbreviation dict_ok :: "('k, 'v) dict \<Rightarrow> bool" where
  "dict_ok d \<equiv> distinct (map fst d)"

text \<open>Mutating the object stored under a key: \<^verbatim>\<open>d[k].field = ...\<close> where the key is present.\<close>

definition dict_modify :: "'k \<Rightarrow> ('v \<Rightarrow> 'v) \<Rightarrow> ('k, 'v) dict \<Rightarrow> ('k, 'v) dict" where
  "dict_modify k f d = (case map_of d k of None \<Rightarrow> d | Some v \<Rightarrow> AList.update k (f v) d)"

declare map_of_eq_Some_iff [simp del] Some_eq_map_of_iff [simp del]

lemma map_of_update [simp]: "map_of (AList.update k v d) = (map_of d)(k \<mapsto> v)"
  by (rule update_conv')

lemma map_of_delete [simp]: "map_of (AList.delete k d) = (map_of d)(k := None)"
  by (rule delete_conv')

lemma dict_ok_update [intro, simp]: "dict_ok d \<Longrightarrow> dict_ok (AList.update k v d)"
  by (rule distinct_update)

lemma dict_ok_delete [intro, simp]: "dict_ok d \<Longrightarrow> dict_ok (AList.delete k d)"
  by (rule distinct_delete)

lemma update_fresh: "map_of d k = None \<Longrightarrow> AList.update k v d = d @ [(k, v)]"
  by (induction d) (auto split: if_splits)

lemma keys_update_present:
  "map_of d k = Some w \<Longrightarrow> map fst (AList.update k v d) = map fst d"
  by (induction d) (auto split: if_splits)

lemma map_of_dict_modify [simp]:
  "map_of (dict_modify k f d) = (map_of d)(k := map_option f (map_of d k))"
  by (auto simp: dict_modify_def fun_eq_iff split: option.splits)

lemma keys_dict_modify [simp]: "map fst (dict_modify k f d) = map fst d"
  by (auto simp: dict_modify_def keys_update_present split: option.splits)

lemma fst_set_dict_modify [simp]: "fst ` set (dict_modify k f d) = fst ` set d"
  by (metis keys_dict_modify list.set_map)

lemma keys_delete [simp]: "fst ` set (AList.delete k d) = fst ` set d - {k}"
  by (metis delete_keys list.set_map set_removeAll)

lemma keys_update [simp]: "fst ` set (AList.update k v d) = insert k (fst ` set d)"
  by (simp add: dom_update)

lemma map_of_key: "map_of d k = Some v \<Longrightarrow> k \<in> fst ` set d"
  by (force dest: map_of_SomeD)

lemma key_iff_map_of: "k \<in> fst ` set d \<longleftrightarrow> map_of d k \<noteq> None"
  by (simp add: map_of_eq_None_iff)

lemma update_same: "map_of d k = Some v \<Longrightarrow> AList.update k v d = d"
  by (induction d) (auto split: if_splits)

lemma map_dict_modify:
  "(\<And>v. g (f v) = g v) \<Longrightarrow> map (map_prod id g) (dict_modify k f d) = map (map_prod id g) d"
proof -
  assume g: "\<And>v. g (f v) = g v"
  have "map (map_prod id g) (AList.update k w d) = map (map_prod id g) d" if "map_of d k = Some v" "g w = g v" for v w
    using that by (induction d) (auto split: if_splits)
  with g show ?thesis by (auto simp: dict_modify_def split: option.splits)
qed

lemma dict_modify_Nil [simp]: "dict_modify k f [] = []"
  by (simp add: dict_modify_def)

lemma dict_modify_Cons [simp]:
  "dict_modify k f ((j, v) # d) = (if k = j then (j, f v) # d else (j, v) # dict_modify k f d)"
  by (auto simp: dict_modify_def split: option.split)

lemma dict_modify_same: "(\<And>v. map_of d k = Some v \<Longrightarrow> f v = v) \<Longrightarrow> dict_modify k f d = d"
  by (auto simp: dict_modify_def update_same split: option.split)

lemma dict_modify_absent: "map_of d k = None \<Longrightarrow> dict_modify k f d = d"
  by (simp add: dict_modify_def)

lemma length_delete_present:
  "dict_ok d \<Longrightarrow> map_of d k = Some v \<Longrightarrow> Suc (length (AList.delete k d)) = length d"
  by (induction d) (auto simp: image_iff delete_id split: if_splits)

lemma dict_value_iff:
  "dict_ok d \<Longrightarrow> v \<in> set (map snd d) \<longleftrightarrow> (\<exists>k. map_of d k = Some v)"
  by (simp add: map_of_eq_Some_iff) force

lemma dict_values_all:
  "dict_ok d \<Longrightarrow> list_all P (map snd d) \<longleftrightarrow> (\<forall>k v. map_of d k = Some v \<longrightarrow> P v)"
  unfolding list_all_iff by (metis dict_value_iff)

lemma dict_values_ex:
  "dict_ok d \<Longrightarrow> list_ex P (map snd d) \<longleftrightarrow> (\<exists>k v. map_of d k = Some v \<and> P v)"
  unfolding list_ex_iff by (metis dict_value_iff)

section \<open>Lists updated in place\<close>

lemma length_filter_update:
  assumes "i < length xs"
  shows "length (filter P (xs[i := y])) + (if P (xs ! i) then 1 else 0)
       = length (filter P xs) + (if P y then 1 else 0)"
proof -
  have "length (filter P xs) = length (filter P (take i xs @ xs ! i # drop (Suc i) xs))"
    using id_take_nth_drop [OF assms] by simp
  then show ?thesis
    using assms by (simp add: upd_conv_take_nth_drop)
qed

text \<open>\<^verbatim>\<open>xs.remove(x)\<close> and \<^verbatim>\<open>next(x for x in xs if P(x))\<close>, by a predicate.\<close>

fun remove_first :: "('a \<Rightarrow> bool) \<Rightarrow> 'a list \<Rightarrow> 'a list" where
  "remove_first P [] = []"
| "remove_first P (x # xs) = (if P x then xs else x # remove_first P xs)"

lemma remove_first_eq: "remove_first (\<lambda>x. x = a) xs = remove1 a xs"
  by (induction xs) auto

lemma remove_first_cong:
  "(\<And>x. x \<in> set xs \<Longrightarrow> P x = Q x) \<Longrightarrow> remove_first P xs = remove_first Q xs"
  by (induction xs) auto

section \<open>Python slices\<close>

text \<open>\<^verbatim>\<open>xs[i:j]\<close>: a negative bound counts from the end, and both are clipped.\<close>

definition slice_bound :: "nat \<Rightarrow> int \<Rightarrow> nat" where
  "slice_bound n i = (if i < 0 then nat (i + int n) else min (nat i) n)"

definition py_slice :: "'a list \<Rightarrow> int \<Rightarrow> int \<Rightarrow> 'a list" where
  "py_slice xs i j =
     take (slice_bound (length xs) j - slice_bound (length xs) i) (drop (slice_bound (length xs) i) xs)"

definition slice_to :: "'a list \<Rightarrow> int \<Rightarrow> 'a list" where
  "slice_to xs j = take (slice_bound (length xs) j) xs"

definition slice_from :: "'a list \<Rightarrow> int \<Rightarrow> 'a list" where
  "slice_from xs i = drop (slice_bound (length xs) i) xs"

lemma slice_bound_le: "slice_bound n i \<le> n"
  by (auto simp: slice_bound_def)

lemma slice_to_nonneg: "0 \<le> j \<Longrightarrow> slice_to xs j = take (nat j) xs"
  by (simp add: slice_to_def slice_bound_def min_def)

lemma slice_from_nonneg: "0 \<le> i \<Longrightarrow> slice_from xs i = drop (nat i) xs"
  by (simp add: slice_from_def slice_bound_def min_def)

lemma py_slice_nonneg:
  "0 \<le> i \<Longrightarrow> 0 \<le> k \<Longrightarrow> py_slice xs i (i + k) = take (nat k) (drop (nat i) xs)"
  by (auto simp: py_slice_def slice_bound_def min_def nat_add_distrib)

lemma length_py_slice_nonneg:
  "0 \<le> i \<Longrightarrow> 0 \<le> k \<Longrightarrow> length (py_slice xs i (i + k)) \<le> nat k"
  by (simp add: py_slice_nonneg)

lemma py_slice_split:
  assumes "0 \<le> i" "0 \<le> j" "0 \<le> k"
  shows "py_slice xs i (i + (j + k)) = py_slice xs i (i + j) @ py_slice xs (i + j) (i + j + k)"
proof -
  have "drop (nat (i + j)) xs = drop (nat j) (drop (nat i) xs)"
    using assms by (simp add: nat_add_distrib add.commute)
  then show ?thesis
    using assms py_slice_nonneg [of "i + j" k xs] by (simp add: py_slice_nonneg nat_add_distrib take_add)
qed

lemma py_slice_take_cong:
  assumes "0 \<le> i" "0 \<le> k" "take (nat (i + k)) xs = take (nat (i + k)) ys"
  shows "py_slice xs i (i + k) = py_slice ys i (i + k)"
proof -
  have "py_slice zs i (i + k) = drop (nat i) (take (nat (i + k)) zs)" for zs :: "'a list"
    using assms(1,2) by (simp add: py_slice_nonneg nat_add_distrib take_drop add.commute)
  then show ?thesis using assms(3) by simp
qed

section \<open>Bounded deques\<close>

text \<open>\<^verbatim>\<open>deque(maxlen=m).append(x)\<close> for positive \<open>m\<close>: a full deque drops its oldest element.\<close>

definition deque_append :: "nat \<Rightarrow> 'a list \<Rightarrow> 'a \<Rightarrow> 'a list" where
  "deque_append m q x = (let q' = q @ [x] in if m < length q' then tl q' else q')"

definition last_n :: "nat \<Rightarrow> 'a list \<Rightarrow> 'a list" where
  "last_n n xs = drop (length xs - n) xs"

lemma last_n_short [simp]: "length xs \<le> n \<Longrightarrow> last_n n xs = xs"
  by (simp add: last_n_def)

lemma length_last_n [simp]: "length (last_n n xs) = min n (length xs)"
  by (simp add: last_n_def)

lemma last_n_last_n_append: "last_n n (last_n n xs @ ys) = last_n n (xs @ ys)"
  by (cases "length xs \<le> n") (auto simp: last_n_def add.commute)

lemma deque_append_last_n: "length q \<le> m \<Longrightarrow> deque_append m q x = last_n m (q @ [x])"
  by (cases "length q = m") (simp_all add: deque_append_def last_n_def drop_Suc del: drop_append tl_append2)

lemma length_deque_append: "length q \<le> m \<Longrightarrow> length (deque_append m q x) \<le> m"
  by (simp add: deque_append_last_n)

lemma foldl_deque_append:
  "length q \<le> m \<Longrightarrow> foldl (deque_append m) q xs = last_n m (q @ xs)"
proof (induction xs arbitrary: q)
  case (Cons x xs)
  then show ?case
    by (simp add: deque_append_last_n last_n_last_n_append)
qed simp

text \<open>The loop \<^verbatim>\<open>for _ in range(min(n, len(q))): result.append(q.popleft())\<close>.\<close>

fun popleft_loop :: "nat \<Rightarrow> 'a list \<Rightarrow> 'a list \<Rightarrow> 'a list \<times> 'a list" where
  "popleft_loop 0 result q = (result, q)"
| "popleft_loop (Suc n) result [] = (result, [])"
| "popleft_loop (Suc n) result (x # q) = popleft_loop n (result @ [x]) q"

lemma popleft_loop_eq: "popleft_loop n result q = (result @ take n q, drop n q)"
  by (induction n result q rule: popleft_loop.induct) auto

section \<open>Python strings\<close>

definition py_startswith :: "string \<Rightarrow> string \<Rightarrow> bool" where
  "py_startswith s p \<longleftrightarrow> take (length p) s = p"

definition py_rstrip :: "char \<Rightarrow> string \<Rightarrow> string" where
  "py_rstrip c s = rev (dropWhile (\<lambda>x. x = c) (rev s))"

fun py_split :: "char \<Rightarrow> string \<Rightarrow> string list" where
  "py_split c [] = [[]]"
| "py_split c (x # xs) =
     (if x = c then [] # py_split c xs
      else (case py_split c xs of [] \<Rightarrow> [[x]] | p # ps \<Rightarrow> (x # p) # ps))"

fun py_join :: "char \<Rightarrow> string list \<Rightarrow> string" where
  "py_join c [] = []"
| "py_join c [p] = p"
| "py_join c (p # q # ps) = p @ c # py_join c (q # ps)"

lemma startswith_iff: "py_startswith s p \<longleftrightarrow> (\<exists>t. s = p @ t)"
  by (metis append_eq_conv_conj append_take_drop_id py_startswith_def)

lemma py_split_nonempty [simp]: "py_split c s \<noteq> []"
  by (induction s) (auto split: list.splits)

lemma join_Cons: "ps \<noteq> [] \<Longrightarrow> py_join c (p # ps) = p @ c # py_join c ps"
  by (cases ps) auto

lemma join_split: "py_join c (py_split c s) = s"
proof (induction s)
  case (Cons x s)
  then show ?case
    by (cases "py_split c s"; cases "tl (py_split c s)") (auto simp: join_Cons)
qed simp

lemma split_single: "c \<notin> set p \<Longrightarrow> py_split c p = [p]"
  by (induction p) auto

lemma split_append: "c \<notin> set p \<Longrightarrow> py_split c (p @ c # s) = p # py_split c s"
  by (induction p) auto

lemma split_join:
  "ps \<noteq> [] \<Longrightarrow> \<forall>p\<in>set ps. c \<notin> set p \<Longrightarrow> py_split c (py_join c ps) = ps"
  by (induction c ps rule: py_join.induct) (auto simp: split_single split_append)

lemma split_append_gen: "py_split c (s @ c # t) = py_split c s @ py_split c t"
proof (induction s)
  case (Cons x s)
  then show ?case
    by (cases "py_split c s") auto
qed simp

lemma split_parts_no_sep: "p \<in> set (py_split c s) \<Longrightarrow> c \<notin> set p"
proof (induction s arbitrary: p)
  case (Cons x s)
  then show ?case
    by (cases "py_split c s") (auto split: if_splits)
qed simp

lemma rstrip_id: "s = [] \<or> last s \<noteq> c \<Longrightarrow> py_rstrip c s = s"
  by (cases s rule: rev_cases) (auto simp: py_rstrip_def)

lemma rstrip_snoc [simp]: "py_rstrip c (s @ [c]) = py_rstrip c s"
  by (simp add: py_rstrip_def)

lemma rstrip_Nil [simp]: "py_rstrip c [] = []"
  by (simp add: py_rstrip_def)

subsection \<open>Numbers as text\<close>

definition digit_char :: "nat \<Rightarrow> char" where
  "digit_char d = (if d < 10 then char_of (48 + d) else char_of (87 + d))"

fun nat_digits :: "nat \<Rightarrow> nat \<Rightarrow> string" where
  "nat_digits b n =
     (if b < 2 \<or> n < b then [digit_char n] else nat_digits b (n div b) @ [digit_char (n mod b)])"

declare nat_digits.simps [simp del]

text \<open>\<^verbatim>\<open>str(i)\<close> of an integer.\<close>

definition py_str_int :: "int \<Rightarrow> string" where
  "py_str_int i = (if i < 0 then CHR ''-'' # nat_digits 10 (nat (- i)) else nat_digits 10 (nat i))"

text \<open>\<^verbatim>\<open>hex(i)\<close>.\<close>

definition py_hex :: "int \<Rightarrow> string" where
  "py_hex i = (if i < 0 then ''-0x'' @ nat_digits 16 (nat (- i)) else ''0x'' @ nat_digits 16 (nat i))"

text \<open>\<^verbatim>\<open>s.encode()\<close>, UTF-8, for the code points below 256 that a HOL character carries.\<close>

definition encode_char :: "char \<Rightarrow> bytes" where
  "encode_char c = (let n = (of_char c :: nat) in
     if n < 128 then [of_nat n] else [of_nat (192 + n div 64), of_nat (128 + n mod 64)])"

definition py_encode :: "string \<Rightarrow> bytes" where
  "py_encode s = concat (map encode_char s)"

lemma nat_digits_nonempty [simp]: "nat_digits b n \<noteq> []"
  by (subst nat_digits.simps) simp

end
