(* ===== verification/Interfaces.thy ===== *)
theory Interfaces
  imports Prelude
begin

text \<open>
  The contracts that several components share, as locales: a state machine with an invariant,
  an allocator of integer identifiers, and a bounded first-in first-out byte queue. Each is
  interpreted in the theory of every component that provides it.
\<close>

section \<open>State machines with an invariant\<close>

text \<open>The states an operation sequence leads to, whatever the operations return.\<close>

inductive reaches :: "('e \<Rightarrow> 's \<Rightarrow> 's) \<Rightarrow> 's \<Rightarrow> 's \<Rightarrow> bool" for step where
  reaches_refl: "reaches step s s"
| reaches_step: "reaches step s t \<Longrightarrow> reaches step s (step e t)"

lemma reaches_fold: "reaches step s (fold step es s)"
proof (induction es rule: rev_induct)
  case Nil
  show ?case by (simp add: reaches_refl)
next
  case (snoc e es)
  then show ?case by (simp add: reaches_step)
qed

text \<open>A run in which each operation is made only where the client may make it.\<close>

fun guarded :: "('e \<Rightarrow> 's \<Rightarrow> bool) \<Rightarrow> ('e \<Rightarrow> 's \<Rightarrow> 's) \<Rightarrow> 'e list \<Rightarrow> 's \<Rightarrow> bool" where
  "guarded may step [] s \<longleftrightarrow> True"
| "guarded may step (e # es) s \<longleftrightarrow> may e s \<and> guarded may step es (step e s)"

lemma guarded_inv:
  assumes "\<And>e s. P s \<Longrightarrow> may e s \<Longrightarrow> P (step e s)"
  shows "guarded may step es s \<Longrightarrow> P s \<Longrightarrow> P (fold step es s)"
  using assms by (induction es arbitrary: s) auto

locale machine =
  fixes init :: "'s"
    and step :: "'e \<Rightarrow> 's \<Rightarrow> 's"
    and inv :: "'s \<Rightarrow> bool"
  assumes inv_init: "inv init"
    and inv_step: "inv s \<Longrightarrow> inv (step e s)"
begin

lemma inv_reaches: "reaches step s t \<Longrightarrow> inv s \<Longrightarrow> inv t"
  by (induction rule: reaches.induct) (auto intro: inv_step)

lemma inv_reachable: "reaches step init t \<Longrightarrow> inv t"
  by (rule inv_reaches [OF _ inv_init])

lemma inv_run: "inv s \<Longrightarrow> inv (fold step es s)"
  by (rule inv_reaches [OF reaches_fold])

end

section \<open>Identifier allocators\<close>

text \<open>
  \<open>inv a L\<close> relates the allocator's state to the set \<open>L\<close> of identifiers in use. Both the
  process table and the thread table pair such an allocator with a dictionary keyed by the
  identifiers it hands out.
\<close>

locale id_allocator =
  fixes alloc :: "'a \<Rightarrow> int \<times> 'a"
    and release :: "int \<Rightarrow> 'a \<Rightarrow> 'a"
    and inv :: "'a \<Rightarrow> int set \<Rightarrow> bool"
  assumes alloc_fresh: "inv a L \<Longrightarrow> fst (alloc a) \<notin> L"
    and alloc_inv: "inv a L \<Longrightarrow> inv (snd (alloc a)) (insert (fst (alloc a)) L)"
    and release_inv: "inv a L \<Longrightarrow> i \<in> L \<Longrightarrow> inv (release i a) (L - {i})"
begin

lemma table_fresh: "inv a (fst ` set d) \<Longrightarrow> map_of d (fst (alloc a)) = None"
  using alloc_fresh [of a "fst ` set d"] by (simp add: map_of_eq_None_iff)

lemma table_insert:
  assumes "inv a (fst ` set d)"
  shows "inv (snd (alloc a)) (fst ` set (AList.update (fst (alloc a)) v d))"
  using alloc_inv [OF assms] table_fresh [OF assms] by simp

lemma table_delete:
  assumes "inv a (fst ` set d)" and "map_of d i = Some v"
  shows "inv (release i a) (fst ` set (AList.delete i d))"
  using release_inv [OF assms(1)] map_of_key [OF assms(2)] by simp

lemma two_allocs_differ:
  "inv a L \<Longrightarrow> fst (alloc (snd (alloc a))) \<noteq> fst (alloc a)"
  using alloc_fresh [OF alloc_inv [of a L]] by blast

end

section \<open>Bounded byte queues\<close>

text \<open>
  A queue built on a \<^verbatim>\<open>deque(maxlen=cap)\<close>: writing past the capacity drops the oldest
  elements, reading takes from the front.
\<close>

locale bounded_fifo =
  fixes put :: "'x list \<Rightarrow> 'q \<Rightarrow> 'q"
    and get :: "int \<Rightarrow> 'q \<Rightarrow> 'x list \<times> 'q"
    and contents :: "'q \<Rightarrow> 'x list"
    and cap :: nat
    and ok :: "'q \<Rightarrow> bool"
  assumes ok_length: "ok q \<Longrightarrow> length (contents q) \<le> cap"
    and put_ok: "ok q \<Longrightarrow> ok (put xs q)"
    and get_ok: "ok q \<Longrightarrow> ok (snd (get n q))"
    and put_contents: "ok q \<Longrightarrow> contents (put xs q) = last_n cap (contents q @ xs)"
    and get_result: "ok q \<Longrightarrow> fst (get n q) = take (nat n) (contents q)"
    and get_contents: "ok q \<Longrightarrow> contents (snd (get n q)) = drop (nat n) (contents q)"
begin

lemma put_append:
  "ok q \<Longrightarrow> contents (put ys (put xs q)) = contents (put (xs @ ys) q)"
  by (simp add: put_contents put_ok last_n_last_n_append)

lemma get_split:
  assumes "ok q" "0 \<le> n" "0 \<le> m"
  shows "fst (get n q) @ fst (get m (snd (get n q))) = fst (get (n + m) q)"
  using assms by (simp add: get_result get_contents get_ok nat_add_distrib take_add)

lemma get_conserves: "ok q \<Longrightarrow> fst (get n q) @ contents (snd (get n q)) = contents q"
  by (simp add: get_result get_contents)

lemma fifo_roundtrip:
  assumes "ok q" and "length (contents q) + length xs \<le> cap"
  shows "fst (get (int (length xs)) (snd (get (int (length (contents q))) (put xs q)))) = xs"
  using assms by (simp add: get_result get_contents get_ok put_contents put_ok)

lemma overflow_keeps_newest:
  assumes "ok q" and "cap \<le> length xs"
  shows "contents (put xs q) = last_n cap xs"
  using assms by (simp add: put_contents last_n_def)

end

end
