(* ===== verification/Processes.thy ===== *)
theory Processes
  imports Interfaces
begin

text \<open>
  \<^verbatim>\<open>process.py\<close>: credentials, per-process descriptor tables, processes, the PID allocator and the
  process table. A process object is reached only through the table, so the model stores it there
  by value; \<^verbatim>\<open>spawn\<close> returns the PID that names it.
\<close>

section \<open>Processes\<close>

datatype task_state = NEW | RUNNABLE | RUNNING | SLEEP_INT | SLEEP_UNINT | ZOMBIE | DEAD

record credentials =
  cr_uid :: int
  cr_gid :: int
  cr_euid :: int
  cr_egid :: int

definition is_root :: "credentials \<Rightarrow> bool" where
  "is_root c \<longleftrightarrow> cr_euid c = 0"

record fd_table =
  fd_entries :: "(int, string \<times> string) dict"
  fd_next :: int

definition fdt_init :: fd_table where
  "fdt_init = \<lparr>fd_entries = [], fd_next = 3\<rparr>"

definition fdt_alloc :: "string \<Rightarrow> string \<Rightarrow> fd_table \<Rightarrow> int \<times> fd_table" where
  "fdt_alloc path flags t =
     (let fd = fd_next t in
      (fd, t\<lparr>fd_next := fd_next t + 1, fd_entries := AList.update fd (path, flags) (fd_entries t)\<rparr>))"

definition fdt_get :: "int \<Rightarrow> fd_table \<Rightarrow> (string \<times> string) option" where
  "fdt_get fd t = map_of (fd_entries t) fd"

definition fdt_close :: "int \<Rightarrow> fd_table \<Rightarrow> bool \<times> fd_table" where
  "fdt_close fd t =
     (if map_of (fd_entries t) fd \<noteq> None
      then (True, t\<lparr>fd_entries := AList.delete fd (fd_entries t)\<rparr>) else (False, t))"

definition all_fds :: "fd_table \<Rightarrow> int list" where
  "all_fds t = map fst (fd_entries t)"

record process =
  p_pid :: int
  p_ppid :: int
  p_name :: string
  p_state :: task_state
  p_creds :: credentials
  p_fdt :: fd_table
  p_exit_code :: pyval
  p_cwd :: string
  p_cmdline :: pyval
  p_children :: "int list"

definition is_kernel_process :: "process \<Rightarrow> bool" where
  "is_kernel_process p \<longleftrightarrow> p_pid p = 0 \<or> (p_ppid p = 0 \<and> p_pid p \<le> 2)"

definition proc_is_root :: "process \<Rightarrow> bool" where
  "proc_is_root p = is_root (p_creds p)"

section \<open>The PID allocator\<close>

record pid_allocator =
  next_pid :: int
  free_pids :: "int list"

definition pa_init :: pid_allocator where
  "pa_init = \<lparr>next_pid = 2, free_pids = []\<rparr>"

definition pa_alloc :: "pid_allocator \<Rightarrow> int \<times> pid_allocator" where
  "pa_alloc a = (case free_pids a of
     p # ps \<Rightarrow> (p, a\<lparr>free_pids := ps\<rparr>)
   | [] \<Rightarrow> (next_pid a, a\<lparr>next_pid := next_pid a + 1\<rparr>))"

definition pa_free :: "int \<Rightarrow> pid_allocator \<Rightarrow> pid_allocator" where
  "pa_free p a = (if p > 1 then a\<lparr>free_pids := free_pids a @ [p]\<rparr> else a)"

definition pa_inv :: "pid_allocator \<Rightarrow> int set \<Rightarrow> bool" where
  "pa_inv a L \<longleftrightarrow> 2 \<le> next_pid a \<and> distinct (free_pids a) \<and> set (free_pids a) \<subseteq> {2..<next_pid a}
     \<and> set (free_pids a) \<inter> L = {} \<and> L \<subseteq> {0..<next_pid a} - {1}"

declare pa_inv_def [wf_defs]

interpretation pa: id_allocator pa_alloc pa_free pa_inv
proof unfold_locales
  fix a L i
  assume inv: "pa_inv a L"
  show "fst (pa_alloc a) \<notin> L"
    using inv by (auto simp: pa_alloc_def pa_inv_def split: list.splits)
  show "pa_inv (snd (pa_alloc a)) (insert (fst (pa_alloc a)) L)"
    using inv by (auto simp: pa_alloc_def pa_inv_def split: list.splits)
  show "pa_inv (pa_free i a) (L - {i})" if "i \<in> L"
    using inv that by (auto simp: pa_free_def pa_inv_def)
qed

section \<open>The process table\<close>

record process_table =
  pt_table :: "(int, process) dict"
  pt_alloc :: pid_allocator

definition root_creds :: credentials where
  "root_creds = \<lparr>cr_uid = 0, cr_gid = 0, cr_euid = 0, cr_egid = 0\<rparr>"

definition idle_process :: process where
  "idle_process = \<lparr>p_pid = 0, p_ppid = 0, p_name = ''swapper/0'', p_state = RUNNABLE,
     p_creds = root_creds, p_fdt = fdt_init, p_exit_code = VInt 0, p_cwd = ''/'',
     p_cmdline = VStr [], p_children = []\<rparr>"

definition pt_init :: process_table where
  "pt_init = \<lparr>pt_table = [(0, idle_process)], pt_alloc = pa_init\<rparr>"

definition new_process :: "int \<Rightarrow> string \<Rightarrow> int \<Rightarrow> int \<Rightarrow> int \<Rightarrow> pyval \<Rightarrow> process" where
  "new_process pid name ppid uid gid cmdline =
     \<lparr>p_pid = pid, p_ppid = ppid, p_name = name, p_state = NEW,
      p_creds = \<lparr>cr_uid = uid, cr_gid = gid, cr_euid = uid, cr_egid = gid\<rparr>,
      p_fdt = fdt_init, p_exit_code = VInt 0, p_cwd = ''/'', p_cmdline = cmdline, p_children = []\<rparr>"

text \<open>The new process is stored before the parent is looked up, so \<^verbatim>\<open>ppid in self._table\<close> sees it.\<close>

definition pt_spawn ::
  "string \<Rightarrow> int \<Rightarrow> int \<Rightarrow> int \<Rightarrow> pyval \<Rightarrow> process_table \<Rightarrow> int \<times> process_table" where
  "pt_spawn name ppid uid gid cmdline t =
     (let (pid, a) = pa_alloc (pt_alloc t);
          tab = AList.update pid (new_process pid name ppid uid gid cmdline) (pt_table t)
      in (pid, t\<lparr>pt_alloc := a,
            pt_table := dict_modify ppid (\<lambda>p. p\<lparr>p_children := p_children p @ [pid]\<rparr>) tab\<rparr>))"

definition pt_get :: "int \<Rightarrow> process_table \<Rightarrow> process option" where
  "pt_get pid t = map_of (pt_table t) pid"

definition pt_all :: "process_table \<Rightarrow> process list" where
  "pt_all t = map snd (pt_table t)"

definition pt_remove :: "int \<Rightarrow> process_table \<Rightarrow> process_table" where
  "pt_remove pid t =
     (case map_of (pt_table t) pid of
        None \<Rightarrow> t
      | Some proc \<Rightarrow>
         t\<lparr>pt_alloc := pa_free pid (pt_alloc t),
           pt_table := dict_modify (p_ppid proc)
             (\<lambda>p. if pid \<in> set (p_children p) then p\<lparr>p_children := remove1 pid (p_children p)\<rparr> else p)
             (AList.delete pid (pt_table t))\<rparr>)"

definition zombies :: "process_table \<Rightarrow> process list" where
  "zombies t = filter (\<lambda>p. p_state p = ZOMBIE) (pt_all t)"

definition by_name :: "string \<Rightarrow> process_table \<Rightarrow> process list" where
  "by_name name t = filter (\<lambda>p. p_name p = name) (pt_all t)"

text \<open>Assignments to fields of a process object, as the callers of the table make them.\<close>

definition pt_modify :: "int \<Rightarrow> (process \<Rightarrow> process) \<Rightarrow> process_table \<Rightarrow> process_table" where
  "pt_modify pid f t = t\<lparr>pt_table := dict_modify pid f (pt_table t)\<rparr>"

section \<open>Invariant\<close>

text \<open>
  Every process sits under its own PID, the allocator agrees with the table, and the parent's list
  of children is exact in one direction: each listed child is alive and names this parent. (The
  other direction fails for orphans: removing a parent leaves the \<^verbatim>\<open>ppid\<close> of its children.)
\<close>

definition children_ok :: "(int, process) dict \<Rightarrow> bool" where
  "children_ok d \<longleftrightarrow> (\<forall>q P. map_of d q = Some P \<longrightarrow> distinct (p_children P)
     \<and> (\<forall>c \<in> set (p_children P). \<exists>C. map_of d c = Some C \<and> p_ppid C = q))"

definition pt_inv :: "process_table \<Rightarrow> bool" where
  "pt_inv t \<longleftrightarrow> dict_ok (pt_table t) \<and> pa_inv (pt_alloc t) (fst ` set (pt_table t))
     \<and> (\<forall>q P. map_of (pt_table t) q = Some P \<longrightarrow> p_pid P = q)
     \<and> children_ok (pt_table t)"

declare pt_inv_def [wf_defs]

lemma pt_inv_init [intro, simp]: "pt_inv pt_init"
  by (auto simp: pt_inv_def pt_init_def pa_inv_def pa_init_def children_ok_def idle_process_def)

lemma pt_spawn_table:
  "map_of (pt_table (snd (pt_spawn name ppid uid gid cmdline t)))
   = (let pid = fst (pa_alloc (pt_alloc t));
          m = (map_of (pt_table t))(pid \<mapsto> new_process pid name ppid uid gid cmdline)
      in m(ppid := map_option (\<lambda>p. p\<lparr>p_children := p_children p @ [pid]\<rparr>) (m ppid)))"
  by (simp add: pt_spawn_def Let_def split: prod.splits)

lemma pt_spawn_pid [simp]: "fst (pt_spawn name ppid uid gid cmdline t) = fst (pa_alloc (pt_alloc t))"
  by (simp add: pt_spawn_def Let_def split: prod.splits)

lemma pt_inv_spawn [intro]:
  assumes "pt_inv t"
  shows "pt_inv (snd (pt_spawn name ppid uid gid cmdline t))"
proof -
  let ?t' = "snd (pt_spawn name ppid uid gid cmdline t)"
  obtain pid a where al: "pa_alloc (pt_alloc t) = (pid, a)" by fastforce
  have ok: "dict_ok (pt_table t)" "pa_inv (pt_alloc t) (fst ` set (pt_table t))"
    "\<And>q P. map_of (pt_table t) q = Some P \<Longrightarrow> p_pid P = q" "children_ok (pt_table t)"
    using assms by (auto simp: pt_inv_def)
  have fresh: "map_of (pt_table t) pid = None"
    using pa.table_fresh [OF ok(2)] al by simp
  have old: "pid \<notin> set (p_children P)" if "map_of (pt_table t) q = Some P" for q P
    using ok(4) that fresh unfolding children_ok_def by fastforce
  have m: "map_of (pt_table ?t') = (let m = (map_of (pt_table t))(pid \<mapsto> new_process pid name ppid uid gid cmdline)
      in m(ppid := map_option (\<lambda>p. p\<lparr>p_children := p_children p @ [pid]\<rparr>) (m ppid)))"
    using al by (simp add: pt_spawn_table Let_def)
  have "pa_inv (pt_alloc ?t') (fst ` set (pt_table ?t'))"
    using pa.table_insert [OF ok(2)] al by (simp add: pt_spawn_def)
  moreover have "dict_ok (pt_table ?t')"
    using ok(1) al by (simp add: pt_spawn_def)
  moreover have "children_ok (pt_table ?t')"
    using ok(4) fresh old unfolding children_ok_def m
    by (fastforce simp: Let_def new_process_def split: if_splits)
  moreover have "\<forall>q P. map_of (pt_table ?t') q = Some P \<longrightarrow> p_pid P = q"
    using ok(3) by (auto simp: m Let_def new_process_def split: if_splits)
  ultimately show ?thesis by (simp add: pt_inv_def)
qed

lemma pt_remove_table:
  assumes "map_of (pt_table t) pid = Some proc"
  shows "map_of (pt_table (pt_remove pid t))
   = (let m = (map_of (pt_table t))(pid := None)
      in m(p_ppid proc := map_option
           (\<lambda>p. if pid \<in> set (p_children p) then p\<lparr>p_children := remove1 pid (p_children p)\<rparr> else p)
           (m (p_ppid proc))))"
  using assms by (simp add: pt_remove_def Let_def)

lemma pt_remove_absent: "map_of (pt_table t) pid = None \<Longrightarrow> pt_remove pid t = t"
  by (simp add: pt_remove_def)

lemma no_child_removed [simp]:
  "pid \<notin> set (p_children Q) \<Longrightarrow> Q\<lparr>p_children := remove1 pid (p_children Q)\<rparr> = Q"
  by (simp add: remove1_idem)

lemma only_parent:
  assumes "pt_inv t" "map_of (pt_table t) pid = Some proc"
    and "map_of (pt_table t) q = Some P" "pid \<in> set (p_children P)"
  shows "q = p_ppid proc"
  using assms unfolding pt_inv_def children_ok_def by fastforce

lemma pt_remove_keeps:
  assumes "map_of (pt_table t) pid = Some proc" and inv: "pt_inv t"
    and "q \<noteq> pid" and Q: "map_of (pt_table t) q = Some Q"
  shows "map_of (pt_table (pt_remove pid t)) q = Some (Q\<lparr>p_children := remove1 pid (p_children Q)\<rparr>)"
  using assms(3) Q only_parent [OF inv assms(1) Q]
  by (cases "q = p_ppid proc"; cases "pid \<in> set (p_children Q)")
    (simp_all add: pt_remove_table [OF assms(1)] Let_def)

lemma pt_remove_value:
  assumes "map_of (pt_table t) pid = Some proc" and inv: "pt_inv t"
    and P: "map_of (pt_table (pt_remove pid t)) q = Some P"
  shows "\<exists>P0. map_of (pt_table t) q = Some P0 \<and> p_children P = remove1 pid (p_children P0)"
proof -
  have "q \<noteq> pid" using P by (auto simp: pt_remove_table [OF assms(1)] Let_def split: if_splits)
  moreover obtain P0 where "map_of (pt_table t) q = Some P0"
    using P by (auto simp: pt_remove_table [OF assms(1)] Let_def split: if_splits)
  ultimately show ?thesis
    using P pt_remove_keeps [OF assms(1) inv] by fastforce
qed

lemma pt_inv_remove [intro]:
  assumes "pt_inv t"
  shows "pt_inv (pt_remove pid t)"
proof (cases "map_of (pt_table t) pid")
  case (Some proc)
  have ok: "dict_ok (pt_table t)" "pa_inv (pt_alloc t) (fst ` set (pt_table t))"
    "\<And>q P. map_of (pt_table t) q = Some P \<Longrightarrow> p_pid P = q" "children_ok (pt_table t)"
    using assms by (auto simp: pt_inv_def)
  note m = pt_remove_table [OF Some, unfolded Let_def]
  have "pa_inv (pt_alloc (pt_remove pid t)) (fst ` set (pt_table (pt_remove pid t)))"
    using pa.table_delete [OF ok(2) Some] Some by (simp add: pt_remove_def)
  moreover have "dict_ok (pt_table (pt_remove pid t))"
    using ok(1) Some by (simp add: pt_remove_def)
  moreover have "\<forall>q P. map_of (pt_table (pt_remove pid t)) q = Some P \<longrightarrow> p_pid P = q"
    using ok(3) by (auto simp: m split: if_splits)
  moreover have "children_ok (pt_table (pt_remove pid t))"
    unfolding children_ok_def
  proof (intro allI impI)
    fix q P
    assume P: "map_of (pt_table (pt_remove pid t)) q = Some P"
    obtain P0 where P0: "map_of (pt_table t) q = Some P0" and ch: "p_children P = remove1 pid (p_children P0)"
      using pt_remove_value [OF Some assms P] by blast
    have P0': "distinct (p_children P0)" "\<forall>c \<in> set (p_children P0). \<exists>C. map_of (pt_table t) c = Some C \<and> p_ppid C = q"
      using ok(4) P0 unfolding children_ok_def by auto
    have "\<exists>C. map_of (pt_table (pt_remove pid t)) c = Some C \<and> p_ppid C = q"
      if "c \<in> set (p_children P)" for c
    proof -
      have "c \<noteq> pid" "c \<in> set (p_children P0)"
        using that ch P0'(1) by auto
      then obtain C where "map_of (pt_table t) c = Some C" "p_ppid C = q"
        using P0'(2) by blast
      with \<open>c \<noteq> pid\<close> pt_remove_keeps [OF Some assms, of c] show ?thesis by simp
    qed
    with ch P0'(1) show "distinct (p_children P)
        \<and> (\<forall>c \<in> set (p_children P). \<exists>C. map_of (pt_table (pt_remove pid t)) c = Some C \<and> p_ppid C = q)"
      by simp
  qed
  ultimately show ?thesis by (simp add: pt_inv_def)
qed (use assms in \<open>simp add: pt_remove_absent\<close>)

definition keeps_identity :: "(process \<Rightarrow> process) \<Rightarrow> bool" where
  "keeps_identity f \<longleftrightarrow> (\<forall>p. p_pid (f p) = p_pid p \<and> p_ppid (f p) = p_ppid p \<and> p_children (f p) = p_children p)"

lemma children_ok_modify:
  assumes "children_ok d" and "keeps_identity f"
  shows "children_ok (dict_modify pid f d)"
  unfolding children_ok_def
proof (intro allI impI)
  fix q P
  assume "map_of (dict_modify pid f d) q = Some P"
  then obtain P0 where "map_of d q = Some P0" "p_children P = p_children P0"
    using assms(2) by (auto simp: keeps_identity_def split: if_splits)
  then have "distinct (p_children P)" "\<forall>c \<in> set (p_children P). \<exists>C. map_of d c = Some C \<and> p_ppid C = q"
    using assms(1) by (auto simp: children_ok_def)
  then show "distinct (p_children P)
      \<and> (\<forall>c \<in> set (p_children P). \<exists>C. map_of (dict_modify pid f d) c = Some C \<and> p_ppid C = q)"
    using assms(2) by (fastforce simp: keeps_identity_def)
qed

lemma pt_inv_modify [intro]:
  assumes "pt_inv t" and "keeps_identity f"
  shows "pt_inv (pt_modify pid f t)"
  using assms children_ok_modify [OF _ assms(2), of "pt_table t" pid]
  by (auto simp: pt_inv_def pt_modify_def keeps_identity_def split: if_splits)

section \<open>Operation sequences\<close>

datatype pt_op =
    PSpawn string int int int pyval
  | PRemove int
  | PSetState int task_state

fun pt_step :: "pt_op \<Rightarrow> process_table \<Rightarrow> process_table" where
  "pt_step (PSpawn name ppid uid gid cmdline) t = snd (pt_spawn name ppid uid gid cmdline t)"
| "pt_step (PRemove pid) t = pt_remove pid t"
| "pt_step (PSetState pid st) t = pt_modify pid (\<lambda>p. p\<lparr>p_state := st\<rparr>) t"

interpretation ptm: machine pt_init pt_step pt_inv
proof unfold_locales
  show "pt_inv pt_init" by simp
  show "pt_inv (pt_step e t)" if "pt_inv t" for t e
    using that by (cases e) (auto simp: keeps_identity_def)
qed

section \<open>Children, exactly\<close>

text \<open>
  The table lists processes in the order they were spawned, so a process that still has the parent it was
  spawned under comes after that parent. The children of a process are exactly the later processes that
  name it, in their order; an earlier process with this parent number was spawned under another process
  that had the number before. A process spawned under its own number is its own first child.
\<close>

definition kids :: "int \<Rightarrow> (int, process) dict \<Rightarrow> int list" where
  "kids q d = map fst (filter (\<lambda>(c, pp). pp = q) (map (map_prod id p_ppid) d))"

definition own_child :: "int \<Rightarrow> process \<Rightarrow> int list" where
  "own_child q P = (if q \<noteq> 0 \<and> p_ppid P = q then [q] else [])"

fun children_exact :: "(int, process) dict \<Rightarrow> bool" where
  "children_exact [] = True"
| "children_exact ((q, P) # d) \<longleftrightarrow> p_children P = own_child q P @ kids q d \<and> children_exact d"

lemma kids_simps [simp]:
  "kids q [] = []" "kids q ((c, C) # d) = (if p_ppid C = q then [c] else []) @ kids q d"
  "kids q (d @ e) = kids q d @ kids q e"
  by (simp_all add: kids_def)

lemma kids_modify: "(\<And>p. p_ppid (f p) = p_ppid p) \<Longrightarrow> kids q (dict_modify k f d) = kids q d"
  by (simp add: kids_def map_dict_modify)

lemma set_kids: "set (kids q d) \<subseteq> fst ` set d"
  by (induction d) auto

lemma distinct_kids: "dict_ok d \<Longrightarrow> distinct (kids q d)"
  using set_kids by (induction d) fastforce+

lemma kids_delete: "kids q (AList.delete k d) = removeAll k (kids q d)"
  by (induction d) auto

lemma kids_other: "dict_ok d \<Longrightarrow> map_of d k = Some C \<Longrightarrow> p_ppid C \<noteq> q \<Longrightarrow> k \<notin> set (kids q d)"
  using set_kids by (induction d) (fastforce split: if_splits)+

lemma exact_spawn:
  assumes "pid \<noteq> 0" "p_ppid N = pp" "p_children N = []"
  shows "children_exact d \<Longrightarrow> dict_ok d \<Longrightarrow> pid \<notin> fst ` set d \<Longrightarrow>
    children_exact (dict_modify pp (\<lambda>p. p\<lparr>p_children := p_children p @ [pid]\<rparr>) (d @ [(pid, N)]))"
proof (induction d)
  case Nil
  show ?case using assms by (simp add: own_child_def dict_modify_absent)
next
  case (Cons e d)
  obtain q P where e: "e = (q, P)" by fastforce
  have later: "children_exact (xs @ [(pid, N)])" if "children_exact xs" "pp \<notin> fst ` set xs" "pid \<noteq> pp" for xs
    using that assms by (induction xs) (auto simp: own_child_def)
  show ?case
    using Cons assms later [of d] by (auto simp: e own_child_def kids_modify)
qed

lemma exact_absent: "children_exact d \<Longrightarrow> k \<notin> fst ` set d \<Longrightarrow> map_of d q = Some P \<Longrightarrow> k \<notin> set (p_children P)"
  using set_kids by (induction d) (fastforce simp: own_child_def split: if_splits)+

lemma exact_remove:
  assumes "map_of d pid = Some proc" "children_exact d" "dict_ok d"
  shows "children_exact (dict_modify (p_ppid proc)
      (\<lambda>p. if pid \<in> set (p_children p) then p\<lparr>p_children := remove1 pid (p_children p)\<rparr> else p) (AList.delete pid d))"
    (is "children_exact (dict_modify ?pp ?f (AList.delete pid d))")
  using assms
proof (induction d)
  case (Cons e d)
  obtain q P where e: "e = (q, P)" by fastforce
  have ok: "dict_ok d" "q \<notin> fst ` set d" "children_exact d" "p_children P = own_child q P @ kids q d"
    using Cons.prems by (auto simp: e)
  show ?case
  proof (cases "q = pid")
    case True
    have "dict_modify ?pp ?f d = d" using exact_absent [OF ok(3)] ok(2) True by (intro dict_modify_same) auto
    moreover have "AList.delete pid d = d" using ok(2) True by (simp add: delete_id)
    ultimately show ?thesis using ok True by (simp add: e)
  next
    case False
    then have pid: "map_of d pid = Some proc" using Cons.prems(1) by (simp add: e)
    note IH = Cons.IH [OF pid ok(3,1)]
    have "removeAll pid (kids q d) = remove1 pid (kids q d)" using distinct_kids [OF ok(1)] by (simp add: distinct_remove1_removeAll)
    moreover have "pid \<notin> set (own_child q P)" using False by (simp add: own_child_def)
    ultimately have f: "p_children (?f P) = own_child q P @ kids q (AList.delete pid d)"
      using ok(4) by (auto simp: kids_delete remove1_append remove1_idem)
    show ?thesis
    proof (cases "q = ?pp")
      case True
      have "dict_modify ?pp ?f (AList.delete pid d) = AList.delete pid d"
        using ok(2) True by (intro dict_modify_absent) (simp add: map_of_eq_None_iff)
      with IH f True False show ?thesis by (auto simp: e own_child_def)
    next
      case neq: False
      have "kids q (AList.delete pid d) = kids q d"
        using kids_other [OF ok(1) pid] neq by (simp add: kids_delete)
      with IH False neq ok(4) show ?thesis by (simp add: e kids_modify)
    qed
  qed
qed simp

lemma exact_modify: "keeps_identity f \<Longrightarrow> children_exact d \<Longrightarrow> children_exact (dict_modify k f d)"
  by (induction d) (auto simp: keeps_identity_def kids_modify own_child_def)

interpretation pte: machine pt_init pt_step "\<lambda>t. pt_inv t \<and> children_exact (pt_table t)"
proof unfold_locales
  show "pt_inv pt_init \<and> children_exact (pt_table pt_init)"
    by (simp add: pt_inv_init) (simp add: pt_init_def idle_process_def own_child_def)
  fix t e
  assume inv: "pt_inv t \<and> children_exact (pt_table t)"
  then have ok: "dict_ok (pt_table t)" by (simp add: pt_inv_def)
  have "children_exact (pt_table (pt_step e t))"
  proof (cases e)
    case (PSpawn name ppid uid gid cmdline)
    obtain pid a where al: "pa_alloc (pt_alloc t) = (pid, a)" by fastforce
    have "map_of (pt_table t) pid = None" using pa.table_fresh [of "pt_alloc t" "pt_table t"] inv al by (simp add: pt_inv_def)
    moreover have "pid \<noteq> 0" using inv al by (auto simp: pt_inv_def pa_inv_def pa_alloc_def split: list.splits)
    ultimately show ?thesis
      using PSpawn al inv ok exact_spawn [of pid "new_process pid name ppid uid gid cmdline" ppid "pt_table t"]
      by (simp add: pt_spawn_def new_process_def update_fresh map_of_eq_None_iff)
  next
    case (PRemove pid)
    with inv ok exact_remove [of "pt_table t" pid] show ?thesis by (simp add: pt_remove_def split: option.split)
  next
    case (PSetState pid st)
    with inv show ?thesis by (simp add: pt_modify_def exact_modify keeps_identity_def)
  qed
  then show "pt_inv (pt_step e t) \<and> children_exact (pt_table (pt_step e t))" using inv ptm.inv_step by simp
qed

lemma exact_split: "children_exact (xs @ (q, P) # ys) \<Longrightarrow> p_children P = own_child q P @ kids q ys"
  by (induction xs) auto

lemma pid_range:
  assumes "pt_inv t" "map_of (pt_table t) pid = Some P"
  shows "0 \<le> pid" "pid \<noteq> 1"
  using assms map_of_key [OF assms(2)] by (auto simp: pt_inv_def pa_inv_def)

lemma spawn_pid_range:
  assumes "pt_inv t"
  shows "2 \<le> fst (pa_alloc (pt_alloc t))" "map_of (pt_table t) (fst (pa_alloc (pt_alloc t))) = None"
  using assms pa.table_fresh [of "pt_alloc t" "pt_table t"]
  by (auto simp: pt_inv_def pa_inv_def pa_alloc_def split: list.splits)

section \<open>Properties\<close>

text \<open>C21: In every process table reached from boot by spawning, removing and changing the state of processes, each
  process is filed under its own PID and its list of children is exact: it holds the processes spawned after it
  that name it as their parent, in that order, and no other. (A process spawned under its own PID is its own
  first child. A process listed earlier can name the PID too: it was spawned under a process that is gone,
  and whose PID was used again.) So each listed child is alive and names this parent, and none is listed
  twice.\<close>
theorem process_tree_consistent:
  assumes "reaches pt_step pt_init t" and "pt_all t = xs @ P # ys"
  shows "pt_get (p_pid P) t = Some P
    \<and> p_children P = (if p_pid P \<noteq> 0 \<and> p_ppid P = p_pid P then [p_pid P] else [])
        @ map p_pid (filter (\<lambda>C. p_ppid C = p_pid P) ys)
    \<and> distinct (p_children P) \<and> (\<forall>c \<in> set (p_children P). \<exists>C. pt_get c t = Some C \<and> p_ppid C = p_pid P)"
proof -
  have inv: "pt_inv t" "children_exact (pt_table t)" using pte.inv_reachable [OF assms(1)] by simp_all
  obtain us q vs where tab: "pt_table t = us @ (q, P) # vs" "ys = map snd vs"
    using assms(2) unfolding pt_all_def by (auto simp: map_eq_append_conv map_eq_Cons_conv)
  have ok: "dict_ok (pt_table t)" using inv(1) by (simp add: pt_inv_def)
  have key: "p_pid C = c" if "(c, C) \<in> set (pt_table t)" for c C
    using that inv(1) ok by (auto simp: pt_inv_def)
  have q: "p_pid P = q" using key tab(1) by simp
  have get: "pt_get (p_pid P) t = Some P"
    unfolding pt_get_def q using ok tab(1) by (intro map_of_is_SomeI) simp_all
  have "kids q ds = map p_pid (filter (\<lambda>C. p_ppid C = q) (map snd ds))" if "set ds \<subseteq> set (pt_table t)" for ds
    using that key by (induction ds) auto
  from this [of vs] have "kids q vs = map p_pid (filter (\<lambda>C. p_ppid C = q) ys)" using tab by auto
  moreover have "p_children P = own_child q P @ kids q vs" using inv(2) by (simp add: tab(1) exact_split)
  moreover have "distinct (p_children P) \<and> (\<forall>c \<in> set (p_children P). \<exists>C. pt_get c t = Some C \<and> p_ppid C = q)"
    using inv(1) get unfolding pt_inv_def children_ok_def pt_get_def q by blast
  ultimately show ?thesis using get q by (simp add: own_child_def)
qed

theorem process_tree_consistent_witness:
  "p_children (pt_all (fold pt_step [PSpawn ''a'' 0 0 0 (VStr []), PSpawn ''b'' 2 0 0 (VStr []), PSpawn ''c'' 2 0 0 (VStr []),
     PRemove 2, PSpawn ''d'' 0 0 0 (VStr []), PSpawn ''e'' 2 0 0 (VStr [])] pt_init) ! 3) = [5]"
proof -
  let ?t = "fold pt_step [PSpawn ''a'' 0 0 0 (VStr []), PSpawn ''b'' 2 0 0 (VStr []), PSpawn ''c'' 2 0 0 (VStr []),
     PRemove 2, PSpawn ''d'' 0 0 0 (VStr []), PSpawn ''e'' 2 0 0 (VStr [])] pt_init"
  have "3 < length (pt_all ?t)" by code_simp
  note p = process_tree_consistent [OF reaches_fold id_take_nth_drop [OF this], THEN conjunct2, THEN conjunct1]
  have "p_pid (pt_all ?t ! 3) = 2" "p_ppid (pt_all ?t ! 3) = 0" "map p_pid (filter (\<lambda>C. p_ppid C = 2) (drop (Suc 3) (pt_all ?t))) = [5]"
    by code_simp+
  then show ?thesis using p by (simp only:) simp
qed

text \<open>Spawning takes a PID that no live process has, never 0 or 1, files a fresh NEW process
  there with the requested credentials, appends the PID to the parent's children when the parent is
  alive, and leaves every other process as it was.\<close>
theorem spawn_spec:
  assumes "pt_inv t" and "pt_spawn name ppid uid gid cmdline t = (pid, t')"
  shows "pt_get pid t = None \<and> 2 \<le> pid \<and> pt_inv t'
    \<and> (ppid \<noteq> pid \<longrightarrow> pt_get pid t' = Some (new_process pid name ppid uid gid cmdline))
    \<and> (\<forall>P. ppid \<noteq> pid \<longrightarrow> pt_get ppid t = Some P \<longrightarrow>
          pt_get ppid t' = Some (P\<lparr>p_children := p_children P @ [pid]\<rparr>))
    \<and> (\<forall>q. q \<noteq> pid \<longrightarrow> q \<noteq> ppid \<longrightarrow> pt_get q t' = pt_get q t)"
proof -
  have eq: "fst (pa_alloc (pt_alloc t)) = pid" "t' = snd (pt_spawn name ppid uid gid cmdline t)"
    using assms(2) pt_spawn_pid [of name ppid uid gid cmdline t] by auto
  show ?thesis
    using spawn_pid_range [OF assms(1)] pt_inv_spawn [OF assms(1)] eq
    by (auto simp: pt_get_def pt_spawn_table Let_def)
qed

theorem spawn_spec_witness:
  "pt_get 2 (snd (pt_spawn ''init'' 0 0 0 (VStr ''/sbin/init'') pt_init))
   = Some (new_process 2 ''init'' 0 0 0 (VStr ''/sbin/init''))"
proof -
  have "fst (pt_spawn ''init'' 0 0 0 (VStr ''/sbin/init'') pt_init) = 2" by code_simp
  then show ?thesis
    using spawn_spec [OF pt_inv_init, of "''init''" 0 0 0 "VStr ''/sbin/init''"]
    by (metis prod.collapse zero_neq_numeral)
qed

text \<open>Removing a live process deletes exactly it: its PID leaves the table and its parent's list
  of children, every other process keeps all other fields, and a removed PID above 1 is handed out
  again once the PIDs freed before it are used up (first freed, first reused). Removing an unknown
  PID changes nothing.\<close>
theorem remove_spec:
  assumes "pt_inv t" and "pt_get pid t = Some proc"
  shows "pt_get pid (pt_remove pid t) = None \<and> pt_inv (pt_remove pid t)
    \<and> (\<forall>q Q. q \<noteq> pid \<longrightarrow> pt_get q t = Some Q \<longrightarrow>
         pt_get q (pt_remove pid t) = Some (Q\<lparr>p_children := remove1 pid (p_children Q)\<rparr>))
    \<and> (1 < pid \<longrightarrow> free_pids (pt_alloc (pt_remove pid t)) = free_pids (pt_alloc t) @ [pid])
    \<and> (1 < pid \<longrightarrow> free_pids (pt_alloc t) = [] \<longrightarrow>
         fst (pt_spawn name ppid uid gid cmdline (pt_remove pid t)) = pid)
    \<and> pt_remove pid (pt_remove pid t) = pt_remove pid t"
proof -
  have proc: "map_of (pt_table t) pid = Some proc" using assms(2) by (simp add: pt_get_def)
  have gone: "map_of (pt_table (pt_remove pid t)) pid = None"
    by (simp add: pt_remove_table [OF proc] Let_def)
  have rest: "map_of (pt_table (pt_remove pid t)) q = Some (Q\<lparr>p_children := remove1 pid (p_children Q)\<rparr>)"
    if "q \<noteq> pid" "map_of (pt_table t) q = Some Q" for q Q
    using pt_remove_keeps [OF proc assms(1) that] .
  have "free_pids (pt_alloc (pt_remove pid t)) = free_pids (pt_alloc t) @ [pid]" if "1 < pid"
    using that proc by (simp add: pt_remove_def pa_free_def)
  then show ?thesis
    using gone rest pt_inv_remove [OF assms(1)] pt_remove_absent [OF gone]
    by (auto simp: pt_get_def pa_alloc_def)
qed

theorem remove_spec_witness:
  "fst (pt_spawn ''b'' 0 0 0 (VStr []) (pt_remove 2 (snd (pt_spawn ''a'' 0 0 0 (VStr []) pt_init)))) = 2"
proof -
  let ?t = "snd (pt_spawn ''a'' 0 0 0 (VStr []) pt_init)"
  have "pt_get 2 ?t = Some (new_process 2 ''a'' 0 0 0 (VStr []))" by code_simp
  moreover have "free_pids (pt_alloc ?t) = []" by code_simp
  ultimately show ?thesis
    using remove_spec [OF pt_inv_spawn [OF pt_inv_init]] by fastforce
qed

end
