(* ===== verification/Physical_Memory.thy ===== *)
theory Physical_Memory
  imports Interfaces
begin

text \<open>
  \<^verbatim>\<open>memory.py\<close>, the physical memory manager: a list of page frames, allocated first fit and
  freed by frame number. The abstract view of a well-formed manager is the partial map from
  frame numbers to owners (\<open>frame_owner\<close>); allocation and release refine its update, and a batch
  allocation either takes the frames it asked for or leaves the manager as it was.
\<close>

section \<open>State and operations\<close>

definition PAGE_SIZE :: int where "PAGE_SIZE = 4096"
definition KERNEL_BASE :: int where "KERNEL_BASE = 0xFFFF800000000000"
definition USER_MAX :: int where "USER_MAX = 0x00007FFFFFFFFFFF"
definition DEFAULT_PHYS_PAGES :: int where "DEFAULT_PHYS_PAGES = 1024"

record page =
  pfn :: int
  in_use :: bool
  owner_pid :: int

definition phys_addr :: "page \<Rightarrow> int" where
  "phys_addr p = pfn p * PAGE_SIZE"

record pmm =
  total_pages :: int
  pages :: "page list"

definition pmm_init :: "int \<Rightarrow> pmm" where
  "pmm_init n = \<lparr>total_pages = n,
     pages = map (\<lambda>i. \<lparr>pfn = int i, in_use = False, owner_pid = 0\<rparr>) [0..<nat n]\<rparr>"

definition free_pages :: "pmm \<Rightarrow> int" where
  "free_pages m = int (length (filter (\<lambda>p. \<not> in_use p) (pages m)))"

definition used_pages :: "pmm \<Rightarrow> int" where
  "used_pages m = int (length (filter in_use (pages m)))"

text \<open>The loop of \<^verbatim>\<open>alloc_page\<close>: the first free page is marked and returned.\<close>

fun alloc_scan :: "int \<Rightarrow> page list \<Rightarrow> (page \<times> page list) option" where
  "alloc_scan pid [] = None"
| "alloc_scan pid (p # ps) =
     (if \<not> in_use p then (let q = p\<lparr>in_use := True, owner_pid := pid\<rparr> in Some (q, q # ps))
      else (case alloc_scan pid ps of None \<Rightarrow> None | Some (q, qs) \<Rightarrow> Some (q, p # qs)))"

definition alloc_page :: "int \<Rightarrow> pmm \<Rightarrow> page option \<times> pmm" where
  "alloc_page pid m = (case alloc_scan pid (pages m) of
     Some (q, ps) \<Rightarrow> (Some q, m\<lparr>pages := ps\<rparr>)
   | None \<Rightarrow> (None, m))"

definition free_page :: "int \<Rightarrow> pmm \<Rightarrow> pmm" where
  "free_page i m =
     (if 0 \<le> i \<and> i < total_pages m
      then m\<lparr>pages := (pages m)[nat i := (pages m ! nat i)\<lparr>in_use := False, owner_pid := 0\<rparr>]\<rparr>
      else m)"

text \<open>The loop of \<^verbatim>\<open>alloc_pages\<close>, with its \<^verbatim>\<open>result\<close> list and the roll-back on exhaustion.\<close>

fun alloc_loop :: "int \<Rightarrow> nat \<Rightarrow> page list \<Rightarrow> pmm \<Rightarrow> page list \<times> pmm" where
  "alloc_loop pid 0 result m = (result, m)"
| "alloc_loop pid (Suc k) result m =
     (case alloc_page pid m of
        (None, m') \<Rightarrow> ([], fold (\<lambda>already. free_page (pfn already)) result m')
      | (Some p, m') \<Rightarrow> alloc_loop pid k (result @ [p]) m')"

definition alloc_pages :: "int \<Rightarrow> int \<Rightarrow> pmm \<Rightarrow> page list \<times> pmm" where
  "alloc_pages n pid m = alloc_loop pid (nat n) [] m"

record pmm_stats =
  st_total_pages :: int
  st_free_pages :: int
  st_used_pages :: int
  st_total_bytes :: int
  st_free_bytes :: int

definition stats :: "pmm \<Rightarrow> pmm_stats" where
  "stats m = \<lparr>st_total_pages = total_pages m, st_free_pages = free_pages m,
     st_used_pages = used_pages m, st_total_bytes = total_pages m * PAGE_SIZE,
     st_free_bytes = free_pages m * PAGE_SIZE\<rparr>"

section \<open>Invariant and abstract view\<close>

definition pmm_wf :: "pmm \<Rightarrow> bool" where
  "pmm_wf m \<longleftrightarrow> length (pages m) = nat (total_pages m)
     \<and> (\<forall>i < length (pages m). pfn (pages m ! i) = int i)
     \<and> (\<forall>p \<in> set (pages m). \<not> in_use p \<longrightarrow> owner_pid p = 0)"

definition frame_owner :: "pmm \<Rightarrow> int \<rightharpoonup> int" where
  "frame_owner m i =
     (if 0 \<le> i \<and> i < total_pages m \<and> in_use (pages m ! nat i)
      then Some (owner_pid (pages m ! nat i)) else None)"

declare pmm_wf_def [wf_defs]

lemma pmm_wf_init [intro, simp]: "pmm_wf (pmm_init n)"
  by (auto simp: pmm_wf_def pmm_init_def)

lemma frame_owner_init [simp]: "frame_owner (pmm_init n) = Map.empty"
  by (auto simp: frame_owner_def pmm_init_def fun_eq_iff nat_less_iff)

lemma free_pages_nonneg [simp]: "0 \<le> free_pages m"
  by (simp add: free_pages_def)

lemma free_used_total: "pmm_wf m \<Longrightarrow> 0 \<le> total_pages m \<Longrightarrow> free_pages m + used_pages m = total_pages m"
  using sum_length_filter_compl [of in_use "pages m"]
  by (auto simp: pmm_wf_def free_pages_def used_pages_def)

text \<open>A well-formed manager is determined by its size and its frame owners.\<close>

lemma pmm_eqI:
  assumes "pmm_wf m" "pmm_wf m'" "total_pages m = total_pages m'" "frame_owner m = frame_owner m'"
  shows "m = m'"
proof -
  have len: "length (pages m) = length (pages m')"
    using assms by (simp add: pmm_wf_def)
  have "pages m ! i = pages m' ! i" if i: "i < length (pages m)" for i
  proof -
    have mem: "pages m ! i \<in> set (pages m)" "pages m' ! i \<in> set (pages m')"
      using i len by auto
    have tot: "int i < total_pages m" "int i < total_pages m'"
      using assms(1,3) i by (auto simp: pmm_wf_def)
    have "frame_owner m (int i) = frame_owner m' (int i)"
      by (rule fun_cong [OF assms(4)])
    then have "in_use (pages m ! i) = in_use (pages m' ! i)"
      "owner_pid (pages m ! i) = owner_pid (pages m' ! i)"
      using assms(1,2) mem tot by (auto simp: frame_owner_def pmm_wf_def split: if_splits)
    then show ?thesis
      using assms(1,2) i len by (intro page.equality) (auto simp: pmm_wf_def)
  qed
  then have "pages m = pages m'"
    using len by (simp add: nth_equalityI)
  then show ?thesis
    using assms(3) by (intro pmm.equality) auto
qed

section \<open>Single pages\<close>

lemma alloc_scan_None: "alloc_scan pid ps = None \<longleftrightarrow> filter (\<lambda>p. \<not> in_use p) ps = []"
  by (induction ps) (auto simp: Let_def split: option.splits)

lemma alloc_scan_Some:
  "alloc_scan pid ps = Some (q, qs) \<Longrightarrow>
     \<exists>i < length ps. \<not> in_use (ps ! i) \<and> (\<forall>j < i. in_use (ps ! j))
       \<and> q = (ps ! i)\<lparr>in_use := True, owner_pid := pid\<rparr> \<and> qs = ps[i := q]"
proof (induction ps arbitrary: q qs)
  case (Cons p ps)
  show ?case
  proof (cases "in_use p")
    case True
    then obtain qs' where rest: "alloc_scan pid ps = Some (q, qs')" "qs = p # qs'"
      using Cons.prems by (auto split: option.splits)
    from Cons.IH [OF rest(1)] obtain i where
      "i < length ps" "\<not> in_use (ps ! i)" "\<forall>j < i. in_use (ps ! j)"
      "q = (ps ! i)\<lparr>in_use := True, owner_pid := pid\<rparr>" "qs' = ps[i := q]"
      by blast
    with True rest(2) show ?thesis
      by (intro exI [of _ "Suc i"]) (auto simp: less_Suc_eq_0_disj)
  next
    case False
    with Cons.prems show ?thesis
      by (intro exI [of _ 0]) (auto simp: Let_def)
  qed
qed simp

lemma alloc_page_None:
  "alloc_page pid m = (None, m') \<longleftrightarrow> free_pages m = 0 \<and> m' = m"
  using alloc_scan_None [of pid "pages m"]
  by (cases "alloc_scan pid (pages m)") (auto simp: alloc_page_def free_pages_def)

text \<open>What a successful single allocation does, on the state and on the abstract view.\<close>

lemma alloc_page_Some:
  assumes wf: "pmm_wf m" and al: "alloc_page pid m = (Some q, m')"
  shows "pmm_wf m'" and "total_pages m' = total_pages m"
    and "0 \<le> pfn q" and "pfn q < total_pages m"
    and "frame_owner m (pfn q) = None"
    and "\<And>j. 0 \<le> j \<Longrightarrow> j < pfn q \<Longrightarrow> frame_owner m j \<noteq> None"
    and "frame_owner m' = (frame_owner m)(pfn q \<mapsto> pid)"
    and "free_pages m' = free_pages m - 1"
    and "in_use q" and "owner_pid q = pid"
proof -
  from al obtain qs where sc: "alloc_scan pid (pages m) = Some (q, qs)" and m': "m' = m\<lparr>pages := qs\<rparr>"
    by (auto simp: alloc_page_def split: option.splits)
  from alloc_scan_Some [OF sc] obtain i where i: "i < length (pages m)" "\<not> in_use (pages m ! i)"
      "\<forall>j < i. in_use (pages m ! j)" "q = (pages m ! i)\<lparr>in_use := True, owner_pid := pid\<rparr>"
      "qs = (pages m)[i := q]"
    by blast
  have tot: "length (pages m) = nat (total_pages m)" and pf: "pfn q = int i"
    using wf i by (auto simp: pmm_wf_def)
  show "pmm_wf m'"
    using wf i m' by (auto simp: pmm_wf_def nth_list_update dest!: set_update_subset_insert [THEN subsetD])
  show "total_pages m' = total_pages m" "0 \<le> pfn q" "pfn q < total_pages m"
    "in_use q" "owner_pid q = pid"
    using m' i tot pf by auto
  show "frame_owner m (pfn q) = None"
    using pf i by (simp add: frame_owner_def)
  show "frame_owner m j \<noteq> None" if "0 \<le> j" "j < pfn q" for j
    using that pf i tot by (simp add: frame_owner_def nat_less_iff)
  show "frame_owner m' = (frame_owner m)(pfn q \<mapsto> pid)"
    using m' i tot pf by (auto simp: frame_owner_def fun_eq_iff nth_list_update)
  show "free_pages m' = free_pages m - 1"
    using m' i length_filter_update [OF i(1), of "\<lambda>p. \<not> in_use p" q] by (simp add: free_pages_def)
qed

lemma free_page_wf [intro, simp]: "pmm_wf m \<Longrightarrow> pmm_wf (free_page i m)"
  by (auto simp: pmm_wf_def free_page_def nth_list_update nat_less_iff
      dest!: set_update_subset_insert [THEN subsetD])

lemma total_free_page [simp]: "total_pages (free_page i m) = total_pages m"
  by (simp add: free_page_def)

lemma frame_owner_free_page:
  "pmm_wf m \<Longrightarrow> frame_owner (free_page i m) = (frame_owner m)(i := None)"
  by (auto simp: pmm_wf_def free_page_def frame_owner_def fun_eq_iff nth_list_update nat_less_iff
      eq_nat_nat_iff)

lemma free_page_count:
  assumes "pmm_wf m"
  shows "free_pages (free_page i m) = free_pages m + (if frame_owner m i = None then 0 else 1)"
  using assms length_filter_update [of "nat i" "pages m" "\<lambda>p. \<not> in_use p"
      "(pages m ! nat i)\<lparr>in_use := False, owner_pid := 0\<rparr>"]
  by (auto simp: free_page_def frame_owner_def free_pages_def pmm_wf_def nat_less_iff split: if_splits)

section \<open>Batches\<close>

text \<open>\<open>taken pid m0 res m\<close>: \<open>m\<close> is \<open>m0\<close> with the frames of \<open>res\<close>, all free in \<open>m0\<close>, given to \<open>pid\<close>.\<close>

definition taken :: "int \<Rightarrow> pmm \<Rightarrow> page list \<Rightarrow> pmm \<Rightarrow> bool" where
  "taken pid m0 res m \<longleftrightarrow> pmm_wf m \<and> total_pages m = total_pages m0
     \<and> distinct (map pfn res)
     \<and> (\<forall>p \<in> set res. in_use p \<and> owner_pid p = pid \<and> 0 \<le> pfn p \<and> pfn p < total_pages m0
                       \<and> frame_owner m0 (pfn p) = None)
     \<and> frame_owner m = (\<lambda>i. if i \<in> pfn ` set res then Some pid else frame_owner m0 i)
     \<and> free_pages m = free_pages m0 - int (length res)"

lemma taken_Nil: "pmm_wf m \<Longrightarrow> taken pid m [] m"
  by (simp add: taken_def)

lemma taken_alloc_page:
  assumes "taken pid m0 res m" and "alloc_page pid m = (Some q, m')"
  shows "taken pid m0 (res @ [q]) m'"
proof -
  note t = assms(1) [unfolded taken_def]
  have "pmm_wf m" using t by simp
  note a = alloc_page_Some [OF this assms(2)]
  have new: "pfn q \<notin> pfn ` set res" "frame_owner m0 (pfn q) = None"
    using a(5) t by (auto split: if_splits)
  show ?thesis
    unfolding taken_def using t a new by (auto simp: fun_eq_iff)
qed

lemma free_all:
  assumes "pmm_wf m"
  shows "pmm_wf (fold (\<lambda>p. free_page (pfn p)) res m)"
    and "total_pages (fold (\<lambda>p. free_page (pfn p)) res m) = total_pages m"
    and "frame_owner (fold (\<lambda>p. free_page (pfn p)) res m)
       = (\<lambda>i. if i \<in> pfn ` set res then None else frame_owner m i)"
  using assms
  by (induction res arbitrary: m) (auto simp: frame_owner_free_page fun_eq_iff)

lemma roll_back:
  assumes wf: "pmm_wf m0" and t: "taken pid m0 res m"
  shows "fold (\<lambda>p. free_page (pfn p)) res m = m0"
proof (rule pmm_eqI [OF _ wf])
  have m: "pmm_wf m" using t by (simp add: taken_def)
  show "pmm_wf (fold (\<lambda>p. free_page (pfn p)) res m)"
    using m by (rule free_all(1))
  show "total_pages (fold (\<lambda>p. free_page (pfn p)) res m) = total_pages m0"
    using free_all(2) [OF m] t by (simp add: taken_def)
  show "frame_owner (fold (\<lambda>p. free_page (pfn p)) res m) = frame_owner m0"
    using t by (auto simp: free_all(3) [OF m] taken_def fun_eq_iff)
qed

lemma alloc_loop_spec:
  assumes "pmm_wf m0" "taken pid m0 res m"
  shows "if int k \<le> free_pages m
         then \<exists>res' m'. alloc_loop pid k res m = (res', m') \<and> taken pid m0 res' m'
                       \<and> length res' = length res + k
         else alloc_loop pid k res m = ([], m0)"
  using assms(2)
proof (induction k arbitrary: res m)
  case (Suc k)
  have wf: "pmm_wf m" using Suc.prems by (simp add: taken_def)
  show ?case
  proof (cases "alloc_page pid m")
    case (Pair r m')
    show ?thesis
    proof (cases r)
      case None
      with Pair have "alloc_page pid m = (None, m')" by simp
      then have "free_pages m = 0 \<and> m' = m" by (simp only: alloc_page_None)
      then show ?thesis
        using Pair None roll_back [OF assms(1) Suc.prems] by simp
    next
      case (Some q)
      with Pair have al: "alloc_page pid m = (Some q, m')" by simp
      have "free_pages m' = free_pages m - 1"
        using alloc_page_Some(8) [OF wf al] .
      then show ?thesis
        using Suc.IH [OF taken_alloc_page [OF Suc.prems al]] al by (auto split: if_splits)
    qed
  qed
qed auto

lemma alloc_pages_enough:
  assumes "pmm_wf m" "0 \<le> n" "n \<le> free_pages m"
  shows "taken pid m (fst (alloc_pages n pid m)) (snd (alloc_pages n pid m))"
    and "length (fst (alloc_pages n pid m)) = nat n"
  using alloc_loop_spec [OF assms(1) taken_Nil [OF assms(1)], of "nat n" pid] assms
  by (auto simp: alloc_pages_def)

lemma alloc_pages_short:
  assumes "pmm_wf m" "free_pages m < n"
  shows "alloc_pages n pid m = ([], m)"
  using alloc_loop_spec [OF assms(1) taken_Nil [OF assms(1)], of "nat n" pid] assms
    order_le_less_trans [OF free_pages_nonneg assms(2)]
  by (auto simp: alloc_pages_def)

lemma alloc_pages_nonpos: "n \<le> 0 \<Longrightarrow> alloc_pages n pid m = ([], m)"
  by (simp add: alloc_pages_def)

lemma alloc_pages_wf [intro]:
  assumes "pmm_wf m"
  shows "pmm_wf (snd (alloc_pages n pid m))"
  using alloc_pages_enough(1) [OF assms, of n pid] alloc_pages_short [OF assms, of n pid]
    alloc_pages_nonpos [of n pid m] assms
  by (cases "n \<le> 0"; cases "free_pages m < n") (auto simp: taken_def)

section \<open>The contract the virtual memory manager relies on\<close>

locale page_source =
  fixes allocate :: "int \<Rightarrow> int \<Rightarrow> 'm \<Rightarrow> 'f list \<times> 'm"
    and available :: "'m \<Rightarrow> int"
    and owner :: "'m \<Rightarrow> int \<rightharpoonup> int"
    and ok :: "'m \<Rightarrow> bool"
  assumes ok_allocate: "ok m \<Longrightarrow> ok (snd (allocate n pid m))"
    and available_nonneg: "ok m \<Longrightarrow> 0 \<le> available m"
    and enough: "ok m \<Longrightarrow> 0 \<le> n \<Longrightarrow> n \<le> available m \<Longrightarrow>
      length (fst (allocate n pid m)) = nat n
      \<and> available (snd (allocate n pid m)) = available m - n"
    and too_many: "ok m \<Longrightarrow> available m < n \<Longrightarrow> allocate n pid m = ([], m)"
    and none: "n \<le> 0 \<Longrightarrow> allocate n pid m = ([], m)"
    and owner_stable: "ok m \<Longrightarrow> owner m i = Some p \<Longrightarrow> owner (snd (allocate n pid m)) i = Some p"
begin

lemma succeeds_iff: "ok m \<Longrightarrow> fst (allocate n pid m) \<noteq> [] \<longleftrightarrow> 0 < n \<and> n \<le> available m"
  using enough [of m n pid] too_many [of m n pid] none [of n pid m]
  by (cases "n \<le> 0"; cases "available m < n") auto

lemma failure_unchanged: "ok m \<Longrightarrow> fst (allocate n pid m) = [] \<Longrightarrow> snd (allocate n pid m) = m"
  using enough [of m n pid] too_many [of m n pid] none [of n pid m]
  by (cases "n \<le> 0"; cases "available m < n") auto

lemma accounting:
  "ok m \<Longrightarrow> available (snd (allocate n pid m)) + int (length (fst (allocate n pid m))) = available m"
  using enough [of m n pid] too_many [of m n pid] none [of n pid m]
  by (cases "n \<le> 0"; cases "available m < n") auto

end

interpretation ps: page_source alloc_pages free_pages frame_owner pmm_wf
proof unfold_locales
  fix m n pid i p
  assume m: "pmm_wf m"
  show "pmm_wf (snd (alloc_pages n pid m))" using m by (rule alloc_pages_wf)
  show "0 \<le> free_pages m" by simp
  show "length (fst (alloc_pages n pid m)) = nat n
      \<and> free_pages (snd (alloc_pages n pid m)) = free_pages m - n" if "0 \<le> n" "n \<le> free_pages m"
    using alloc_pages_enough [OF m that] that by (auto simp: taken_def)
  show "alloc_pages n pid m = ([], m)" if "free_pages m < n"
    using m that by (rule alloc_pages_short)
  show "frame_owner (snd (alloc_pages n pid m)) i = Some p" if "frame_owner m i = Some p"
    using alloc_pages_enough(1) [OF m, of n pid] alloc_pages_short [OF m, of n pid]
      alloc_pages_nonpos [of n pid m] that
    by (cases "n \<le> 0"; cases "free_pages m < n") (auto simp: taken_def)
next
  show "n \<le> 0 \<Longrightarrow> alloc_pages n pid m = ([], m)" for n pid m
    by (rule alloc_pages_nonpos)
qed

section \<open>Properties\<close>

datatype pmm_op = AllocPage int | AllocPages int int | FreePage int

fun pmm_step :: "pmm_op \<Rightarrow> pmm \<Rightarrow> pmm" where
  "pmm_step (AllocPage pid) m = snd (alloc_page pid m)"
| "pmm_step (AllocPages n pid) m = snd (alloc_pages n pid m)"
| "pmm_step (FreePage i) m = free_page i m"

lemma alloc_page_cases:
  obtains (exhausted) "alloc_page pid m = (None, m)" "free_pages m = 0"
  | (allocated) q m' where "alloc_page pid m = (Some q, m')"
proof (cases "alloc_page pid m")
  case (Pair r m')
  then show ?thesis
    using exhausted allocated alloc_page_None [of pid m m'] by (cases r) auto
qed

lemma alloc_page_wf:
  assumes "pmm_wf m"
  shows "pmm_wf (snd (alloc_page pid m)) \<and> total_pages (snd (alloc_page pid m)) = total_pages m"
  using assms alloc_page_Some(1,2) [OF assms] by (cases pid m rule: alloc_page_cases) auto

lemma alloc_pages_total: "pmm_wf m \<Longrightarrow> total_pages (snd (alloc_pages n pid m)) = total_pages m"
  using alloc_pages_enough(1) [of m n pid] alloc_pages_short [of m n pid] alloc_pages_nonpos [of n pid m]
  by (cases "n \<le> 0"; cases "free_pages m < n") (auto simp: taken_def)

lemma pmm_step_wf:
  "pmm_wf m \<and> total_pages m = n \<Longrightarrow> pmm_wf (pmm_step e m) \<and> total_pages (pmm_step e m) = n"
  by (cases e) (auto simp: alloc_page_wf alloc_pages_total)

interpretation pm: machine "pmm_init n" pmm_step "\<lambda>m. pmm_wf m \<and> total_pages m = n" for n
proof unfold_locales
  show "pmm_wf (pmm_init n) \<and> total_pages (pmm_init n) = n"
    by (simp add: pmm_wf_init) (simp add: pmm_init_def)
qed (rule pmm_step_wf)

text \<open>C5: A batch allocation is all or nothing. With enough free frames it returns the requested
  number of distinct frames, every one of them free before and owned by the requester after, no
  other frame changes owner and the free count drops by the number taken; otherwise (too few free
  frames, or a count that is not positive) it returns the empty list and, the frames it had taken
  being rolled back, leaves the manager exactly as it was.\<close>
theorem alloc_pages_all_or_nothing:
  assumes "pmm_wf m"
  shows "if 0 < n \<and> n \<le> free_pages m
         then (\<exists>ps m'. alloc_pages n pid m = (ps, m') \<and> pmm_wf m' \<and> length ps = nat n
                 \<and> distinct (map pfn ps)
                 \<and> pfn ` set ps \<subseteq> {i. 0 \<le> i \<and> i < total_pages m \<and> frame_owner m i = None}
                 \<and> frame_owner m' = (\<lambda>i. if i \<in> pfn ` set ps then Some pid else frame_owner m i)
                 \<and> free_pages m' = free_pages m - n)
         else alloc_pages n pid m = ([], m)"
  using alloc_pages_enough [OF assms, of n pid] alloc_pages_short [OF assms, of n pid]
    alloc_pages_nonpos [of n pid m]
  by (cases "alloc_pages n pid m") (auto simp: taken_def)

theorem alloc_pages_all_or_nothing_witness:
  "alloc_pages 5 7 (pmm_init 4) = ([], pmm_init 4)
   \<and> map pfn (fst (alloc_pages 3 7 (pmm_init 4))) = [0, 1, 2]"
proof -
  have w: "pmm_wf (pmm_init 4)" by simp
  have f: "free_pages (pmm_init 4) = 4" by code_simp
  show ?thesis
  proof
    show "alloc_pages 5 7 (pmm_init 4) = ([], pmm_init 4)"
      using alloc_pages_all_or_nothing [OF w, of 5 7] f by simp
    show "map pfn (fst (alloc_pages 3 7 (pmm_init 4))) = [0, 1, 2]"
      by code_simp
  qed
qed

text \<open>Whatever sequence of allocations and releases is run on a fresh manager, every frame keeps
  its number and its place, free frames have no owner, and free and used frames add up to the
  configured total.\<close>
theorem pmm_reachable_accounting:
  assumes "reaches pmm_step (pmm_init n) m" and "0 \<le> n"
  shows "pmm_wf m \<and> total_pages m = n \<and> free_pages m + used_pages m = n"
  using pm.inv_reachable [OF assms(1)] free_used_total [of m] assms(2) by auto

theorem pmm_reachable_accounting_witness:
  "free_pages (fold pmm_step [AllocPages 3 7, FreePage 1, AllocPage 9] (pmm_init 4))
   + used_pages (fold pmm_step [AllocPages 3 7, FreePage 1, AllocPage 9] (pmm_init 4)) = 4"
  using pmm_reachable_accounting [OF reaches_fold, of 4 "[AllocPages 3 7, FreePage 1, AllocPage 9]"]
  by simp

text \<open>A single allocation is first fit: it fails exactly when no frame is free, leaving the
  manager unchanged, and otherwise returns the lowest-numbered free frame, now owned by the
  requester; freeing that frame restores the previous manager exactly.\<close>
theorem alloc_page_first_fit:
  assumes "pmm_wf m"
  shows "case alloc_page pid m of
      (None, m') \<Rightarrow> free_pages m = 0 \<and> m' = m
    | (Some q, m') \<Rightarrow> frame_owner m (pfn q) = None
        \<and> (\<forall>j \<in> {0..<pfn q}. frame_owner m j \<noteq> None)
        \<and> frame_owner m' = (frame_owner m)(pfn q \<mapsto> pid) \<and> free_page (pfn q) m' = m"
proof (cases "alloc_page pid m")
  case (Pair r m')
  show ?thesis
  proof (cases r)
    case None
    with Pair show ?thesis using alloc_page_None [of pid m m'] by simp
  next
    case (Some q)
    with Pair have al: "alloc_page pid m = (Some q, m')" by simp
    note a = alloc_page_Some [OF assms al]
    have "free_page (pfn q) m' = m"
      using a assms by (intro pmm_eqI) (auto simp: frame_owner_free_page)
    with Pair Some a show ?thesis by simp
  qed
qed

theorem alloc_page_first_fit_witness:
  "free_page 0 (snd (alloc_page 7 (pmm_init 2))) = pmm_init 2"
proof -
  have "pmm_wf (pmm_init 2)" by simp
  moreover have "fst (alloc_page 7 (pmm_init 2)) = Some \<lparr>pfn = 0, in_use = True, owner_pid = 7\<rparr>"
    by code_simp
  ultimately show ?thesis
    using alloc_page_first_fit [of "pmm_init 2" 7] by (cases "alloc_page 7 (pmm_init 2)") auto
qed

end
