(* ===== verification/Virtual_Memory.thy ===== *)
theory Virtual_Memory
  imports Physical_Memory
begin

text \<open>
  \<^verbatim>\<open>memory.py\<close>, virtual memory: areas (VMAs), address spaces and the manager that backs new
  areas by frames of the physical manager. The manager record contains the physical manager it
  was created with (\<^verbatim>\<open>self._pmm\<close>). The flags and the name of an area are dynamically typed,
  because \<^verbatim>\<open>sys_mmap\<close> stores there whatever its caller passed.
\<close>

section \<open>Areas and address spaces\<close>

record vma =
  vma_start :: int
  vma_end :: int
  vma_flags :: pyval
  vma_name :: pyval

definition vma_size :: "vma \<Rightarrow> int" where
  "vma_size a = vma_end a - vma_start a"

definition vma_contains :: "vma \<Rightarrow> int \<Rightarrow> bool" where
  "vma_contains a addr \<longleftrightarrow> vma_start a \<le> addr \<and> addr < vma_end a"

text \<open>\<^verbatim>\<open>c in flags\<close>: a membership test on a value that is not a string raises TypeError.\<close>

fun has_flag :: "char \<Rightarrow> pyval \<Rightarrow> bool result" where
  "has_flag c (VStr s) = Inr (c \<in> set s)"
| "has_flag c (VInt i) = Inl TypeError"
| "has_flag c (VBytes b) = Inl TypeError"

record addr_space =
  as_pid :: int
  areas :: "vma list"

definition as_init :: "int \<Rightarrow> addr_space" where
  "as_init pid = \<lparr>as_pid = pid, areas = []\<rparr>"

definition as_map :: "int \<Rightarrow> int \<Rightarrow> pyval \<Rightarrow> pyval \<Rightarrow> addr_space \<Rightarrow> addr_space" where
  "as_map start sz flags name s =
     s\<lparr>areas := areas s @ [\<lparr>vma_start = start, vma_end = start + sz, vma_flags = flags, vma_name = name\<rparr>]\<rparr>"

definition as_unmap :: "int \<Rightarrow> addr_space \<Rightarrow> bool \<times> addr_space" where
  "as_unmap start s =
     (let before = length (areas s);
          s' = s\<lparr>areas := filter (\<lambda>a. vma_start a \<noteq> start) (areas s)\<rparr>
      in (length (areas s') < before, s'))"

fun scan_areas :: "int \<Rightarrow> vma list \<Rightarrow> vma option" where
  "scan_areas addr [] = None"
| "scan_areas addr (a # as) = (if vma_contains a addr then Some a else scan_areas addr as)"

definition as_lookup :: "int \<Rightarrow> addr_space \<Rightarrow> vma option" where
  "as_lookup addr s = scan_areas addr (areas s)"

definition check_access :: "int \<Rightarrow> bool \<Rightarrow> bool \<Rightarrow> addr_space \<Rightarrow> bool result" where
  "check_access addr wr ex s =
     (case as_lookup addr s of
        None \<Rightarrow> Inr False
      | Some a \<Rightarrow>
         (case (if wr then has_flag CHR ''w'' (vma_flags a) else Inr True) of
            Inl e \<Rightarrow> Inl e
          | Inr False \<Rightarrow> Inr False
          | Inr True \<Rightarrow> (if ex then has_flag CHR ''x'' (vma_flags a) else Inr True)))"

section \<open>The virtual memory manager\<close>

record vmm =
  vmm_pmm :: pmm
  address_spaces :: "(int, addr_space) dict"

definition vmm_init :: "pmm \<Rightarrow> vmm" where
  "vmm_init m = \<lparr>vmm_pmm = m, address_spaces = []\<rparr>"

definition default_space :: "int \<Rightarrow> addr_space" where
  "default_space pid =
     as_map 0x00007fff00000000 0x100000 (VStr ''rw-'') (VStr ''[stack]'')
       (as_map 0x600000 0x1000 (VStr ''rw-'') (VStr ''[data]'')
         (as_map 0x400000 0x1000 (VStr ''r-x'') (VStr ''[text]'') (as_init pid)))"

definition create_address_space :: "int \<Rightarrow> vmm \<Rightarrow> vmm" where
  "create_address_space pid v =
     v\<lparr>address_spaces := AList.update pid (default_space pid) (address_spaces v)\<rparr>"

definition destroy_address_space :: "int \<Rightarrow> vmm \<Rightarrow> vmm" where
  "destroy_address_space pid v = v\<lparr>address_spaces := AList.delete pid (address_spaces v)\<rparr>"

definition pages_needed :: "int \<Rightarrow> int" where
  "pages_needed sz = (sz + PAGE_SIZE - 1) div PAGE_SIZE"

definition map_pages :: "int \<Rightarrow> int \<Rightarrow> int \<Rightarrow> pyval \<Rightarrow> pyval \<Rightarrow> vmm \<Rightarrow> bool \<times> vmm" where
  "map_pages pid vaddr sz flags name v =
     (case map_of (address_spaces v) pid of
        None \<Rightarrow> (False, v)
      | Some s \<Rightarrow>
         (let (ps, m') = alloc_pages (pages_needed sz) pid (vmm_pmm v) in
          if ps = [] then (False, v\<lparr>vmm_pmm := m'\<rparr>)
          else (True, v\<lparr>vmm_pmm := m',
                 address_spaces := AList.update pid (as_map vaddr sz flags name s) (address_spaces v)\<rparr>)))"

definition unmap_pages :: "int \<Rightarrow> int \<Rightarrow> vmm \<Rightarrow> bool \<times> vmm" where
  "unmap_pages pid vaddr v =
     (case map_of (address_spaces v) pid of
        None \<Rightarrow> (False, v)
      | Some s \<Rightarrow>
         (let (result, s') = as_unmap vaddr s in
          (result, v\<lparr>address_spaces := AList.update pid s' (address_spaces v)\<rparr>)))"

text \<open>The message of \<^verbatim>\<open>simulate_page_fault\<close>, by its four cases and the values it interpolates.\<close>

datatype fault =
    Fault_no_process int
  | Fault_no_vma int int
  | Fault_protection int int pyval
  | Fault_satisfied int int pyval pyval

definition simulate_page_fault :: "int \<Rightarrow> int \<Rightarrow> bool \<Rightarrow> vmm \<Rightarrow> fault result" where
  "simulate_page_fault pid addr wr v =
     (case map_of (address_spaces v) pid of
        None \<Rightarrow> Inr (Fault_no_process pid)
      | Some s \<Rightarrow>
         (case as_lookup addr s of
            None \<Rightarrow> Inr (Fault_no_vma pid addr)
          | Some a \<Rightarrow>
             (case (if wr then has_flag CHR ''w'' (vma_flags a) else Inr True) of
                Inl e \<Rightarrow> Inl e
              | Inr False \<Rightarrow> Inr (Fault_protection pid addr (vma_name a))
              | Inr True \<Rightarrow> Inr (Fault_satisfied pid addr (vma_name a) (vma_flags a)))))"

section \<open>Lemmas\<close>

lemma scan_areas_None: "scan_areas addr as = None \<longleftrightarrow> (\<forall>a \<in> set as. \<not> vma_contains a addr)"
  by (induction as) auto

lemma scan_areas_Some: "scan_areas addr as = Some a \<Longrightarrow> a \<in> set as \<and> vma_contains a addr"
  by (induction as) (auto split: if_splits)

lemma scan_areas_append:
  "scan_areas addr (as @ bs) = (case scan_areas addr as of None \<Rightarrow> scan_areas addr bs | Some a \<Rightarrow> Some a)"
  by (induction as) auto

lemma pages_needed_bounds:
  shows "sz \<le> pages_needed sz * PAGE_SIZE" and "(pages_needed sz - 1) * PAGE_SIZE < sz"
    and "0 < pages_needed sz \<longleftrightarrow> 0 < sz"
proof -
  define q where "q = pages_needed sz"
  define r where "r = (sz + 4095) mod 4096"
  have "q * 4096 + r = sz + 4095"
    using div_mult_mod_eq [of "sz + 4095" 4096]
    by (simp add: q_def r_def pages_needed_def PAGE_SIZE_def add.commute)
  moreover have "0 \<le> r" "r < 4096" by (simp_all add: r_def)
  ultimately have "sz \<le> q * 4096" "q * 4096 < sz + 4096" by linarith+
  then show "sz \<le> pages_needed sz * PAGE_SIZE" "(pages_needed sz - 1) * PAGE_SIZE < sz"
    "0 < pages_needed sz \<longleftrightarrow> 0 < sz"
    unfolding q_def [symmetric] PAGE_SIZE_def by (auto simp: left_diff_distrib)
qed

definition vmm_wf :: "vmm \<Rightarrow> bool" where
  "vmm_wf v \<longleftrightarrow> pmm_wf (vmm_pmm v) \<and> dict_ok (address_spaces v)
     \<and> (\<forall>pid s. map_of (address_spaces v) pid = Some s \<longrightarrow> as_pid s = pid)"

declare vmm_wf_def [wf_defs]

lemma as_pid_simps [simp]:
  "as_pid (as_map start sz flags name s) = as_pid s"
  "as_pid (snd (as_unmap start s)) = as_pid s"
  "as_pid (default_space pid) = pid"
  by (simp_all add: as_map_def as_unmap_def Let_def default_space_def as_init_def)

lemma vmm_wf_init [intro]: "pmm_wf m \<Longrightarrow> vmm_wf (vmm_init m)"
  by (simp add: vmm_wf_def vmm_init_def)

lemma vmm_wf_create [intro]: "vmm_wf v \<Longrightarrow> vmm_wf (create_address_space pid v)"
  by (auto simp: vmm_wf_def create_address_space_def split: if_splits)

lemma vmm_wf_destroy [intro]: "vmm_wf v \<Longrightarrow> vmm_wf (destroy_address_space pid v)"
  by (auto simp: vmm_wf_def destroy_address_space_def split: if_splits)

lemma vmm_wf_map [intro]: "vmm_wf v \<Longrightarrow> vmm_wf (snd (map_pages pid vaddr sz flags name v))"
  using alloc_pages_wf [of "vmm_pmm v" "pages_needed sz" pid]
  by (auto simp: vmm_wf_def map_pages_def Let_def split: option.splits prod.splits if_splits)

lemma vmm_wf_unmap [intro]: "vmm_wf v \<Longrightarrow> vmm_wf (snd (unmap_pages pid vaddr v))"
  by (auto simp: vmm_wf_def unmap_pages_def Let_def split: option.splits prod.splits if_splits)
    (metis as_pid_simps(2) snd_conv)

text \<open>What mapping does, from the contract of the page source.\<close>

lemma map_pages_fails:
  assumes "vmm_wf v"
    and "map_of (address_spaces v) pid = None \<or> sz \<le> 0 \<or> free_pages (vmm_pmm v) < pages_needed sz"
  shows "map_pages pid vaddr sz flags name v = (False, v)"
proof (cases "map_of (address_spaces v) pid")
  case (Some s)
  have ok: "pmm_wf (vmm_pmm v)" using assms(1) by (simp add: vmm_wf_def)
  have "fst (alloc_pages (pages_needed sz) pid (vmm_pmm v)) = []"
    using assms(2) Some pages_needed_bounds(3) [of sz] ps.succeeds_iff [OF ok, of "pages_needed sz" pid]
    by auto
  moreover from ps.failure_unchanged [OF ok this]
  have "snd (alloc_pages (pages_needed sz) pid (vmm_pmm v)) = vmm_pmm v" .
  ultimately show ?thesis
    using Some by (cases "alloc_pages (pages_needed sz) pid (vmm_pmm v)") (simp add: map_pages_def)
qed (simp add: map_pages_def)

lemma map_pages_succeeds:
  assumes "vmm_wf v" and "map_of (address_spaces v) pid = Some s"
    and "0 < sz" and "pages_needed sz \<le> free_pages (vmm_pmm v)"
  shows "map_pages pid vaddr sz flags name v
       = (True, v\<lparr>vmm_pmm := snd (alloc_pages (pages_needed sz) pid (vmm_pmm v)),
           address_spaces := AList.update pid (as_map vaddr sz flags name s) (address_spaces v)\<rparr>)"
proof -
  have ok: "pmm_wf (vmm_pmm v)" using assms(1) by (simp add: vmm_wf_def)
  have "fst (alloc_pages (pages_needed sz) pid (vmm_pmm v)) \<noteq> []"
    using assms(3,4) pages_needed_bounds(3) [of sz] ps.succeeds_iff [OF ok, of "pages_needed sz" pid]
    by auto
  then show ?thesis
    using assms(2) by (cases "alloc_pages (pages_needed sz) pid (vmm_pmm v)") (simp add: map_pages_def)
qed

lemma map_pages_other:
  "q \<noteq> pid \<Longrightarrow> map_of (address_spaces (snd (map_pages pid vaddr sz flags name v))) q
     = map_of (address_spaces v) q"
  by (auto simp: map_pages_def Let_def split: option.splits prod.splits)

lemma unmap_pages_other:
  "q \<noteq> pid \<Longrightarrow> map_of (address_spaces (snd (unmap_pages pid vaddr v))) q = map_of (address_spaces v) q"
  by (auto simp: unmap_pages_def Let_def split: option.splits prod.splits)

lemma unmap_pages_pmm [simp]: "vmm_pmm (snd (unmap_pages pid vaddr v)) = vmm_pmm v"
  by (auto simp: unmap_pages_def Let_def split: option.splits prod.splits)

lemma create_pmm [simp]: "vmm_pmm (create_address_space pid v) = vmm_pmm v"
  by (simp add: create_address_space_def)

lemma destroy_pmm [simp]: "vmm_pmm (destroy_address_space pid v) = vmm_pmm v"
  by (simp add: destroy_address_space_def)

section \<open>Operation sequences\<close>

datatype vmm_op =
    VCreate int
  | VDestroy int
  | VMap int int int pyval pyval
  | VUnmap int int

fun vmm_step :: "vmm_op \<Rightarrow> vmm \<Rightarrow> vmm" where
  "vmm_step (VCreate pid) v = create_address_space pid v"
| "vmm_step (VDestroy pid) v = destroy_address_space pid v"
| "vmm_step (VMap pid vaddr sz flags name) v = snd (map_pages pid vaddr sz flags name v)"
| "vmm_step (VUnmap pid vaddr) v = snd (unmap_pages pid vaddr v)"

interpretation vm: machine "vmm_init (pmm_init n)" vmm_step vmm_wf for n
proof unfold_locales
  show "vmm_wf (vmm_init (pmm_init n))" by auto
  show "vmm_wf (vmm_step e v)" if "vmm_wf v" for v e
    using that by (cases e) auto
qed

lemma vmm_step_free_mono:
  assumes "vmm_wf v"
  shows "free_pages (vmm_pmm (vmm_step e v)) \<le> free_pages (vmm_pmm v)"
proof (cases e)
  case (VMap pid vaddr sz flags name)
  have ok: "pmm_wf (vmm_pmm v)" using assms by (simp add: vmm_wf_def)
  then show ?thesis
    using VMap ps.accounting [OF ok, of "pages_needed sz" pid]
    by (auto simp: map_pages_def Let_def split: option.splits prod.splits)
qed simp_all

section \<open>Properties\<close>

text \<open>C6: Mapping is atomic. With a known process, a positive size and enough free frames it
  succeeds: the new area is appended to that process's address space, exactly the frames covering
  the size (rounded up to pages) are taken, and no other address space changes. In every other case
  it returns False and the manager, physical frames included, is unchanged.\<close>
theorem map_pages_atomic:
  assumes "vmm_wf v"
  shows "case map_of (address_spaces v) pid of
      Some s \<Rightarrow>
        (if 0 < sz \<and> pages_needed sz \<le> free_pages (vmm_pmm v)
         then (\<exists>v'. map_pages pid vaddr sz flags name v = (True, v') \<and> vmm_wf v'
                \<and> map_of (address_spaces v') = (map_of (address_spaces v))(pid \<mapsto> as_map vaddr sz flags name s)
                \<and> free_pages (vmm_pmm v') = free_pages (vmm_pmm v) - pages_needed sz)
         else map_pages pid vaddr sz flags name v = (False, v))
    | None \<Rightarrow> map_pages pid vaddr sz flags name v = (False, v)"
proof (cases "map_of (address_spaces v) pid")
  case (Some s)
  have ok: "pmm_wf (vmm_pmm v)" using assms by (simp add: vmm_wf_def)
  show ?thesis
    using Some map_pages_succeeds [OF assms Some, of sz] map_pages_fails [OF assms, of pid sz]
      vmm_wf_map [OF assms, of pid vaddr sz flags name]
      ps.enough [OF ok, of "pages_needed sz" pid] pages_needed_bounds(3) [of sz]
    by (auto simp: not_le)
qed (use map_pages_fails [OF assms] in simp)

theorem map_pages_atomic_witness:
  "map_pages 3 0x500000 0x5000 (VStr ''rw-'') (VStr ''heap'')
     (create_address_space 3 (vmm_init (pmm_init 4)))
   = (False, create_address_space 3 (vmm_init (pmm_init 4)))"
proof -
  let ?v = "create_address_space 3 (vmm_init (pmm_init 4))"
  have "vmm_wf ?v" by auto
  moreover have "map_of (address_spaces ?v) 3 = Some (default_space 3)"
    by (simp add: create_address_space_def vmm_init_def)
  moreover have "free_pages (vmm_pmm ?v) = 4" "pages_needed 0x5000 = 5"
    by code_simp+
  ultimately show ?thesis
    using map_pages_atomic [of ?v 3 "0x500000" "0x5000" "VStr ''rw-''" "VStr ''heap''"] by simp
qed

text \<open>Areas are found first come first served: after a successful mapping every address that an
  older area of the process contains still resolves to that area, every other address of the new
  range resolves to the new area with its flags, and addresses outside the new range resolve as
  before.\<close>
theorem map_then_lookup:
  assumes "vmm_wf v" and "map_of (address_spaces v) pid = Some s"
    and "0 < sz" and "pages_needed sz \<le> free_pages (vmm_pmm v)"
  shows "\<exists>s'. map_of (address_spaces (snd (map_pages pid vaddr sz flags name v))) pid = Some s'
    \<and> as_lookup addr s' =
        (case as_lookup addr s of
           Some a \<Rightarrow> Some a
         | None \<Rightarrow> if vaddr \<le> addr \<and> addr < vaddr + sz
             then Some \<lparr>vma_start = vaddr, vma_end = vaddr + sz, vma_flags = flags, vma_name = name\<rparr>
             else None)"
  using map_pages_succeeds [OF assms]
  by (auto simp: as_lookup_def as_map_def scan_areas_append vma_contains_def split: option.splits)

theorem map_then_lookup_witness:
  "\<exists>s'. map_of (address_spaces (snd (map_pages 3 0x400800 0x1000 (VStr ''rw-'') (VStr ''heap'')
          (create_address_space 3 (vmm_init (pmm_init 4)))))) 3 = Some s'
     \<and> map_option vma_flags (as_lookup 0x400900 s') = Some (VStr ''r-x'')"
proof -
  let ?v = "create_address_space 3 (vmm_init (pmm_init 4))"
  have "vmm_wf ?v" by auto
  moreover have "map_of (address_spaces ?v) 3 = Some (default_space 3)"
    by (simp add: create_address_space_def vmm_init_def)
  moreover have "pages_needed 0x1000 \<le> free_pages (vmm_pmm ?v)"
    by code_simp
  moreover have "map_option vma_flags (as_lookup 0x400900 (default_space 3)) = Some (VStr ''r-x'')"
    by code_simp
  ultimately show ?thesis
    using map_then_lookup [of ?v 3 "default_space 3" "0x1000" "0x400800" "VStr ''rw-''" "VStr ''heap''" "0x400900"]
    by (auto split: option.splits)
qed

text \<open>C30: Frames are never returned: from a well-formed manager no sequence of creating and
  destroying address spaces, mapping and unmapping ever raises the number of free frames, so a
  process whose address space is destroyed keeps owning every frame it mapped.\<close>
theorem frames_never_returned:
  assumes "vmm_wf v"
  shows "free_pages (vmm_pmm (fold vmm_step es v)) \<le> free_pages (vmm_pmm v)
    \<and> vmm_pmm (destroy_address_space pid v) = vmm_pmm v
    \<and> vmm_pmm (snd (unmap_pages pid vaddr v)) = vmm_pmm v"
proof -
  have "free_pages (vmm_pmm (fold vmm_step es v)) \<le> free_pages (vmm_pmm v)"
    using assms
  proof (induction es arbitrary: v)
    case (Cons e es)
    then have "vmm_wf (vmm_step e v)" by (intro vm.inv_step)
    from Cons.IH [OF this] show ?case
      using vmm_step_free_mono [OF Cons.prems, of e] by simp
  qed simp
  then show ?thesis by simp
qed

theorem frames_never_returned_witness:
  "free_pages (vmm_pmm (fold vmm_step
     [VCreate 3, VMap 3 0x500000 0x4000 (VStr ''rw-'') (VStr ''heap''), VUnmap 3 0x500000, VDestroy 3]
     (vmm_init (pmm_init 4)))) \<le> free_pages (vmm_pmm (vmm_init (pmm_init 4)))"
  using frames_never_returned [OF vm.inv_init] by blast

text \<open>The page-fault simulation decides exactly as the access check does: for a process with an
  address space it reports a satisfied fault where the access is permitted, a fault that kills the
  process where it is refused, and raises where the check raises.\<close>
theorem page_fault_agrees_with_check:
  assumes "map_of (address_spaces v) pid = Some s"
  shows "(case simulate_page_fault pid addr wr v of
      Inl e \<Rightarrow> check_access addr wr False s = Inl e
    | Inr (Fault_satisfied p ad n f) \<Rightarrow> check_access addr wr False s = Inr True \<and> p = pid \<and> ad = addr
        \<and> (\<exists>a. as_lookup addr s = Some a \<and> n = vma_name a \<and> f = vma_flags a)
    | Inr (Fault_protection p ad n) \<Rightarrow> check_access addr wr False s = Inr False \<and> wr
    | Inr (Fault_no_vma p ad) \<Rightarrow> check_access addr wr False s = Inr False \<and> as_lookup addr s = None
    | Inr (Fault_no_process p) \<Rightarrow> False)"
  using assms
  by (auto simp: simulate_page_fault_def check_access_def split: option.splits sum.splits bool.splits)

theorem page_fault_agrees_with_check_witness:
  "simulate_page_fault 6 0x400100 True (create_address_space 6 (vmm_init (pmm_init 1)))
     = Inr (Fault_protection 6 0x400100 (VStr ''[text]''))
   \<and> check_access 0x400100 True False (default_space 6) = Inr False"
proof -
  let ?v = "create_address_space 6 (vmm_init (pmm_init 1))"
  have "map_of (address_spaces ?v) 6 = Some (default_space 6)"
    by (simp add: create_address_space_def vmm_init_def)
  moreover have "simulate_page_fault 6 0x400100 True ?v
      = Inr (Fault_protection 6 0x400100 (VStr ''[text]''))"
    by code_simp
  ultimately show ?thesis
    using page_fault_agrees_with_check [of ?v 6 "default_space 6" "0x400100" True] by simp
qed

lemma default_areas:
  "areas (default_space pid) =
     [\<lparr>vma_start = 0x400000, vma_end = 0x401000, vma_flags = VStr ''r-x'', vma_name = VStr ''[text]''\<rparr>,
      \<lparr>vma_start = 0x600000, vma_end = 0x601000, vma_flags = VStr ''rw-'', vma_name = VStr ''[data]''\<rparr>,
      \<lparr>vma_start = 0x7fff00000000, vma_end = 0x7fff00100000, vma_flags = VStr ''rw-'',
        vma_name = VStr ''[stack]''\<rparr>]"
  by (simp add: default_space_def as_map_def as_init_def)

text \<open>A fresh address space is write-xor-execute and lies in user space: no address is both
  writable and executable, every accessible address is below the user ceiling, and the access check
  never raises.\<close>
theorem default_space_write_xor_execute:
  "\<not> (check_access addr True False (default_space pid) = Inr True
       \<and> check_access addr False True (default_space pid) = Inr True)
   \<and> (check_access addr wr ex (default_space pid) = Inr True \<longrightarrow> 0 < addr \<and> addr < USER_MAX)
   \<and> (\<exists>b. check_access addr wr ex (default_space pid) = Inr b)"
  by (auto simp: check_access_def as_lookup_def default_areas vma_contains_def USER_MAX_def)

theorem default_space_write_xor_execute_witness:
  "check_access 0x600010 True False (default_space 5) = Inr True \<and> (0x600010 :: int) < USER_MAX"
proof -
  have "check_access 0x600010 True False (default_space 5) = Inr True" by code_simp
  then show ?thesis using default_space_write_xor_execute [of "0x600010" 5 True False] by simp
qed

end
