(* ===== verification/Vfs_Types.thy ===== *)
theory Vfs_Types
  imports Interfaces
begin

text \<open>
  The data of the filesystem layer (the dataclasses of \<^verbatim>\<open>vfs.py\<close>) and the contract of a filesystem
  driver, the abstract class \<^verbatim>\<open>Filesystem\<close>, as two locales: a store of files that can be read and
  written at an offset, and a directory tree over it in which names can be created and walked.
\<close>

section \<open>Inodes, open files, mount points\<close>

datatype inode_type = FILE | DIR | SYMLINK | BLOCK | CHAR_DEV | FIFO | SOCKET

fun inode_type_value :: "inode_type \<Rightarrow> string" where
  "inode_type_value FILE = ''REG''"
| "inode_type_value DIR = ''DIR''"
| "inode_type_value SYMLINK = ''LNK''"
| "inode_type_value BLOCK = ''BLK''"
| "inode_type_value CHAR_DEV = ''CHR''"
| "inode_type_value FIFO = ''FIFO''"
| "inode_type_value SOCKET = ''SOCK''"

record inode =
  i_ino :: int
  i_itype :: inode_type
  i_mode :: int
  i_uid :: int
  i_gid :: int
  i_size :: int
  i_nlink :: int
  i_data :: bytes
  i_children :: "(string, int) dict"
  i_link_target :: string
  i_major :: int
  i_minor :: int

definition new_inode :: "int \<Rightarrow> inode_type \<Rightarrow> int \<Rightarrow> inode" where
  "new_inode ino itype mode = \<lparr>i_ino = ino, i_itype = itype, i_mode = mode, i_uid = 0, i_gid = 0,
     i_size = 0, i_nlink = 1, i_data = [], i_children = [], i_link_target = [], i_major = 0, i_minor = 0\<rparr>"

record open_file =
  of_fd :: int
  of_path :: string
  of_ino :: int
  of_flags :: string
  of_position :: int
  of_fs_name :: string

record mount_point =
  mp_path :: string
  mp_fs :: nat
  mp_source :: string

type_synonym inodes = "(int, inode) dict"

text \<open>\<^verbatim>\<open>parent.children[name] = ino\<close> after \<^verbatim>\<open>self._inodes[ino] = child\<close>: when the new inode took the
  parent's own number, the parent is no longer in the table and the entry is lost with it.\<close>

definition link_child :: "int \<Rightarrow> string \<Rightarrow> int \<Rightarrow> inodes \<Rightarrow> inodes" where
  "link_child parent name ino inodes =
     (if parent = ino then inodes
      else dict_modify parent (\<lambda>p. p\<lparr>i_children := AList.update name ino (i_children p)\<rparr>) inodes)"

text \<open>The content of a file after a write: zero padding up to the offset, then the splice.\<close>

definition splice :: "int \<Rightarrow> bytes \<Rightarrow> bytes \<Rightarrow> bytes" where
  "splice offset new old =
     (let old = (if offset > int (length old) then old @ replicate (nat (offset - int (length old))) 0 else old)
      in slice_to old offset @ new @ slice_from old (offset + int (length new)))"

lemma length_splice:
  "0 \<le> offset \<Longrightarrow> int (length (splice offset new old)) = max (int (length old)) (offset + int (length new))"
  by (auto simp: splice_def Let_def slice_to_nonneg slice_from_nonneg max_def nat_add_distrib)

lemma splice_read:
  assumes "0 \<le> offset"
  shows "py_slice (splice offset new old) offset (offset + int (length new)) = new"
  using assms
  by (auto simp: splice_def Let_def slice_to_nonneg slice_from_nonneg py_slice_nonneg min_def)

lemma splice_before:
  assumes "0 \<le> offset" "n \<le> offset" "n \<le> int (length old)"
  shows "take (nat n) (splice offset new old) = take (nat n) old"
  using assms by (auto simp: splice_def Let_def slice_to_nonneg slice_from_nonneg min_def)

lemma splice_after:
  assumes "0 \<le> offset"
  shows "drop (nat (offset + int (length new))) (splice offset new old) = drop (nat (offset + int (length new))) old"
  using assms by (auto simp: splice_def Let_def slice_to_nonneg slice_from_nonneg nat_add_distrib)

lemma splice_append: "splice (int (length old)) new old = old @ new"
  by (simp add: splice_def slice_to_nonneg slice_from_nonneg)

lemma splice_empty: "splice 0 new [] = new"
  using splice_append [of "[]" new] by simp

text \<open>The walk over the components of a path: \<^verbatim>\<open>-2\<close> when one is missing.\<close>

fun walk :: "(int \<Rightarrow> string \<Rightarrow> 'f \<Rightarrow> inode option) \<Rightarrow> int \<Rightarrow> string list \<Rightarrow> 'f \<Rightarrow> int" where
  "walk lookup_name ino [] f = ino"
| "walk lookup_name ino (p # ps) f =
     (case lookup_name ino p f of None \<Rightarrow> - 2 | Some c \<Rightarrow> walk lookup_name (i_ino c) ps f)"

section \<open>The contract of a filesystem driver\<close>

locale file_store =
  fixes flookup :: "int \<Rightarrow> 'f \<Rightarrow> inode option"
    and fread :: "int \<Rightarrow> int \<Rightarrow> int \<Rightarrow> 'f \<Rightarrow> bytes"
    and fwrite :: "int \<Rightarrow> int \<Rightarrow> bytes \<Rightarrow> 'f \<Rightarrow> int \<times> 'f"
  assumes read_file: "flookup ino f = Some i \<Longrightarrow> i_itype i = FILE \<Longrightarrow>
      fread ino off n f = py_slice (i_data i) off (off + n)"
    and read_other: "flookup ino f = None \<or> (\<exists>i. flookup ino f = Some i \<and> i_itype i \<noteq> FILE) \<Longrightarrow> fread ino off n f = []"
    and write_file: "flookup ino f = Some i \<Longrightarrow> i_itype i = FILE \<Longrightarrow>
      fst (fwrite ino off data f) = int (length data)
      \<and> flookup ino (snd (fwrite ino off data f))
        = Some (i\<lparr>i_data := splice off data (i_data i), i_size := int (length (splice off data (i_data i)))\<rparr>)"
    and write_frame: "j \<noteq> ino \<Longrightarrow> flookup j (snd (fwrite ino off data f)) = flookup j f"
    and write_refused: "flookup ino f = None \<or> (\<exists>i. flookup ino f = Some i \<and> i_itype i \<noteq> FILE) \<Longrightarrow>
      fst (fwrite ino off data f) < 0 \<and> snd (fwrite ino off data f) = f"
begin

lemma read_back:
  assumes "flookup ino f = Some i" "i_itype i = FILE" "0 \<le> off"
  shows "fread ino off (int (length data)) (snd (fwrite ino off data f)) = data"
proof -
  note w = write_file [OF assms(1,2), of off data]
  show ?thesis using read_file [OF conjunct2 [OF w]] assms by (simp add: splice_read)
qed

lemma read_frame: "j \<noteq> ino \<Longrightarrow> fread j off n (snd (fwrite ino o' data f)) = fread j off n f"
  by (metis option.exhaust read_file read_other write_frame)

lemma read_short: "0 \<le> off \<Longrightarrow> 0 \<le> n \<Longrightarrow> int (length (fread ino off n f)) \<le> n"
  using read_file [of ino f _ off n] read_other [of ino f off n]
  by (cases "flookup ino f"; cases "i_itype (the (flookup ino f)) = FILE")
    (auto simp: py_slice_nonneg)

text \<open>Two consecutive writes are one fwrite of the concatenation.\<close>

lemma write_consecutive:
  fixes xs ys :: bytes
  assumes "flookup ino f = Some i" "i_itype i = FILE" "0 \<le> off"
  defines "f1 \<equiv> snd (fwrite ino off xs f)"
  shows "fread ino off (int (length xs) + int (length ys)) (snd (fwrite ino (off + int (length xs)) ys f1)) = xs @ ys"
proof -
  define old where "old = i_data i"
  define d1 where "d1 = splice off xs old"
  define d2 where "d2 = splice (off + int (length xs)) ys d1"
  note w1 = write_file [OF assms(1,2), of off xs, folded f1_def old_def, folded d1_def]
  have "i_itype (i\<lparr>i_data := d1, i_size := int (length d1)\<rparr>) = FILE" using assms(2) by simp
  note w2 = write_file [OF conjunct2 [OF w1] this, of "off + int (length xs)" ys]
  have l1: "off + int (length xs) \<le> int (length d1)"
    using length_splice [OF assms(3), of xs old] by (simp add: d1_def)
  have "py_slice d2 off (off + int (length xs)) = py_slice d1 off (off + int (length xs))"
    unfolding d2_def using assms(3) l1 by (intro py_slice_take_cong splice_before) auto
  moreover have "py_slice d1 off (off + int (length xs)) = xs"
    unfolding d1_def by (rule splice_read [OF assms(3)])
  moreover have "py_slice d2 (off + int (length xs)) (off + int (length xs) + int (length ys)) = ys"
    unfolding d2_def using assms(3) by (intro splice_read) auto
  ultimately have "py_slice d2 off (off + (int (length xs) + int (length ys))) = xs @ ys"
    using assms(3) by (simp add: py_slice_split)
  moreover have "flookup ino (snd (fwrite ino (off + int (length xs)) ys f1))
      = Some (i\<lparr>i_data := d2, i_size := int (length d2)\<rparr>)"
    using w2 by (simp add: d2_def)
  ultimately show ?thesis using read_file assms(2) by simp
qed

end

text \<open>A driver whose directories can be extended: what creating a name does to every lookup.\<close>

locale directory_tree = file_store flookup fread fwrite
  for flookup :: "int \<Rightarrow> 'f \<Rightarrow> inode option"
    and fread :: "int \<Rightarrow> int \<Rightarrow> int \<Rightarrow> 'f \<Rightarrow> bytes"
    and fwrite :: "int \<Rightarrow> int \<Rightarrow> bytes \<Rightarrow> 'f \<Rightarrow> int \<times> 'f" +
  fixes root :: "'f \<Rightarrow> int"
    and flookup_name :: "int \<Rightarrow> string \<Rightarrow> 'f \<Rightarrow> inode option"
    and fcreate :: "int \<Rightarrow> string \<Rightarrow> inode_type \<Rightarrow> 'f \<Rightarrow> inode result \<times> 'f"
    and inv :: "'f \<Rightarrow> bool"
  assumes root_dir: "inv f \<Longrightarrow> \<exists>r. flookup (root f) f = Some r \<and> i_itype r = DIR"
    and root_create: "root (snd (fcreate p n ty f)) = root f"
    and root_write: "root (snd (fwrite ino off data f)) = root f"
    and number: "inv f \<Longrightarrow> flookup ino f = Some i \<Longrightarrow> i_ino i = ino \<and> 0 < ino"
    and closed: "inv f \<Longrightarrow> flookup p f = Some P \<Longrightarrow> map_of (i_children P) n = Some c \<Longrightarrow> flookup c f \<noteq> None"
    and lookup_name: "flookup_name p n f = (case flookup p f of None \<Rightarrow> None
      | Some P \<Rightarrow> if i_itype P \<noteq> DIR then None
                  else case map_of (i_children P) n of None \<Rightarrow> None | Some c \<Rightarrow> flookup c f)"
    and create_new: "inv f \<Longrightarrow> flookup p f = Some P \<Longrightarrow> i_itype P = DIR \<Longrightarrow> map_of (i_children P) n = None \<Longrightarrow>
      \<exists>c f'. fcreate p n ty f = (Inr c, f') \<and> inv f' \<and> c = new_inode (i_ino c) ty 420
        \<and> flookup (i_ino c) f = None \<and> flookup (i_ino c) f' = Some c
        \<and> flookup p f' = Some (P\<lparr>i_children := AList.update n (i_ino c) (i_children P)\<rparr>)
        \<and> (\<forall>j. j \<noteq> i_ino c \<longrightarrow> j \<noteq> p \<longrightarrow> flookup j f' = flookup j f)"
    and create_not_dir: "flookup p f = None \<or> (\<exists>P. flookup p f = Some P \<and> i_itype P \<noteq> DIR) \<Longrightarrow>
      fcreate p n ty f = (Inl ValueError, f)"
    and create_exists: "flookup p f = Some P \<Longrightarrow> i_itype P = DIR \<Longrightarrow> map_of (i_children P) n \<noteq> None \<Longrightarrow>
      fcreate p n ty f = (Inl FileExistsError, f)"
    and write_inv: "inv f \<Longrightarrow> inv (snd (fwrite ino off data f))"
begin

lemma create_Inr:
  assumes "inv f" "fcreate p n ty f = (Inr c, f')"
  obtains P where "flookup p f = Some P" "i_itype P = DIR" "map_of (i_children P) n = None" "inv f'"
    "c = new_inode (i_ino c) ty 420" "flookup (i_ino c) f = None" "flookup (i_ino c) f' = Some c"
    "flookup p f' = Some (P\<lparr>i_children := AList.update n (i_ino c) (i_children P)\<rparr>)"
    "\<And>j. j \<noteq> i_ino c \<Longrightarrow> j \<noteq> p \<Longrightarrow> flookup j f' = flookup j f"
proof -
  obtain P where P: "flookup p f = Some P" "i_itype P = DIR"
    using create_not_dir [of p f n ty] assms(2) by (cases "flookup p f") auto
  have n: "map_of (i_children P) n = None"
    using create_exists [OF P, of n ty] assms(2) by (cases "map_of (i_children P) n") auto
  show ?thesis
    using create_new [OF assms(1) P n, of ty] assms(2) that [OF P n] by auto
qed

lemma create_children:
  assumes "inv f" "fcreate p n ty f = (Inr c, f')"
  shows "flookup_name p n f' = Some c" "flookup_name p n f = None"
    "(q, m) \<noteq> (p, n) \<Longrightarrow> map_option i_ino (flookup_name q m f') = map_option i_ino (flookup_name q m f)"
proof -
  obtain P where P: "flookup p f = Some P" "i_itype P = DIR" "map_of (i_children P) n = None" and inv': "inv f'"
    and c: "c = new_inode (i_ino c) ty 420" "flookup (i_ino c) f = None" "flookup (i_ino c) f' = Some c"
    and p': "flookup p f' = Some (P\<lparr>i_children := AList.update n (i_ino c) (i_children P)\<rparr>)"
    and frame: "\<And>j. j \<noteq> i_ino c \<Longrightarrow> j \<noteq> p \<Longrightarrow> flookup j f' = flookup j f"
    by (rule create_Inr [OF assms]) (rule that; assumption)
  show "flookup_name p n f' = Some c" "flookup_name p n f = None"
    using P c p' by (auto simp: lookup_name)
  have ino: "map_option i_ino (flookup j f') = map_option i_ino (flookup j f)" if "j \<noteq> i_ino c" for j
    using frame [OF that] P p' by (cases "j = p") auto
  show "map_option i_ino (flookup_name q m f') = map_option i_ino (flookup_name q m f)" if qm: "(q, m) \<noteq> (p, n)"
  proof (cases "q = i_ino c")
    case True
    have "i_children c = []" by (subst c(1)) (simp add: new_inode_def)
    then show ?thesis using True c by (simp add: lookup_name)
  next
    case False
    have live: "d \<noteq> i_ino c" if "flookup r f = Some R" "map_of (i_children R) x = Some d" for r R x d
      using closed [OF assms(1) that] c(2) by auto
    show ?thesis
    proof (cases "q = p")
      case True
      with qm P p' ino live [OF P(1)] show ?thesis
        by (auto simp: lookup_name split: option.splits)
    next
      case False
      with \<open>q \<noteq> i_ino c\<close> frame ino live show ?thesis
        by (auto simp: lookup_name split: option.splits)
    qed
  qed
qed

lemma walk_create_keep:
  assumes "inv f" "fcreate p n ty f = (Inr c, f')" "0 \<le> walk flookup_name cur ps f"
  shows "walk flookup_name cur ps f' = walk flookup_name cur ps f"
  using assms(3)
proof (induction ps arbitrary: cur)
  case (Cons m ps)
  then obtain d where d: "flookup_name cur m f = Some d" "0 \<le> walk flookup_name (i_ino d) ps f"
    by (auto split: option.splits)
  then have "(cur, m) \<noteq> (p, n)" using create_children(2) [OF assms(1,2)] by auto
  from create_children(3) [OF assms(1,2) this] d(1)
  obtain d' where "flookup_name cur m f' = Some d'" "i_ino d' = i_ino d" by auto
  with d Cons.IH [OF d(2)] show ?case by simp
qed simp

lemma walk_append:
  "0 \<le> walk flookup_name cur ps f \<Longrightarrow>
   walk flookup_name cur (ps @ qs) f = walk flookup_name (walk flookup_name cur ps f) qs f"
  by (induction ps arbitrary: cur) (auto split: option.splits)

lemma walk_create_new:
  assumes "inv f" "fcreate p n ty f = (Inr c, f')" "walk flookup_name cur ps f = p"
  shows "walk flookup_name cur (ps @ [n]) f' = i_ino c"
proof -
  obtain P where "flookup p f = Some P" using create_Inr [OF assms(1,2)] by blast
  then have "0 \<le> walk flookup_name cur ps f" using number [OF assms(1)] assms(3) by fastforce
  with walk_create_keep [OF assms(1,2) this] assms(3) create_children(1) [OF assms(1,2)]
  show ?thesis by (simp add: walk_append)
qed

lemma lookup_name_write:
  "map_option i_ino (flookup_name q m (snd (fwrite ino off data f))) = map_option i_ino (flookup_name q m f)"
proof (cases "\<exists>i. flookup ino f = Some i \<and> i_itype i = FILE")
  case True
  then obtain i where i: "flookup ino f = Some i" "i_itype i = FILE" by blast
  have "map_option i_ino (flookup j (snd (fwrite ino off data f))) = map_option i_ino (flookup j f)" for j
    using write_file [OF i, of off data] write_frame [of j ino off data f] i by (cases "j = ino") auto
  then show ?thesis
    using write_file [OF i, of off data] write_frame [of q ino off data f] i
    by (cases "q = ino") (auto simp: lookup_name split: option.splits)
next
  case False
  then have "snd (fwrite ino off data f) = f" using write_refused [of ino f off data] by (cases "flookup ino f") auto
  then show ?thesis by simp
qed

lemma walk_write: "walk flookup_name cur ps (snd (fwrite ino off data f)) = walk flookup_name cur ps f"
proof (induction ps arbitrary: cur)
  case (Cons m ps)
  show ?case
    using lookup_name_write [of cur m ino off data f] Cons.IH
    by (auto split: option.splits)
qed simp

end

end
