(* ===== verification/Inode_Tables.thy ===== *)
theory Inode_Tables
  imports Vfs_Types
begin

text \<open>
  The invariant both drivers keep of their inode table, a dictionary from numbers to inodes: it is a
  tree under the root directory, in which every child has a larger number than its directory.
\<close>

definition inode_ok :: "(int \<rightharpoonup> inode) \<Rightarrow> int \<Rightarrow> int \<Rightarrow> inode \<Rightarrow> bool" where
  "inode_ok m nxt k i \<longleftrightarrow> i_ino i = k \<and> 0 < k \<and> k < nxt \<and> i_size i = int (length (i_data i))
     \<and> dict_ok (i_children i) \<and> (i_itype i \<noteq> DIR \<longrightarrow> i_children i = []) \<and> (\<forall>n c. map_of (i_children i) n = Some c \<longrightarrow> m c \<noteq> None \<and> k < c)"

definition one_parent :: "(int \<rightharpoonup> inode) \<Rightarrow> bool" where
  "one_parent m \<longleftrightarrow> (\<forall>p P q Q n l c. m p = Some P \<longrightarrow> m q = Some Q \<longrightarrow>
     map_of (i_children P) n = Some c \<longrightarrow> map_of (i_children Q) l = Some c \<longrightarrow> p = q \<and> n = l)"

text \<open>Every inode but the root is entered in a directory.\<close>

definition entered :: "int \<Rightarrow> (int \<rightharpoonup> inode) \<Rightarrow> bool" where
  "entered root m \<longleftrightarrow> (\<forall>k. m k \<noteq> None \<longrightarrow> k \<noteq> root \<longrightarrow> (\<exists>p P n. m p = Some P \<and> map_of (i_children P) n = Some k))"

definition tree_inv :: "int \<Rightarrow> int \<Rightarrow> inodes \<Rightarrow> bool" where
  "tree_inv root nxt tab \<longleftrightarrow> dict_ok tab
     \<and> (\<forall>k i. map_of tab k = Some i \<longrightarrow> inode_ok (map_of tab) nxt k i)
     \<and> (\<exists>r. map_of tab root = Some r \<and> i_itype r = DIR) \<and> one_parent (map_of tab) \<and> entered root (map_of tab)"

declare tree_inv_def [wf_defs] inode_ok_def [wf_defs] one_parent_def [wf_defs] entered_def [wf_defs]

lemma tree_root [intro]: "0 < root \<Longrightarrow> tree_inv root (root + 1) [(root, new_inode root DIR mode)]"
  by (auto simp: wf_defs new_inode_def split: if_splits)

lemma tree_inode: "tree_inv root nxt tab \<Longrightarrow> map_of tab k = Some i \<Longrightarrow> inode_ok (map_of tab) nxt k i"
  by (simp add: tree_inv_def)

lemma tree_fresh: "tree_inv root nxt tab \<Longrightarrow> map_of tab nxt = None"
  unfolding tree_inv_def inode_ok_def by (metis less_irrefl not_None_eq)

text \<open>Storing a new inode and entering it in a directory.\<close>

definition add_inode :: "int \<Rightarrow> string \<Rightarrow> inode \<Rightarrow> inodes \<Rightarrow> inodes" where
  "add_inode p n C tab = link_child p n (i_ino C) (AList.update (i_ino C) C tab)"

lemma add_inode_table:
  assumes "tree_inv root nxt tab" "map_of tab p = Some P" "i_ino C = nxt"
  shows "map_of (add_inode p n C tab)
      = (map_of tab)(nxt \<mapsto> C, p \<mapsto> P\<lparr>i_children := AList.update n nxt (i_children P)\<rparr>)" "p < nxt"
proof -
  show "p < nxt" using tree_inode [OF assms(1,2)] by (simp add: inode_ok_def)
  then show "map_of (add_inode p n C tab)
      = (map_of tab)(nxt \<mapsto> C, p \<mapsto> P\<lparr>i_children := AList.update n nxt (i_children P)\<rparr>)"
    using assms(2,3) by (simp add: add_inode_def link_child_def)
qed

lemma tree_add:
  assumes inv: "tree_inv root nxt tab" and P: "map_of tab p = Some P" "i_itype P = DIR" "map_of (i_children P) n = None"
    and C: "i_ino C = nxt" "i_children C = []" "i_size C = int (length (i_data C))"
  shows "tree_inv root (nxt + 1) (add_inode p n C tab)"
proof -
  let ?m = "map_of tab" and ?m' = "map_of (add_inode p n C tab)"
  note t' = add_inode_table(1) [OF inv P(1) C(1), of n]
  note ok = tree_inode [OF inv]
  note fresh = tree_fresh [OF inv]
  have pc: "p < nxt" "p \<noteq> nxt" "0 < p" using ok [OF P(1)] by (simp_all add: inode_ok_def)
  have live: "?m' k \<noteq> None" if "?m k \<noteq> None" for k using that by (simp add: t')
  have okP: "inode_ok ?m' (nxt + 1) p (P\<lparr>i_children := AList.update n nxt (i_children P)\<rparr>)"
    using ok [OF P(1)] P(2) live pc by (auto simp: inode_ok_def t')
  have okC: "inode_ok ?m' (nxt + 1) nxt C" using C pc by (simp add: inode_ok_def)
  have "inode_ok ?m' (nxt + 1) k i" if "?m' k = Some i" for k i
  proof (cases "k = p \<or> k = nxt")
    case True
    with okP okC that pc show ?thesis by (auto simp: t')
  next
    case False
    with that have "?m k = Some i" by (simp add: t')
    with ok [OF this] live show ?thesis by (auto simp: inode_ok_def)
  qed
  moreover have "\<exists>r. ?m' root = Some r \<and> i_itype r = DIR"
  proof -
    obtain r where r: "?m root = Some r" "i_itype r = DIR" using inv by (auto simp: tree_inv_def)
    with fresh P pc show ?thesis unfolding t' by (cases "p = root") auto
  qed
  moreover have "one_parent ?m'"
  proof -
    have nc: "map_of (i_children Q) l \<noteq> Some nxt" if "?m q = Some Q" for q Q l
      using ok [OF that, unfolded inode_ok_def] fresh by blast
    have one: "one_parent ?m" using inv by (simp add: tree_inv_def)
    show ?thesis
      unfolding one_parent_def t'
      using one [unfolded one_parent_def] nc P C pc
      by (simp split: if_splits) (metis option.inject)
  qed
  moreover have "entered root ?m'"
    unfolding entered_def
  proof (intro allI impI)
    fix k assume k: "?m' k \<noteq> None" "k \<noteq> root"
    show "\<exists>q Q l. ?m' q = Some Q \<and> map_of (i_children Q) l = Some k"
    proof (cases "k = nxt")
      case True
      then show ?thesis by (intro exI [of _ p] exI [of _ "P\<lparr>i_children := AList.update n nxt (i_children P)\<rparr>"] exI [of _ n]) (simp add: t')
    next
      case False
      with k have "?m k \<noteq> None" using P(1) by (auto simp: t' split: if_splits)
      with k(2) obtain q Q l where q: "?m q = Some Q" "map_of (i_children Q) l = Some k"
        using inv unfolding tree_inv_def entered_def by blast
      have "q \<noteq> nxt" using q(1) fresh by auto
      show ?thesis
      proof (cases "q = p")
        case True
        then have "Q = P" "l \<noteq> n" using q P by auto
        with q True show ?thesis by (intro exI [of _ p] exI [of _ "P\<lparr>i_children := AList.update n nxt (i_children P)\<rparr>"] exI [of _ l]) (simp add: t')
      next
        case False
        with q \<open>q \<noteq> nxt\<close> show ?thesis by (intro exI [of _ q] exI [of _ Q] exI [of _ l]) (simp add: t')
      qed
    qed
  qed
  moreover have "dict_ok (add_inode p n C tab)"
    using inv by (simp add: add_inode_def link_child_def tree_inv_def)
  ultimately show ?thesis by (simp add: tree_inv_def)
qed

text \<open>Changing an inode in place, its number, type and children left alone.\<close>

definition keeps_node :: "(inode \<Rightarrow> inode) \<Rightarrow> bool" where
  "keeps_node f \<longleftrightarrow> (\<forall>i. i_ino (f i) = i_ino i \<and> i_itype (f i) = i_itype i \<and> i_children (f i) = i_children i
     \<and> (i_size i = int (length (i_data i)) \<longrightarrow> i_size (f i) = int (length (i_data (f i)))))"

lemma tree_modify:
  assumes inv: "tree_inv root nxt tab" and f: "keeps_node f"
  shows "tree_inv root nxt (dict_modify k f tab)"
proof -
  let ?m = "map_of tab" and ?m' = "map_of (dict_modify k f tab)"
  have f: "i_ino (f i) = i_ino i" "i_itype (f i) = i_itype i" "i_children (f i) = i_children i"
    "i_size i = int (length (i_data i)) \<Longrightarrow> i_size (f i) = int (length (i_data (f i)))" for i
    using f by (auto simp: keeps_node_def)
  have m: "?m' j = (if j = k then map_option f (?m j) else ?m j)" for j by simp
  have "inode_ok ?m' nxt j i" if "?m' j = Some i" for j i
  proof -
    obtain i0 where i0: "?m j = Some i0" and i: "i = i0 \<or> i = f i0"
      using \<open>?m' j = Some i\<close> unfolding m by (auto split: if_splits)
    have live: "?m' c \<noteq> None \<longleftrightarrow> ?m c \<noteq> None" for c unfolding m by simp
    have "inode_ok ?m nxt j i0" by (rule tree_inode [OF inv i0])
    with i f show ?thesis unfolding inode_ok_def live by auto
  qed
  moreover have "\<exists>r. ?m' root = Some r \<and> i_itype r = DIR"
    using inv f unfolding tree_inv_def m by auto
  moreover have "one_parent ?m'"
  proof -
    have ch: "\<exists>i0. ?m j = Some i0 \<and> i_children i = i_children i0" if "?m' j = Some i" for j i
      using that f unfolding m by (auto split: if_splits)
    have "one_parent ?m" using inv by (simp add: tree_inv_def)
    with ch show ?thesis unfolding one_parent_def by metis
  qed
  moreover have "entered root ?m'"
  proof -
    have "\<exists>Q'. ?m' q = Some Q' \<and> i_children Q' = i_children Q" if "?m q = Some Q" for q Q
      using that f(3) unfolding m by auto
    moreover have "?m' j \<noteq> None \<longleftrightarrow> ?m j \<noteq> None" for j unfolding m by simp
    moreover have "entered root ?m" using inv by (simp add: tree_inv_def)
    ultimately show ?thesis unfolding entered_def by metis
  qed
  ultimately show ?thesis using inv by (simp add: tree_inv_def)
qed

lemma keeps_node_fields:
  "keeps_node (\<lambda>i. i\<lparr>i_link_target := tgt\<rparr>)" "keeps_node (\<lambda>i. i\<lparr>i_major := a, i_minor := b\<rparr>)"
  by (simp_all add: keeps_node_def)

text \<open>A write, as a change of the inode in place.\<close>

definition written :: "int \<Rightarrow> bytes \<Rightarrow> inode \<Rightarrow> inode" where
  "written off data i = i\<lparr>i_data := splice off data (i_data i), i_size := int (length (splice off data (i_data i)))\<rparr>"

lemma keeps_written: "keeps_node (written off data)"
  by (simp add: keeps_node_def written_def)

end
