(* ===== verification/Tmpfs.thy ===== *)
theory Tmpfs
  imports Inode_Tables
begin

text \<open>
  \<^verbatim>\<open>fs_tmpfs.py\<close>: the in-memory filesystem the boot sequence mounts as root. Its inode table forms a
  tree rooted at inode 1, every child having a larger number than its directory, and it meets the
  driver contracts \<^verbatim>\<open>file_store\<close> and \<^verbatim>\<open>directory_tree\<close>.
\<close>

section \<open>State and operations\<close>

record tmpfs =
  tm_inodes :: inodes
  tm_next_ino :: int

definition tm_new_inode :: "inode_type \<Rightarrow> int \<Rightarrow> tmpfs \<Rightarrow> inode \<times> tmpfs" where
  "tm_new_inode itype mode t =
     (let ino = tm_next_ino t; i = new_inode ino itype mode
      in (i, t\<lparr>tm_next_ino := tm_next_ino t + 1, tm_inodes := AList.update ino i (tm_inodes t)\<rparr>))"

definition tm_init :: tmpfs where
  "tm_init =
     (let (root, t) = tm_new_inode DIR 493 \<lparr>tm_inodes = [], tm_next_ino = 1\<rparr>
      in t\<lparr>tm_inodes := dict_modify (i_ino root) (\<lambda>r. r\<lparr>i_uid := 0, i_gid := 0\<rparr>) (tm_inodes t)\<rparr>)"

definition tm_root_ino :: int where "tm_root_ino = 1"

definition tm_lookup :: "int \<Rightarrow> tmpfs \<Rightarrow> inode option" where
  "tm_lookup ino t = map_of (tm_inodes t) ino"

definition tm_lookup_name :: "int \<Rightarrow> string \<Rightarrow> tmpfs \<Rightarrow> inode option" where
  "tm_lookup_name parent_ino name t =
     (case map_of (tm_inodes t) parent_ino of
        None \<Rightarrow> None
      | Some parent \<Rightarrow>
          if i_itype parent \<noteq> DIR then None
          else (case map_of (i_children parent) name of
                  None \<Rightarrow> None
                | Some child_ino \<Rightarrow> map_of (tm_inodes t) child_ino))"

definition tm_create :: "int \<Rightarrow> string \<Rightarrow> inode_type \<Rightarrow> tmpfs \<Rightarrow> inode result \<times> tmpfs" where
  "tm_create parent_ino name itype t =
     (case map_of (tm_inodes t) parent_ino of
        None \<Rightarrow> (Inl ValueError, t)
      | Some parent \<Rightarrow>
          if i_itype parent \<noteq> DIR then (Inl ValueError, t)
          else if map_of (i_children parent) name \<noteq> None then (Inl FileExistsError, t)
          else (let (child, t1) = tm_new_inode itype 420 t
                in (Inr child, t1\<lparr>tm_inodes := link_child parent_ino name (i_ino child) (tm_inodes t1)\<rparr>)))"

definition tm_read :: "int \<Rightarrow> int \<Rightarrow> int \<Rightarrow> tmpfs \<Rightarrow> bytes" where
  "tm_read ino offset sz t =
     (case map_of (tm_inodes t) ino of
        None \<Rightarrow> []
      | Some i \<Rightarrow> if i_itype i \<noteq> FILE then [] else py_slice (i_data i) offset (offset + sz))"

definition tm_write :: "int \<Rightarrow> int \<Rightarrow> bytes \<Rightarrow> tmpfs \<Rightarrow> int \<times> tmpfs" where
  "tm_write ino offset data t =
     (case map_of (tm_inodes t) ino of
        None \<Rightarrow> (- 2, t)
      | Some i \<Rightarrow>
          if i_itype i \<noteq> FILE then (- 22, t)
          else (let new = splice offset data (i_data i)
                in (int (length data),
                    t\<lparr>tm_inodes := AList.update ino (i\<lparr>i_data := new, i_size := int (length new)\<rparr>) (tm_inodes t)\<rparr>)))"

definition tm_readdir :: "int \<Rightarrow> tmpfs \<Rightarrow> (string \<times> int) list" where
  "tm_readdir ino t =
     (case map_of (tm_inodes t) ino of
        None \<Rightarrow> []
      | Some i \<Rightarrow> if i_itype i \<noteq> DIR then [] else [(''.'', ino), (''..'', ino)] @ i_children i)"

definition tm_mkdir :: "int \<Rightarrow> string \<Rightarrow> tmpfs \<Rightarrow> inode result \<times> tmpfs" where
  "tm_mkdir parent_ino name t = tm_create parent_ino name DIR t"

text \<open>\<^verbatim>\<open>symlink\<close> and \<^verbatim>\<open>mknod\<close> set fields of the inode that \<^verbatim>\<open>create\<close> returned.\<close>

definition tm_symlink :: "int \<Rightarrow> string \<Rightarrow> string \<Rightarrow> tmpfs \<Rightarrow> inode result \<times> tmpfs" where
  "tm_symlink parent_ino name tgt t =
     (case tm_create parent_ino name SYMLINK t of
        (Inl e, t') \<Rightarrow> (Inl e, t')
      | (Inr sl, t') \<Rightarrow>
          (let sl' = sl\<lparr>i_link_target := tgt\<rparr>
           in (Inr sl', t'\<lparr>tm_inodes := dict_modify (i_ino sl) (\<lambda>i. i\<lparr>i_link_target := tgt\<rparr>) (tm_inodes t')\<rparr>)))"

definition tm_mknod :: "int \<Rightarrow> string \<Rightarrow> int \<Rightarrow> int \<Rightarrow> inode_type \<Rightarrow> tmpfs \<Rightarrow> inode result \<times> tmpfs" where
  "tm_mknod parent_ino name major minor itype t =
     (case tm_create parent_ino name itype t of
        (Inl e, t') \<Rightarrow> (Inl e, t')
      | (Inr dev, t') \<Rightarrow>
          (Inr (dev\<lparr>i_major := major, i_minor := minor\<rparr>),
           t'\<lparr>tm_inodes := dict_modify (i_ino dev) (\<lambda>i. i\<lparr>i_major := major, i_minor := minor\<rparr>) (tm_inodes t')\<rparr>))"

record tmpfs_stats =
  ts_inodes :: int
  ts_files :: int
  ts_dirs :: int
  ts_bytes_used :: int

definition tm_stats :: "tmpfs \<Rightarrow> tmpfs_stats" where
  "tm_stats t = (let is = map snd (tm_inodes t) in
     \<lparr>ts_inodes = int (length (tm_inodes t)),
      ts_files = int (length (filter (\<lambda>i. i_itype i = FILE) is)),
      ts_dirs = int (length (filter (\<lambda>i. i_itype i = DIR) is)),
      ts_bytes_used = int (sum_list (map (\<lambda>i. length (i_data i)) is))\<rparr>)"

section \<open>Invariant\<close>

definition tm_inv :: "tmpfs \<Rightarrow> bool" where
  "tm_inv t \<longleftrightarrow> tree_inv tm_root_ino (tm_next_ino t) (tm_inodes t)"

declare tm_inv_def [wf_defs]

lemma tm_init_eq: "tm_init = \<lparr>tm_inodes = [(1, new_inode 1 DIR 493)], tm_next_ino = 2\<rparr>"
  by (simp add: tm_init_def tm_new_inode_def Let_def dict_modify_def new_inode_def)

lemma tm_inv_init [intro, simp]: "tm_inv tm_init"
  using tree_root [of 1 493] by (simp add: tm_inv_def tm_init_eq tm_root_ino_def)

lemma tm_create_new:
  "map_of (tm_inodes t) p = Some P \<Longrightarrow> i_itype P = DIR \<Longrightarrow> map_of (i_children P) n = None \<Longrightarrow>
   tm_create p n ty t = (let C = new_inode (tm_next_ino t) ty 420
     in (Inr C, t\<lparr>tm_next_ino := tm_next_ino t + 1, tm_inodes := add_inode p n C (tm_inodes t)\<rparr>))"
  by (simp add: tm_create_def tm_new_inode_def add_inode_def Let_def new_inode_def)

lemma tm_write_new:
  "map_of (tm_inodes t) ino = Some i \<Longrightarrow> i_itype i = FILE \<Longrightarrow>
   tm_write ino off data t = (int (length data), t\<lparr>tm_inodes := dict_modify ino (written off data) (tm_inodes t)\<rparr>)"
  by (simp add: tm_write_def dict_modify_def Let_def written_def)

lemma tm_inv_modify: "tm_inv t \<Longrightarrow> keeps_node f \<Longrightarrow> tm_inv (t\<lparr>tm_inodes := dict_modify k f (tm_inodes t)\<rparr>)"
  by (simp add: tm_inv_def tree_modify)

lemma tm_inv_write: "tm_inv t \<Longrightarrow> tm_inv (snd (tm_write ino off data t))"
proof (cases "\<exists>i. map_of (tm_inodes t) ino = Some i \<and> i_itype i = FILE")
  case True
  assume "tm_inv t"
  with True show ?thesis by (auto simp: tm_write_new tm_inv_modify keeps_written)
next
  case False
  assume "tm_inv t"
  with False show ?thesis by (auto simp: tm_write_def split: option.splits)
qed

lemma tm_inv_create:
  assumes "tm_inv t"
  shows "tm_inv (snd (tm_create p n ty t))"
proof (cases "\<exists>P. map_of (tm_inodes t) p = Some P \<and> i_itype P = DIR \<and> map_of (i_children P) n = None")
  case True
  then obtain P where P: "map_of (tm_inodes t) p = Some P" "i_itype P = DIR" "map_of (i_children P) n = None" by blast
  then show ?thesis
    using assms by (simp add: tm_create_new Let_def tm_inv_def tree_add new_inode_def)
next
  case False
  then have "snd (tm_create p n ty t) = t" by (auto simp: tm_create_def split: option.splits)
  with assms show ?thesis by simp
qed

interpretation tm: directory_tree tm_lookup tm_read tm_write "\<lambda>_. tm_root_ino" tm_lookup_name tm_create tm_inv
proof unfold_locales
  fix t ino i off n data
  assume i: "tm_lookup ino t = Some i" "i_itype i = FILE"
  show "tm_read ino off n t = py_slice (i_data i) off (off + n)"
    using i by (simp add: tm_lookup_def tm_read_def)
  show "fst (tm_write ino off data t) = int (length data) \<and> tm_lookup ino (snd (tm_write ino off data t))
      = Some (i\<lparr>i_data := splice off data (i_data i), i_size := int (length (splice off data (i_data i)))\<rparr>)"
    using i by (simp add: tm_lookup_def tm_write_def Let_def)
next
  fix t ino off n data
  assume "tm_lookup ino t = None \<or> (\<exists>i. tm_lookup ino t = Some i \<and> i_itype i \<noteq> FILE)"
  then show "tm_read ino off n t = []" "fst (tm_write ino off data t) < 0 \<and> snd (tm_write ino off data t) = t"
    by (auto simp: tm_lookup_def tm_read_def tm_write_def)
next
  fix j ino :: int and off data t
  assume "j \<noteq> ino"
  then show "tm_lookup j (snd (tm_write ino off data t)) = tm_lookup j t"
    by (auto simp: tm_lookup_def tm_write_def Let_def split: option.splits)
next
  fix t :: tmpfs and p P n c ino i off data ty
  assume inv: "tm_inv t"
  show "\<exists>r. tm_lookup tm_root_ino t = Some r \<and> i_itype r = DIR"
    using inv by (simp add: tm_inv_def tree_inv_def tm_lookup_def)
  show "i_ino i = ino \<and> 0 < ino" if "tm_lookup ino t = Some i"
    using tree_inode [OF inv [unfolded tm_inv_def], of ino i] that by (simp add: tm_lookup_def inode_ok_def)
  show "tm_lookup c t \<noteq> None" if "tm_lookup p t = Some P" "map_of (i_children P) n = Some c"
    using tree_inode [OF inv [unfolded tm_inv_def], of p P] that unfolding tm_lookup_def inode_ok_def by blast
  show "tm_inv (snd (tm_write ino off data t))" by (rule tm_inv_write [OF inv])
  assume P: "tm_lookup p t = Some P" "i_itype P = DIR" "map_of (i_children P) n = None"
  note P = P [unfolded tm_lookup_def]
  let ?C = "new_inode (tm_next_ino t) ty 420"
  have C: "i_ino ?C = tm_next_ino t" by (simp add: new_inode_def)
  note tab = add_inode_table(1) [OF inv [unfolded tm_inv_def] P(1) C, of n] add_inode_table(2) [OF inv [unfolded tm_inv_def] P(1) C]
  have "tm_inv (snd (tm_create p n ty t))" by (rule tm_inv_create [OF inv])
  with tab C tree_fresh [OF inv [unfolded tm_inv_def]]
  show "\<exists>c f'. tm_create p n ty t = (Inr c, f') \<and> tm_inv f' \<and> c = new_inode (i_ino c) ty 420
        \<and> tm_lookup (i_ino c) t = None \<and> tm_lookup (i_ino c) f' = Some c
        \<and> tm_lookup p f' = Some (P\<lparr>i_children := AList.update n (i_ino c) (i_children P)\<rparr>)
        \<and> (\<forall>j. j \<noteq> i_ino c \<longrightarrow> j \<noteq> p \<longrightarrow> tm_lookup j f' = tm_lookup j t)"
    by (simp add: tm_create_new [OF P] Let_def tm_lookup_def)
next
  fix p n t
  show "tm_lookup_name p n t = (case tm_lookup p t of None \<Rightarrow> None
      | Some P \<Rightarrow> if i_itype P \<noteq> DIR then None
                  else case map_of (i_children P) n of None \<Rightarrow> None | Some c \<Rightarrow> tm_lookup c t)"
    by (simp add: tm_lookup_name_def tm_lookup_def split: option.splits)
next
  fix p n t ty
  show "tm_create p n ty t = (Inl ValueError, t)"
    if "tm_lookup p t = None \<or> (\<exists>P. tm_lookup p t = Some P \<and> i_itype P \<noteq> DIR)"
    using that by (auto simp: tm_create_def tm_lookup_def)
  show "tm_create p n ty t = (Inl FileExistsError, t)"
    if "tm_lookup p t = Some P" "i_itype P = DIR" "map_of (i_children P) n \<noteq> None" for P
    using that by (simp add: tm_create_def tm_lookup_def)
qed simp_all

section \<open>Operation sequences\<close>

datatype tm_op =
    TmCreate int string inode_type
  | TmWrite int int bytes
  | TmSymlink int string string
  | TmMknod int string int int inode_type

fun tm_step :: "tm_op \<Rightarrow> tmpfs \<Rightarrow> tmpfs" where
  "tm_step (TmCreate p n ty) t = snd (tm_create p n ty t)"
| "tm_step (TmWrite ino off data) t = snd (tm_write ino off data t)"
| "tm_step (TmSymlink p n tgt) t = snd (tm_symlink p n tgt t)"
| "tm_step (TmMknod p n ma mi ty) t = snd (tm_mknod p n ma mi ty t)"

lemma tm_inv_symlink: "tm_inv t \<Longrightarrow> tm_inv (snd (tm_symlink p n tgt t))"
  using tm_inv_create [of t p n SYMLINK]
  by (auto simp: tm_symlink_def Let_def split: prod.splits sum.splits intro!: tm_inv_modify keeps_node_fields)

lemma tm_inv_mknod: "tm_inv t \<Longrightarrow> tm_inv (snd (tm_mknod p n ma mi ty t))"
  using tm_inv_create [of t p n ty]
  by (auto simp: tm_mknod_def Let_def split: prod.splits sum.splits intro!: tm_inv_modify keeps_node_fields)

interpretation tmm: machine tm_init tm_step tm_inv
proof unfold_locales
  show "tm_inv tm_init" by simp
  show "tm_inv (tm_step e t)" if "tm_inv t" for t e
    using that by (cases e) (simp_all add: tm_inv_create tm_inv_write tm_inv_symlink tm_inv_mknod)
qed

section \<open>Paths in the table\<close>

text \<open>The number of the inode a list of names leads to, by \<^verbatim>\<open>lookup_name\<close> one name at a time.\<close>

fun tm_walk :: "int \<Rightarrow> string list \<Rightarrow> tmpfs \<Rightarrow> int option" where
  "tm_walk p [] t = Some p"
| "tm_walk p (n # ns) t = (case tm_lookup_name p n t of None \<Rightarrow> None | Some C \<Rightarrow> tm_walk (i_ino C) ns t)"

lemma tm_inv_inode:
  assumes "tm_inv t" "tm_lookup k t = Some I"
  shows "i_ino I = k" "0 < k" "i_size I = int (length (i_data I))" "distinct (map fst (i_children I))"
    "i_itype I \<noteq> DIR \<Longrightarrow> i_children I = []" "map_of (i_children I) n = Some c \<Longrightarrow> tm_lookup c t \<noteq> None \<and> k < c"
  using tree_inode [OF assms(1) [unfolded tm_inv_def], of k I] assms(2) by (auto simp: inode_ok_def tm_lookup_def)

lemma tm_edge:
  assumes "tm_inv t"
  shows "tm_lookup_name p n t = Some C \<longleftrightarrow>
    (\<exists>P. tm_lookup p t = Some P \<and> map_of (i_children P) n = Some (i_ino C) \<and> tm_lookup (i_ino C) t = Some C)"
proof
  assume "tm_lookup_name p n t = Some C"
  then obtain P c where P: "tm_lookup p t = Some P" "map_of (i_children P) n = Some c" "tm_lookup c t = Some C"
    by (auto simp: tm_lookup_name_def tm_lookup_def split: option.splits if_splits)
  with tm_inv_inode(1) [OF assms P(3)] show "\<exists>P. tm_lookup p t = Some P \<and> map_of (i_children P) n = Some (i_ino C)
      \<and> tm_lookup (i_ino C) t = Some C" by auto
next
  assume "\<exists>P. tm_lookup p t = Some P \<and> map_of (i_children P) n = Some (i_ino C) \<and> tm_lookup (i_ino C) t = Some C"
  with tm_inv_inode(5) [OF assms] show "tm_lookup_name p n t = Some C"
    by (fastforce simp: tm_lookup_name_def tm_lookup_def)
qed

lemma tm_edge_less: "tm_inv t \<Longrightarrow> tm_lookup_name p n t = Some C \<Longrightarrow> p < i_ino C \<and> tm_lookup (i_ino C) t = Some C"
  using tm_inv_inode(6) by (auto simp: tm_edge)

lemma tm_edge_unique:
  assumes "tm_inv t" "tm_lookup_name p n t = Some C" "tm_lookup_name q m t = Some D" "i_ino C = i_ino D"
  shows "p = q \<and> n = m"
proof -
  have "one_parent (map_of (tm_inodes t))" using assms(1) by (simp add: tm_inv_def tree_inv_def)
  moreover obtain P where "map_of (tm_inodes t) p = Some P" "map_of (i_children P) n = Some (i_ino C)"
    using assms(1,2) by (auto simp: tm_edge tm_lookup_def)
  moreover obtain Q where "map_of (tm_inodes t) q = Some Q" "map_of (i_children Q) m = Some (i_ino C)"
    using assms(1,3,4) by (auto simp: tm_edge tm_lookup_def)
  ultimately show ?thesis unfolding one_parent_def by blast
qed

lemma tm_walk_append:
  "tm_walk p (ns @ ms) t = (case tm_walk p ns t of None \<Rightarrow> None | Some q \<Rightarrow> tm_walk q ms t)"
  by (induction ns arbitrary: p) (simp_all split: option.split)

lemma tm_walk_le: "tm_inv t \<Longrightarrow> tm_walk p ns t = Some q \<Longrightarrow> p \<le> q \<and> (ns \<noteq> [] \<longrightarrow> p < q \<and> tm_lookup q t \<noteq> None)"
proof (induction ns arbitrary: p)
  case (Cons n ns)
  then obtain C where C: "tm_lookup_name p n t = Some C" "tm_walk (i_ino C) ns t = Some q" by (auto split: option.splits)
  with Cons.IH [OF Cons.prems(1) C(2)] tm_edge_less [OF Cons.prems(1) C(1)] show ?case by (cases ns) auto
qed simp

lemma tm_walk_snoc:
  "tm_walk p (ns @ [n]) t = Some k \<longleftrightarrow> (\<exists>q C. tm_walk p ns t = Some q \<and> tm_lookup_name q n t = Some C \<and> i_ino C = k)"
  by (auto simp: tm_walk_append split: option.split)

lemma tm_walk_unique:
  assumes inv: "tm_inv t"
  shows "tm_walk r ns t = Some k \<Longrightarrow> tm_walk r ms t = Some k \<Longrightarrow> ns = ms"
proof (induction ns arbitrary: k ms rule: rev_induct)
  case Nil
  then show ?case using tm_walk_le [OF inv, of r ms k] by auto
next
  case (snoc n ns)
  have "ms \<noteq> []" using snoc.prems tm_walk_le [OF inv snoc.prems(1)] by auto
  then obtain ms' m where ms: "ms = ms' @ [m]" by (cases ms rule: rev_cases) auto
  from snoc.prems obtain q C q' C' where "tm_walk r ns t = Some q" "tm_lookup_name q n t = Some C" "i_ino C = k"
    "tm_walk r ms' t = Some q'" "tm_lookup_name q' m t = Some C'" "i_ino C' = k"
    unfolding ms tm_walk_snoc by blast
  with tm_edge_unique [OF inv, of q n C q' m C'] snoc.IH [of q ms'] show ?case by (simp add: ms)
qed

lemma tm_walk_reaches:
  assumes inv: "tm_inv t"
  shows "tm_lookup k t \<noteq> None \<Longrightarrow> \<exists>ns. tm_walk tm_root_ino ns t = Some k"
proof (induction "nat k" arbitrary: k rule: less_induct)
  case less
  show ?case
  proof (cases "k = tm_root_ino")
    case True
    then show ?thesis by (intro exI [of _ "[]"]) simp
  next
    case False
    obtain I where I: "tm_lookup k t = Some I" using less.prems by blast
    have "entered tm_root_ino (map_of (tm_inodes t))" using inv by (simp add: tm_inv_def tree_inv_def)
    then obtain p P n where P: "tm_lookup p t = Some P" "map_of (i_children P) n = Some k"
      using less.prems False unfolding entered_def tm_lookup_def by blast
    have e: "tm_lookup_name p n t = Some I" "i_ino I = k"
      using P I tm_inv_inode(1) [OF inv I] by (auto simp: tm_edge [OF inv])
    have "p < k" "0 < p" using tm_edge_less [OF inv e(1)] e(2) tm_inv_inode(2) [OF inv P(1)] by auto
    with less.hyps [of p] P(1) obtain ns where "tm_walk tm_root_ino ns t = Some p" by auto
    with e show ?thesis by (intro exI [of _ "ns @ [n]"]) (simp add: tm_walk_snoc)
  qed
qed

section \<open>Properties\<close>

text \<open>C13: In every tmpfs reached from a new one by creating files, directories, links and device nodes and by writing,
  the inodes form a tree under the root directory: each inode of the table is reached from the root by exactly
  one list of names, and whatever a list of names reaches is an inode of the table. Each inode is filed under
  its own number, its size is the length of its data, only directories have entries, and each entry is
  found by its name and leads to an inode with a larger number.\<close>
theorem tmpfs_is_a_tree:
  assumes "reaches tm_step tm_init t" and "tm_lookup k t = Some I"
  shows "(\<exists>!ns. tm_walk tm_root_ino ns t = Some k) \<and> (\<forall>ns c. tm_walk k ns t = Some c \<longrightarrow> tm_lookup c t \<noteq> None)
    \<and> i_ino I = k \<and> i_size I = int (length (i_data I)) \<and> distinct (map fst (i_children I))
    \<and> (i_itype I \<noteq> DIR \<longrightarrow> i_children I = [])
    \<and> (\<forall>n c. map_of (i_children I) n = Some c \<longrightarrow> k < c \<and> (\<exists>C. tm_lookup_name k n t = Some C \<and> i_ino C = c))"
proof -
  have inv: "tm_inv t" by (rule tmm.inv_reachable [OF assms(1)])
  note node = tm_inv_inode [OF inv assms(2)]
  obtain ns where "tm_walk tm_root_ino ns t = Some k" using tm_walk_reaches [OF inv, of k] assms(2) by auto
  then have "\<exists>!ns. tm_walk tm_root_ino ns t = Some k" using tm_walk_unique [OF inv] by blast
  moreover have "tm_lookup c t \<noteq> None" if "tm_walk k ns t = Some c" for ns c
    using tm_walk_le [OF inv that] that assms(2) by (cases ns) auto
  moreover have "k < c \<and> (\<exists>C. tm_lookup_name k n t = Some C \<and> i_ino C = c)" if e: "map_of (i_children I) n = Some c" for n c
  proof -
    obtain C where C: "tm_lookup c t = Some C" using node(6) [OF e] by blast
    with tm_inv_inode(1) [OF inv C] node(6) [OF e] assms(2) e show ?thesis by (auto simp: tm_edge [OF inv])
  qed
  ultimately show ?thesis using node(1,3,4,5) by simp
qed

theorem tmpfs_is_a_tree_witness:
  "\<forall>ns. tm_walk tm_root_ino ns (fold tm_step [TmCreate 1 ''d'' DIR, TmCreate 2 ''f'' FILE, TmWrite 3 1 [7, 8]] tm_init) = Some 3
     \<longleftrightarrow> ns = [''d'', ''f'']"
proof -
  let ?t = "fold tm_step [TmCreate 1 ''d'' DIR, TmCreate 2 ''f'' FILE, TmWrite 3 1 [7, 8]] tm_init"
  have "map_option i_data (tm_lookup 3 ?t) = Some [0, 7, 8]" by code_simp
  then obtain I where I: "tm_lookup 3 ?t = Some I" by (rule map_option_eq_Some [THEN iffD1, THEN exE]) blast
  have "tm_walk tm_root_ino [''d'', ''f''] ?t = Some 3" by code_simp
  with tmpfs_is_a_tree [OF reaches_fold I, THEN conjunct1] show ?thesis by blast
qed

end
