(* ===== verification/Ext2.thy ===== *)
theory Ext2
  imports Inode_Tables
begin

text \<open>
  \<^verbatim>\<open>fs_ext2.py\<close>: the ext2-like volume. It meets the file contract in every state and the directory
  contract in every state whose next inode number is unused; a fresh volume is not such a state,
  because its first creation takes the number of the root directory.
\<close>

section \<open>State and operations\<close>

record ext2_superblock =
  sb_total_inodes :: int
  sb_total_blocks :: int
  sb_free_inodes :: int
  sb_free_blocks :: int
  sb_block_size :: int
  sb_inodes_per_group :: int
  sb_blocks_per_group :: int
  sb_volume_name :: string
  sb_magic :: int

definition default_superblock :: "string \<Rightarrow> ext2_superblock" where
  "default_superblock name = \<lparr>sb_total_inodes = 1024, sb_total_blocks = 8192, sb_free_inodes = 1023,
     sb_free_blocks = 8180, sb_block_size = 4096, sb_inodes_per_group = 128, sb_blocks_per_group = 1024,
     sb_volume_name = name, sb_magic = 0xEF53\<rparr>"

record ext2_block_group =
  bg_group_id :: int
  bg_block_bitmap :: int
  bg_inode_bitmap :: int
  bg_inode_table :: int
  bg_free_blocks :: int
  bg_free_inodes :: int
  bg_used_dirs :: int

definition new_block_group :: "int \<Rightarrow> ext2_block_group" where
  "new_block_group i = \<lparr>bg_group_id = i, bg_block_bitmap = 0, bg_inode_bitmap = 0, bg_inode_table = 0,
     bg_free_blocks = 1024, bg_free_inodes = 128, bg_used_dirs = 0\<rparr>"

record ext2fs =
  ex_superblock :: ext2_superblock
  ex_block_groups :: "ext2_block_group list"
  ex_inodes :: inodes
  ex_next_ino :: int

definition ex_take_inode :: "ext2fs \<Rightarrow> ext2fs" where
  "ex_take_inode t = t\<lparr>ex_superblock := (ex_superblock t)\<lparr>sb_free_inodes := sb_free_inodes (ex_superblock t) - 1\<rparr>\<rparr>"

definition ex_init :: "string \<Rightarrow> ext2fs" where
  "ex_init volume_name =
     ex_take_inode \<lparr>ex_superblock = default_superblock volume_name,
       ex_block_groups = map (\<lambda>i. new_block_group (int i)) [0..<8],
       ex_inodes = AList.update 2 (new_inode 2 DIR 493) [], ex_next_ino = 2\<rparr>"

definition ex_root_ino :: int where "ex_root_ino = 2"

definition ex_lookup :: "int \<Rightarrow> ext2fs \<Rightarrow> inode option" where
  "ex_lookup ino t = map_of (ex_inodes t) ino"

definition ex_lookup_name :: "int \<Rightarrow> string \<Rightarrow> ext2fs \<Rightarrow> inode option" where
  "ex_lookup_name parent_ino name t =
     (case map_of (ex_inodes t) parent_ino of
        None \<Rightarrow> None
      | Some parent \<Rightarrow>
          if i_itype parent \<noteq> DIR then None
          else (case map_of (i_children parent) name of
                  None \<Rightarrow> None
                | Some child_ino \<Rightarrow> map_of (ex_inodes t) child_ino))"

definition ex_create :: "int \<Rightarrow> string \<Rightarrow> inode_type \<Rightarrow> ext2fs \<Rightarrow> inode result \<times> ext2fs" where
  "ex_create parent_ino name itype t =
     (case map_of (ex_inodes t) parent_ino of
        None \<Rightarrow> (Inl ValueError, t)
      | Some parent \<Rightarrow>
          if i_itype parent \<noteq> DIR then (Inl ValueError, t)
          else if map_of (i_children parent) name \<noteq> None then (Inl FileExistsError, t)
          else (let ino = ex_next_ino t; i = new_inode ino itype 420
                in (Inr i, ex_take_inode (t\<lparr>ex_next_ino := ex_next_ino t + 1,
                      ex_inodes := link_child parent_ino name ino (AList.update ino i (ex_inodes t))\<rparr>))))"

definition ex_read :: "int \<Rightarrow> int \<Rightarrow> int \<Rightarrow> ext2fs \<Rightarrow> bytes" where
  "ex_read ino offset sz t =
     (case map_of (ex_inodes t) ino of
        None \<Rightarrow> []
      | Some i \<Rightarrow> if i_itype i \<noteq> FILE then [] else py_slice (i_data i) offset (offset + sz))"

definition ex_write :: "int \<Rightarrow> int \<Rightarrow> bytes \<Rightarrow> ext2fs \<Rightarrow> int \<times> ext2fs" where
  "ex_write ino offset data t =
     (case map_of (ex_inodes t) ino of
        None \<Rightarrow> (- 22, t)
      | Some i \<Rightarrow>
          if i_itype i \<noteq> FILE then (- 22, t)
          else (let new = splice offset data (i_data i)
                in (int (length data),
                    t\<lparr>ex_inodes := AList.update ino (i\<lparr>i_data := new, i_size := int (length new)\<rparr>) (ex_inodes t)\<rparr>)))"

definition ex_readdir :: "int \<Rightarrow> ext2fs \<Rightarrow> (string \<times> int) list" where
  "ex_readdir ino t =
     (case map_of (ex_inodes t) ino of
        None \<Rightarrow> []
      | Some i \<Rightarrow> if i_itype i \<noteq> DIR then [] else [(''.'', ino), (''..'', ino)] @ i_children i)"

definition ex_mkdir :: "int \<Rightarrow> string \<Rightarrow> ext2fs \<Rightarrow> inode result \<times> ext2fs" where
  "ex_mkdir parent_ino name t = ex_create parent_ino name DIR t"

record ext2_info =
  ei_magic :: string
  ei_volume_name :: string
  ei_block_size :: int
  ei_total_inodes :: int
  ei_free_inodes :: int
  ei_total_blocks :: int
  ei_free_blocks :: int
  ei_block_groups :: int

definition superblock_info :: "ext2fs \<Rightarrow> ext2_info" where
  "superblock_info t = (let sb = ex_superblock t in
     \<lparr>ei_magic = py_hex (sb_magic sb), ei_volume_name = sb_volume_name sb, ei_block_size = sb_block_size sb,
      ei_total_inodes = sb_total_inodes sb, ei_free_inodes = sb_free_inodes sb,
      ei_total_blocks = sb_total_blocks sb, ei_free_blocks = sb_free_blocks sb,
      ei_block_groups = int (length (ex_block_groups t))\<rparr>)"

section \<open>The driver contracts\<close>

definition ex_inv :: "ext2fs \<Rightarrow> bool" where
  "ex_inv t \<longleftrightarrow> tree_inv ex_root_ino (ex_next_ino t) (ex_inodes t)"

declare ex_inv_def [wf_defs]

lemma ex_take_inode_fields [simp]:
  "ex_inodes (ex_take_inode t) = ex_inodes t" "ex_next_ino (ex_take_inode t) = ex_next_ino t"
  by (simp_all add: ex_take_inode_def)

lemma ex_create_new:
  "map_of (ex_inodes t) p = Some P \<Longrightarrow> i_itype P = DIR \<Longrightarrow> map_of (i_children P) n = None \<Longrightarrow>
   ex_create p n ty t = (let C = new_inode (ex_next_ino t) ty 420
     in (Inr C, ex_take_inode (t\<lparr>ex_next_ino := ex_next_ino t + 1, ex_inodes := add_inode p n C (ex_inodes t)\<rparr>)))"
  by (simp add: ex_create_def add_inode_def Let_def new_inode_def)

lemma ex_write_new:
  "map_of (ex_inodes t) ino = Some i \<Longrightarrow> i_itype i = FILE \<Longrightarrow>
   ex_write ino off data t = (int (length data), t\<lparr>ex_inodes := dict_modify ino (written off data) (ex_inodes t)\<rparr>)"
  by (simp add: ex_write_def dict_modify_def Let_def written_def)

lemma ex_inv_write: "ex_inv t \<Longrightarrow> ex_inv (snd (ex_write ino off data t))"
proof (cases "\<exists>i. map_of (ex_inodes t) ino = Some i \<and> i_itype i = FILE")
  case True
  assume "ex_inv t"
  with True show ?thesis by (auto simp: ex_write_new ex_inv_def tree_modify keeps_written)
next
  case False
  assume "ex_inv t"
  with False show ?thesis by (auto simp: ex_write_def split: option.splits)
qed

lemma ex_inv_create:
  assumes "ex_inv t"
  shows "ex_inv (snd (ex_create p n ty t))"
proof (cases "\<exists>P. map_of (ex_inodes t) p = Some P \<and> i_itype P = DIR \<and> map_of (i_children P) n = None")
  case True
  then obtain P where P: "map_of (ex_inodes t) p = Some P" "i_itype P = DIR" "map_of (i_children P) n = None" by blast
  then show ?thesis
    using assms by (simp add: ex_create_new Let_def ex_inv_def tree_add new_inode_def)
next
  case False
  then have "snd (ex_create p n ty t) = t" by (auto simp: ex_create_def split: option.splits)
  with assms show ?thesis by simp
qed

interpretation ex: directory_tree ex_lookup ex_read ex_write "\<lambda>_. ex_root_ino" ex_lookup_name ex_create ex_inv
proof unfold_locales
  fix t ino i off n data
  assume i: "ex_lookup ino t = Some i" "i_itype i = FILE"
  show "ex_read ino off n t = py_slice (i_data i) off (off + n)"
    using i by (simp add: ex_lookup_def ex_read_def)
  show "fst (ex_write ino off data t) = int (length data) \<and> ex_lookup ino (snd (ex_write ino off data t))
      = Some (i\<lparr>i_data := splice off data (i_data i), i_size := int (length (splice off data (i_data i)))\<rparr>)"
    using i by (simp add: ex_lookup_def ex_write_def Let_def)
next
  fix t ino off n data
  assume "ex_lookup ino t = None \<or> (\<exists>i. ex_lookup ino t = Some i \<and> i_itype i \<noteq> FILE)"
  then show "ex_read ino off n t = []" "fst (ex_write ino off data t) < 0 \<and> snd (ex_write ino off data t) = t"
    by (auto simp: ex_lookup_def ex_read_def ex_write_def)
next
  fix j ino :: int and off data t
  assume "j \<noteq> ino"
  then show "ex_lookup j (snd (ex_write ino off data t)) = ex_lookup j t"
    by (auto simp: ex_lookup_def ex_write_def Let_def split: option.splits)
next
  fix t :: ext2fs and p P n c ino i off data ty
  assume inv: "ex_inv t"
  show "\<exists>r. ex_lookup ex_root_ino t = Some r \<and> i_itype r = DIR"
    using inv by (simp add: ex_inv_def tree_inv_def ex_lookup_def)
  show "i_ino i = ino \<and> 0 < ino" if "ex_lookup ino t = Some i"
    using tree_inode [OF inv [unfolded ex_inv_def], of ino i] that by (simp add: ex_lookup_def inode_ok_def)
  show "ex_lookup c t \<noteq> None" if "ex_lookup p t = Some P" "map_of (i_children P) n = Some c"
    using tree_inode [OF inv [unfolded ex_inv_def], of p P] that unfolding ex_lookup_def inode_ok_def by blast
  show "ex_inv (snd (ex_write ino off data t))" by (rule ex_inv_write [OF inv])
  assume P: "ex_lookup p t = Some P" "i_itype P = DIR" "map_of (i_children P) n = None"
  note P = P [unfolded ex_lookup_def]
  let ?C = "new_inode (ex_next_ino t) ty 420"
  have C: "i_ino ?C = ex_next_ino t" by (simp add: new_inode_def)
  note tab = add_inode_table(1) [OF inv [unfolded ex_inv_def] P(1) C, of n] add_inode_table(2) [OF inv [unfolded ex_inv_def] P(1) C]
  have "ex_inv (snd (ex_create p n ty t))" by (rule ex_inv_create [OF inv])
  with tab C tree_fresh [OF inv [unfolded ex_inv_def]]
  show "\<exists>c f'. ex_create p n ty t = (Inr c, f') \<and> ex_inv f' \<and> c = new_inode (i_ino c) ty 420
        \<and> ex_lookup (i_ino c) t = None \<and> ex_lookup (i_ino c) f' = Some c
        \<and> ex_lookup p f' = Some (P\<lparr>i_children := AList.update n (i_ino c) (i_children P)\<rparr>)
        \<and> (\<forall>j. j \<noteq> i_ino c \<longrightarrow> j \<noteq> p \<longrightarrow> ex_lookup j f' = ex_lookup j t)"
    by (simp add: ex_create_new [OF P] Let_def ex_lookup_def)
next
  fix p n t
  show "ex_lookup_name p n t = (case ex_lookup p t of None \<Rightarrow> None
      | Some P \<Rightarrow> if i_itype P \<noteq> DIR then None
                  else case map_of (i_children P) n of None \<Rightarrow> None | Some c \<Rightarrow> ex_lookup c t)"
    by (simp add: ex_lookup_name_def ex_lookup_def split: option.splits)
next
  fix p n t ty
  show "ex_create p n ty t = (Inl ValueError, t)"
    if "ex_lookup p t = None \<or> (\<exists>P. ex_lookup p t = Some P \<and> i_itype P \<noteq> DIR)"
    using that by (auto simp: ex_create_def ex_lookup_def)
  show "ex_create p n ty t = (Inl FileExistsError, t)"
    if "ex_lookup p t = Some P" "i_itype P = DIR" "map_of (i_children P) n \<noteq> None" for P
    using that by (simp add: ex_create_def ex_lookup_def)
qed simp_all

text \<open>The first name created on a fresh ext2 volume overwrites its root directory: the creation
  in the root reports success with inode number 2, the root's own, and afterwards inode 2 is the new
  inode and the root no longer lists any entry. When it was a file, no directory is left and every
  further creation fails; when it was a directory, the volume is a sound empty tree from then on.\<close>
theorem ext2_first_create_replaces_root:
  "\<exists>t. ex_create ex_root_ino n ty (ex_init v) = (Inr (new_inode ex_root_ino ty 420), t)
    \<and> ex_lookup ex_root_ino t = Some (new_inode ex_root_ino ty 420) \<and> ex_lookup_name ex_root_ino n t = None
    \<and> (if ty = DIR then ex_inv t else \<forall>p m ty'. ex_create p m ty' t = (Inl ValueError, t))"
proof -
  define t where "t = ex_take_inode ((ex_init v)\<lparr>ex_next_ino := 3, ex_inodes := [(2, new_inode 2 ty 420)]\<rparr>)"
  have "ex_create ex_root_ino n ty (ex_init v) = (Inr (new_inode ex_root_ino ty 420), t)"
    by (simp add: ex_create_def ex_root_ino_def ex_init_def ex_take_inode_def new_inode_def link_child_def t_def Let_def)
  moreover have "ex_lookup ex_root_ino t = Some (new_inode ex_root_ino ty 420)" "ex_lookup_name ex_root_ino n t = None"
    by (simp_all add: t_def ex_lookup_def ex_lookup_name_def ex_root_ino_def new_inode_def)
  moreover have "ex_inv t" if "ty = DIR"
    using that tree_root [of 2 420] by (simp add: ex_inv_def t_def ex_root_ino_def)
  moreover have "ex_create p m ty' t = (Inl ValueError, t)" if "ty \<noteq> DIR" for p m ty'
    using that by (simp add: ex_create_def t_def new_inode_def)
  ultimately show ?thesis by auto
qed

end
