(* ===== verification/Vfs.thy ===== *)
theory Vfs
  imports Tmpfs Ext2
begin

text \<open>
  \<^verbatim>\<open>vfs.py\<close>, the filesystem switch: mounts, path resolution across them, open files and the
  operations on paths. Filesystem objects are shared by reference, so the switch keeps them in a
  store; calls on the abstract \<^verbatim>\<open>Filesystem\<close> dispatch on the driver.
\<close>

section \<open>Dispatch on the driver\<close>

datatype fs = TmpFS tmpfs | Ext2FS ext2fs

fun fs_type :: "fs \<Rightarrow> string" where
  "fs_type (TmpFS t) = ''tmpfs''"
| "fs_type (Ext2FS t) = ''ext2''"

fun fs_root_ino :: "fs \<Rightarrow> int" where
  "fs_root_ino (TmpFS t) = tm_root_ino"
| "fs_root_ino (Ext2FS t) = ex_root_ino"

fun fs_lookup :: "int \<Rightarrow> fs \<Rightarrow> inode option" where
  "fs_lookup ino (TmpFS t) = tm_lookup ino t"
| "fs_lookup ino (Ext2FS t) = ex_lookup ino t"

fun fs_lookup_name :: "int \<Rightarrow> string \<Rightarrow> fs \<Rightarrow> inode option" where
  "fs_lookup_name p name (TmpFS t) = tm_lookup_name p name t"
| "fs_lookup_name p name (Ext2FS t) = ex_lookup_name p name t"

fun fs_create :: "int \<Rightarrow> string \<Rightarrow> inode_type \<Rightarrow> fs \<Rightarrow> inode result \<times> fs" where
  "fs_create p name itype (TmpFS t) = map_prod id TmpFS (tm_create p name itype t)"
| "fs_create p name itype (Ext2FS t) = map_prod id Ext2FS (ex_create p name itype t)"

fun fs_mkdir :: "int \<Rightarrow> string \<Rightarrow> fs \<Rightarrow> inode result \<times> fs" where
  "fs_mkdir p name (TmpFS t) = map_prod id TmpFS (tm_mkdir p name t)"
| "fs_mkdir p name (Ext2FS t) = map_prod id Ext2FS (ex_mkdir p name t)"

fun fs_read :: "int \<Rightarrow> int \<Rightarrow> int \<Rightarrow> fs \<Rightarrow> bytes" where
  "fs_read ino offset sz (TmpFS t) = tm_read ino offset sz t"
| "fs_read ino offset sz (Ext2FS t) = ex_read ino offset sz t"

fun fs_write :: "int \<Rightarrow> int \<Rightarrow> bytes \<Rightarrow> fs \<Rightarrow> int \<times> fs" where
  "fs_write ino offset data (TmpFS t) = map_prod id TmpFS (tm_write ino offset data t)"
| "fs_write ino offset data (Ext2FS t) = map_prod id Ext2FS (ex_write ino offset data t)"

fun fs_readdir :: "int \<Rightarrow> fs \<Rightarrow> (string \<times> int) list" where
  "fs_readdir ino (TmpFS t) = tm_readdir ino t"
| "fs_readdir ino (Ext2FS t) = ex_readdir ino t"

text \<open>\<^verbatim>\<open>inode.size = n\<close> on the inode object stored under its number.\<close>

fun fs_set_size :: "int \<Rightarrow> int \<Rightarrow> fs \<Rightarrow> fs" where
  "fs_set_size ino n (TmpFS t) = TmpFS (t\<lparr>tm_inodes := dict_modify ino (\<lambda>i. i\<lparr>i_size := n\<rparr>) (tm_inodes t)\<rparr>)"
| "fs_set_size ino n (Ext2FS t) = Ext2FS (t\<lparr>ex_inodes := dict_modify ino (\<lambda>i. i\<lparr>i_size := n\<rparr>) (ex_inodes t)\<rparr>)"

fun fs_inv :: "fs \<Rightarrow> bool" where
  "fs_inv (TmpFS t) = tm_inv t"
| "fs_inv (Ext2FS t) = ex_inv t"

section \<open>State\<close>

record vfs =
  vfs_stores :: "fs list"
  vfs_mounts :: "mount_point list"
  vfs_open_files :: "(int, open_file) dict"
  vfs_next_fd :: int

definition vfs_init :: vfs where
  "vfs_init = \<lparr>vfs_stores = [], vfs_mounts = [], vfs_open_files = [], vfs_next_fd = 3\<rparr>"

text \<open>Constructing a filesystem object; its reference is its place in the store.\<close>

definition vfs_new_fs :: "fs \<Rightarrow> vfs \<Rightarrow> nat \<times> vfs" where
  "vfs_new_fs f v = (length (vfs_stores v), v\<lparr>vfs_stores := vfs_stores v @ [f]\<rparr>)"

abbreviation store :: "vfs \<Rightarrow> nat \<Rightarrow> fs" where
  "store v r \<equiv> vfs_stores v ! r"

definition set_store :: "nat \<Rightarrow> fs \<Rightarrow> vfs \<Rightarrow> vfs" where
  "set_store r f v = v\<lparr>vfs_stores := (vfs_stores v)[r := f]\<rparr>"

section \<open>Mounting and path resolution\<close>

definition vfs_mount :: "string \<Rightarrow> nat \<Rightarrow> string \<Rightarrow> vfs \<Rightarrow> vfs" where
  "vfs_mount mountpoint r source v =
     v\<lparr>vfs_mounts := sort_key (\<lambda>m. - int (length (mp_path m)))
         (vfs_mounts v @ [\<lparr>mp_path = mountpoint, mp_fs = r, mp_source = source\<rparr>])\<rparr>"

definition mp_matches :: "string \<Rightarrow> mount_point \<Rightarrow> bool" where
  "mp_matches path mp \<longleftrightarrow> path = mp_path mp \<or> py_startswith path (py_rstrip CHR ''/'' (mp_path mp) @ ''/'')"

fun find_mount :: "string \<Rightarrow> mount_point list \<Rightarrow> mount_point option \<Rightarrow> mount_point option" where
  "find_mount path [] best = best"
| "find_mount path (mp # mps) best =
     (if mp_matches path mp then Some mp
      else find_mount path mps (if mp_path mp = ''/'' \<and> best = None then Some mp else best))"

definition path_parts :: "string \<Rightarrow> string list" where
  "path_parts rel = filter (\<lambda>p. p \<noteq> []) (py_split CHR ''/'' rel)"

definition resolve_path :: "string \<Rightarrow> vfs \<Rightarrow> nat option \<times> int" where
  "resolve_path path v =
     (case find_mount path (vfs_mounts v) None of
        None \<Rightarrow> (None, - 2)
      | Some best \<Rightarrow>
         (let f = store v (mp_fs best); rel = drop (length (mp_path best)) path
          in if rel = [] \<or> rel = ''/'' then (Some (mp_fs best), fs_root_ino f)
             else (Some (mp_fs best), walk fs_lookup_name (fs_root_ino f) (path_parts rel) f)))"

text \<open>\<^verbatim>\<open>"/".join(path.rstrip("/").split("/")[:-1]) or "/"\<close> and \<^verbatim>\<open>path.rstrip("/").split("/")[-1]\<close>.\<close>

definition parent_path :: "string \<Rightarrow> string" where
  "parent_path path =
     (let p = py_join CHR ''/'' (butlast (py_split CHR ''/'' (py_rstrip CHR ''/'' path)))
      in if p = [] then ''/'' else p)"

definition base_name :: "string \<Rightarrow> string" where
  "base_name path = last (py_split CHR ''/'' (py_rstrip CHR ''/'' path))"

section \<open>Open files\<close>

definition vfs_add_open :: "string \<Rightarrow> string \<Rightarrow> inode \<Rightarrow> string \<Rightarrow> vfs \<Rightarrow> int result \<times> vfs" where
  "vfs_add_open path flags i fstype v =
     (let fd = vfs_next_fd v;
          f = \<lparr>of_fd = fd, of_path = path, of_ino = i_ino i, of_flags = flags,
               of_position = (if CHR ''a'' \<in> set flags then i_size i else 0), of_fs_name = fstype\<rparr>
      in (Inr fd, v\<lparr>vfs_next_fd := vfs_next_fd v + 1,
                     vfs_open_files := AList.update fd f (vfs_open_files v)\<rparr>))"

definition vfs_open :: "string \<Rightarrow> string \<Rightarrow> vfs \<Rightarrow> int result \<times> vfs" where
  "vfs_open path flags v =
     (case resolve_path path v of
        (None, _) \<Rightarrow> (Inr (- 2), v)
      | (Some r, ino) \<Rightarrow>
         if ino < 0 then (Inr (- 2), v)
         else (case fs_lookup ino (store v r) of
            None \<Rightarrow> (Inr (- 2), v)
          | Some i \<Rightarrow>
             if (CHR ''w'' \<in> set flags \<or> CHR ''a'' \<in> set flags) \<and> i_itype i = DIR
             then (case fs_create ino (base_name path) FILE (store v r) of
                 (Inr child, f) \<Rightarrow> vfs_add_open path flags child (fs_type f) (set_store r f v)
               | (Inl FileExistsError, f) \<Rightarrow>
                   (case fs_lookup_name ino (base_name path) f of
                      Some child \<Rightarrow> vfs_add_open path flags child (fs_type f) (set_store r f v)
                    | None \<Rightarrow> vfs_add_open path flags i (fs_type f) (set_store r f v))
               | (Inl e, f) \<Rightarrow> (Inl e, set_store r f v))
             else vfs_add_open path flags i (fs_type (store v r)) v))"

definition vfs_read :: "int \<Rightarrow> int \<Rightarrow> vfs \<Rightarrow> bytes \<times> vfs" where
  "vfs_read fd sz v =
     (case map_of (vfs_open_files v) fd of
        None \<Rightarrow> ([], v)
      | Some f \<Rightarrow>
         (case resolve_path (of_path f) v of
            (None, _) \<Rightarrow> ([], v)
          | (Some r, _) \<Rightarrow>
             (let data = fs_read (of_ino f) (of_position f) sz (store v r)
              in (data, v\<lparr>vfs_open_files := AList.update fd
                    (f\<lparr>of_position := of_position f + int (length data)\<rparr>) (vfs_open_files v)\<rparr>))))"

definition vfs_write :: "int \<Rightarrow> bytes \<Rightarrow> vfs \<Rightarrow> int \<times> vfs" where
  "vfs_write fd data v =
     (case map_of (vfs_open_files v) fd of
        None \<Rightarrow> (- 9, v)
      | Some f \<Rightarrow>
         (case resolve_path (of_path f) v of
            (None, _) \<Rightarrow> (- 2, v)
          | (Some r, _) \<Rightarrow>
             (let (n, f') = fs_write (of_ino f) (of_position f) data (store v r);
                  v1 = set_store r f' v
              in (n, if n > 0
                     then v1\<lparr>vfs_open_files := AList.update fd
                       (f\<lparr>of_position := of_position f + n\<rparr>) (vfs_open_files v1)\<rparr>
                     else v1))))"

definition vfs_close :: "int \<Rightarrow> vfs \<Rightarrow> bool \<times> vfs" where
  "vfs_close fd v =
     (case map_of (vfs_open_files v) fd of
        None \<Rightarrow> (False, v)
      | Some _ \<Rightarrow> (True, v\<lparr>vfs_open_files := AList.delete fd (vfs_open_files v)\<rparr>))"

section \<open>Operations on paths\<close>

definition vfs_readdir :: "string \<Rightarrow> vfs \<Rightarrow> (string \<times> int) list" where
  "vfs_readdir path v =
     (case resolve_path path v of
        (None, _) \<Rightarrow> []
      | (Some r, ino) \<Rightarrow> if ino < 0 then [] else fs_readdir ino (store v r))"

definition vfs_stat :: "string \<Rightarrow> vfs \<Rightarrow> inode option" where
  "vfs_stat path v =
     (case resolve_path path v of
        (None, _) \<Rightarrow> None
      | (Some r, ino) \<Rightarrow> if ino < 0 then None else fs_lookup ino (store v r))"

definition vfs_mkdir :: "string \<Rightarrow> vfs \<Rightarrow> bool \<times> vfs" where
  "vfs_mkdir path v =
     (case resolve_path (parent_path path) v of
        (None, _) \<Rightarrow> (False, v)
      | (Some r, ino) \<Rightarrow>
         if ino < 0 then (False, v)
         else (case fs_mkdir ino (base_name path) (store v r) of
                 (Inr _, f) \<Rightarrow> (True, set_store r f v)
               | (Inl _, f) \<Rightarrow> (False, set_store r f v)))"

definition create_file :: "string \<Rightarrow> bytes \<Rightarrow> vfs \<Rightarrow> bool \<times> vfs" where
  "create_file path content v =
     (case resolve_path (parent_path path) v of
        (None, _) \<Rightarrow> (False, v)
      | (Some r, ino) \<Rightarrow>
         if ino < 0 then (False, v)
         else (case fs_create ino (base_name path) FILE (store v r) of
                 (Inr i, f) \<Rightarrow>
                   (if content \<noteq> []
                    then (let f1 = snd (fs_write (i_ino i) 0 content f);
                              f2 = fs_set_size (i_ino i) (int (length content)) f1
                          in (True, set_store r f2 v))
                    else (True, set_store r f v))
               | (Inl _, f) \<Rightarrow> (False, set_store r f v)))"

record mount_info =
  mi_mountpoint :: string
  mi_fstype :: string
  mi_source :: string

definition vfs_mounts_info :: "vfs \<Rightarrow> mount_info list" where
  "vfs_mounts_info v = map (\<lambda>m. \<lparr>mi_mountpoint = mp_path m, mi_fstype = fs_type (store v (mp_fs m)),
     mi_source = mp_source m\<rparr>) (vfs_mounts v)"

definition list_mounts :: "vfs \<Rightarrow> mount_point list" where
  "list_mounts v = vfs_mounts v"

definition read_path :: "string \<Rightarrow> int \<Rightarrow> vfs \<Rightarrow> bytes option" where
  "read_path path sz v =
     (case resolve_path path v of
        (None, _) \<Rightarrow> None
      | (Some r, ino) \<Rightarrow>
         if ino < 0 then None
         else (case fs_lookup ino (store v r) of
                 None \<Rightarrow> None
               | Some i \<Rightarrow> if i_itype i \<noteq> FILE then None else Some (fs_read ino 0 sz (store v r))))"

definition write_path :: "string \<Rightarrow> bytes \<Rightarrow> vfs \<Rightarrow> int \<times> vfs" where
  "write_path path data v =
     (case resolve_path path v of
        (Some r, ino) \<Rightarrow>
          if ino < 0
          then (let (created, v1) = create_file path data v in (if created then int (length data) else - 2, v1))
          else (let (n, f) = fs_write ino 0 data (store v r) in (n, set_store r f v))
      | (None, _) \<Rightarrow>
          (let (created, v1) = create_file path data v in (if created then int (length data) else - 2, v1)))"

section \<open>The dispatching driver meets the contracts\<close>

interpretation fsd: directory_tree fs_lookup fs_read fs_write fs_root_ino fs_lookup_name fs_create fs_inv
proof unfold_locales
  fix f :: fs and ino i off n data
  assume i: "fs_lookup ino f = Some i" "i_itype i = FILE"
  show "fs_read ino off n f = py_slice (i_data i) off (off + n)"
    using i by (cases f) (auto simp: tm.read_file ex.read_file)
  show "fst (fs_write ino off data f) = int (length data) \<and> fs_lookup ino (snd (fs_write ino off data f))
      = Some (i\<lparr>i_data := splice off data (i_data i), i_size := int (length (splice off data (i_data i)))\<rparr>)"
    using i tm.write_file [of ino _ i off data] ex.write_file [of ino _ i off data] by (cases f) auto
next
  fix f :: fs and ino off n data
  assume "fs_lookup ino f = None \<or> (\<exists>i. fs_lookup ino f = Some i \<and> i_itype i \<noteq> FILE)"
  then show "fs_read ino off n f = []" "fst (fs_write ino off data f) < 0 \<and> snd (fs_write ino off data f) = f"
    using tm.read_other [of ino _ off n] ex.read_other [of ino _ off n]
      tm.write_refused [of ino _ off data] ex.write_refused [of ino _ off data]
    by (cases f; simp)+
next
  fix j ino :: int and off data and f :: fs
  assume "j \<noteq> ino"
  then show "fs_lookup j (snd (fs_write ino off data f)) = fs_lookup j f"
    by (cases f) (auto simp: tm.write_frame ex.write_frame)
next
  fix f :: fs and p P n c ino i off data ty
  assume inv: "fs_inv f"
  show "\<exists>r. fs_lookup (fs_root_ino f) f = Some r \<and> i_itype r = DIR"
    using inv tm.root_dir ex.root_dir by (cases f) auto
  show "i_ino i = ino \<and> 0 < ino" if "fs_lookup ino f = Some i"
    using inv that tm.number ex.number by (cases f) auto
  show "fs_lookup c f \<noteq> None" if "fs_lookup p f = Some P" "map_of (i_children P) n = Some c"
    using inv that tm.closed ex.closed by (cases f; simp; blast)
  show "fs_inv (snd (fs_write ino off data f))"
    using inv by (cases f) (auto simp: tm_inv_write ex_inv_write)
  show "\<exists>c f'. fs_create p n ty f = (Inr c, f') \<and> fs_inv f' \<and> c = new_inode (i_ino c) ty 420
        \<and> fs_lookup (i_ino c) f = None \<and> fs_lookup (i_ino c) f' = Some c
        \<and> fs_lookup p f' = Some (P\<lparr>i_children := AList.update n (i_ino c) (i_children P)\<rparr>)
        \<and> (\<forall>j. j \<noteq> i_ino c \<longrightarrow> j \<noteq> p \<longrightarrow> fs_lookup j f' = fs_lookup j f)"
    if P: "fs_lookup p f = Some P" "i_itype P = DIR" "map_of (i_children P) n = None"
  proof (cases f)
    case (TmpFS t)
    from tm.create_new [of t p P n ty] inv P TmpFS
    obtain c t' where "tm_create p n ty t = (Inr c, t')" "tm_inv t'" "c = new_inode (i_ino c) ty 420"
      "tm_lookup (i_ino c) t = None" "tm_lookup (i_ino c) t' = Some c"
      "tm_lookup p t' = Some (P\<lparr>i_children := AList.update n (i_ino c) (i_children P)\<rparr>)"
      "\<forall>j. j \<noteq> i_ino c \<longrightarrow> j \<noteq> p \<longrightarrow> tm_lookup j t' = tm_lookup j t" by auto
    with TmpFS show ?thesis by (intro exI [of _ c] exI [of _ "TmpFS t'"]) simp
  next
    case (Ext2FS t)
    from ex.create_new [of t p P n ty] inv P Ext2FS
    obtain c t' where "ex_create p n ty t = (Inr c, t')" "ex_inv t'" "c = new_inode (i_ino c) ty 420"
      "ex_lookup (i_ino c) t = None" "ex_lookup (i_ino c) t' = Some c"
      "ex_lookup p t' = Some (P\<lparr>i_children := AList.update n (i_ino c) (i_children P)\<rparr>)"
      "\<forall>j. j \<noteq> i_ino c \<longrightarrow> j \<noteq> p \<longrightarrow> ex_lookup j t' = ex_lookup j t" by auto
    with Ext2FS show ?thesis by (intro exI [of _ c] exI [of _ "Ext2FS t'"]) simp
  qed
next
  fix p n and f :: fs
  show "fs_lookup_name p n f = (case fs_lookup p f of None \<Rightarrow> None
      | Some P \<Rightarrow> if i_itype P \<noteq> DIR then None
                  else case map_of (i_children P) n of None \<Rightarrow> None | Some c \<Rightarrow> fs_lookup c f)"
    using tm.lookup_name ex.lookup_name by (cases f) (auto split: option.splits)
next
  fix p n ty and f :: fs
  show "fs_create p n ty f = (Inl ValueError, f)"
    if "fs_lookup p f = None \<or> (\<exists>P. fs_lookup p f = Some P \<and> i_itype P \<noteq> DIR)"
    using that tm.create_not_dir [of p _ n ty] ex.create_not_dir [of p _ n ty] by (cases f) auto
  show "fs_create p n ty f = (Inl FileExistsError, f)"
    if "fs_lookup p f = Some P" "i_itype P = DIR" "map_of (i_children P) n \<noteq> None" for P
    using that tm.create_exists [of p _ P n ty] ex.create_exists [of p _ P n ty] by (cases f) auto
next
  fix p n ty and f :: fs
  show "fs_root_ino (snd (fs_create p n ty f)) = fs_root_ino f" by (cases f) simp_all
next
  fix ino off data and f :: fs
  show "fs_root_ino (snd (fs_write ino off data f)) = fs_root_ino f" by (cases f) simp_all
qed

section \<open>Paths\<close>

definition norm_path :: "string \<Rightarrow> bool" where
  "norm_path p \<longleftrightarrow> p = ''/'' \<or> (p \<noteq> [] \<and> hd p = CHR ''/'' \<and> last p \<noteq> CHR ''/'')"

definition absolute :: "string \<Rightarrow> bool" where
  "absolute p \<longleftrightarrow> p \<noteq> [] \<and> hd p = CHR ''/''"

definition component :: "string \<Rightarrow> bool" where
  "component n \<longleftrightarrow> n \<noteq> [] \<and> CHR ''/'' \<notin> set n"

text \<open>The directory part of \<open>p / name\<close>: the root directory when \<open>p\<close> is empty.\<close>

definition dir_of :: "string \<Rightarrow> string" where
  "dir_of p = (if p = [] then ''/'' else p)"

lemma path_parts_append: "path_parts (a @ CHR ''/'' # b) = path_parts a @ path_parts b"
  by (simp add: path_parts_def split_append_gen)

lemma path_parts_component: "component n \<Longrightarrow> path_parts n = [n]"
  by (simp add: path_parts_def component_def split_single)

lemma path_parts_root [simp]: "path_parts [] = []" "path_parts ''/'' = []"
  by (simp_all add: path_parts_def)

lemma rstrip_component: "component n \<Longrightarrow> py_rstrip CHR ''/'' (p @ CHR ''/'' # n) = p @ CHR ''/'' # n"
  by (rule rstrip_id) (auto simp: component_def dest: last_in_set)

lemma parent_base:
  assumes "component n"
  shows "parent_path (p @ CHR ''/'' # n) = dir_of p" "base_name (p @ CHR ''/'' # n) = n"
  using assms split_single [of "CHR ''/''" n]
  by (simp_all add: parent_path_def base_name_def dir_of_def Let_def rstrip_component split_append_gen join_split component_def)

lemma resolve_walk:
  "find_mount path (vfs_mounts v) None = Some mp \<Longrightarrow> resolve_path path v =
   (Some (mp_fs mp), walk fs_lookup_name (fs_root_ino (store v (mp_fs mp)))
      (path_parts (drop (length (mp_path mp)) path)) (store v (mp_fs mp)))"
  by (auto simp: resolve_path_def Let_def)

lemma resolve_fst: "fst (resolve_path path v) = map_option mp_fs (find_mount path (vfs_mounts v) None)"
  by (simp add: resolve_path_def Let_def split: option.splits)

lemma root_matches: "absolute path \<Longrightarrow> mp_path mp = ''/'' \<Longrightarrow> mp_matches path mp"
  by (cases path) (simp_all add: absolute_def mp_matches_def py_startswith_def py_rstrip_def)

lemma find_mount_abs: "absolute path \<Longrightarrow> find_mount path ms None = find (mp_matches path) ms"
  by (induction ms) (auto simp: root_matches)

lemma matches_norm:
  assumes "norm_path (mp_path mp)" "mp_path mp \<noteq> ''/''"
  shows "mp_matches path mp \<longleftrightarrow> path = mp_path mp \<or> (\<exists>t. path = mp_path mp @ CHR ''/'' # t)"
  using assms rstrip_id [of "mp_path mp" "CHR ''/''"]
  by (auto simp: mp_matches_def startswith_iff norm_path_def)

lemma matches_length: "norm_path (mp_path mp) \<Longrightarrow> absolute path \<Longrightarrow> mp_matches path mp \<Longrightarrow> length (mp_path mp) \<le> length path"
proof (cases "mp_path mp = ''/''")
  case True
  assume "absolute path"
  then show ?thesis using True by (cases path) (auto simp: absolute_def)
next
  case False
  assume "norm_path (mp_path mp)" "mp_matches path mp"
  then have "\<exists>t. path = mp_path mp @ t" using False by (auto simp: matches_norm)
  then show ?thesis by auto
qed

lemma append_component_split:
  assumes "component n"
  shows "p @ CHR ''/'' # n = m @ CHR ''/'' # t \<Longrightarrow> p = m \<or> (\<exists>t'. p = m @ CHR ''/'' # t')"
proof (induction m arbitrary: p)
  case Nil
  then show ?case by (cases p) auto
next
  case (Cons x m)
  show ?case
  proof (cases p)
    case Nil
    with Cons.prems have "n = m @ CHR ''/'' # t" by simp
    with assms show ?thesis by (simp add: component_def)
  next
    case (Cons y q)
    with Cons.prems Cons.IH [of q] show ?thesis by simp
  qed
qed

text \<open>Unless it is itself a mount point, a path lies on the same mount as its directory.\<close>

lemma same_mount:
  assumes "component n" "p = [] \<or> absolute p" "norm_path (mp_path mp)" "mp_path mp \<noteq> p @ CHR ''/'' # n"
  shows "mp_matches (p @ CHR ''/'' # n) mp \<longleftrightarrow> mp_matches (dir_of p) mp"
proof (cases "mp_path mp = ''/''")
  case True
  have "absolute (p @ CHR ''/'' # n)" "absolute (dir_of p)"
    using assms(2) by (auto simp: absolute_def dir_of_def)
  with True show ?thesis by (simp add: root_matches)
next
  case False
  note m = matches_norm [OF assms(3) False]
  show ?thesis
  proof
    assume "mp_matches (p @ CHR ''/'' # n) mp"
    with assms(4) obtain t where "p @ CHR ''/'' # n = mp_path mp @ CHR ''/'' # t" unfolding m by auto
    from append_component_split [OF assms(1) this] show "mp_matches (dir_of p) mp"
      using assms(3) unfolding m by (auto simp: dir_of_def norm_path_def)
  next
    assume "mp_matches (dir_of p) mp"
    then show "mp_matches (p @ CHR ''/'' # n) mp"
      using assms(3) False unfolding m by (auto simp: dir_of_def norm_path_def Cons_eq_append_conv split: if_splits)
  qed
qed

section \<open>Invariant\<close>

definition vfs_inv :: "vfs \<Rightarrow> bool" where
  "vfs_inv v \<longleftrightarrow> (\<forall>mp \<in> set (vfs_mounts v). mp_fs mp < length (vfs_stores v) \<and> norm_path (mp_path mp))
     \<and> (\<forall>f \<in> set (vfs_stores v). fs_inv f)
     \<and> sorted (map (\<lambda>m. - int (length (mp_path m))) (vfs_mounts v))
     \<and> dict_ok (vfs_open_files v) \<and> 3 \<le> vfs_next_fd v
     \<and> (\<forall>fd f. map_of (vfs_open_files v) fd = Some f \<longrightarrow>
          of_fd f = fd \<and> 3 \<le> fd \<and> fd < vfs_next_fd v \<and> 0 \<le> of_position f)"

declare vfs_inv_def [wf_defs]

lemma vfs_inv_init [intro, simp]: "vfs_inv vfs_init"
  by (simp add: vfs_inv_def vfs_init_def)

lemma find_mount_cases:
  "find_mount path ms best = Some mp \<Longrightarrow> best = Some mp \<or> mp \<in> set ms \<and> (mp_matches path mp \<or> mp_path mp = ''/'')"
  by (induction ms arbitrary: best) (auto split: if_splits)

lemma resolve_store:
  assumes "vfs_inv v" "resolve_path path v = (Some r, ino)"
  shows "r < length (vfs_stores v)" "fs_inv (store v r)"
proof -
  obtain mp where "find_mount path (vfs_mounts v) None = Some mp" and r: "r = mp_fs mp"
    using assms(2) by (auto simp: resolve_path_def Let_def split: option.splits if_splits)
  then have "mp \<in> set (vfs_mounts v)" using find_mount_cases by fastforce
  with assms(1) r show "r < length (vfs_stores v)" by (simp add: vfs_inv_def)
  with assms(1) show "fs_inv (store v r)" by (simp add: vfs_inv_def)
qed

lemma vfs_inv_set_store: "vfs_inv v \<Longrightarrow> fs_inv f \<Longrightarrow> vfs_inv (set_store r f v)"
  by (auto simp: vfs_inv_def set_store_def dest!: set_update_subset_insert [THEN subsetD])

lemma vfs_inv_add_open:
  "vfs_inv v \<Longrightarrow> 0 \<le> i_size i \<Longrightarrow> vfs_inv (snd (vfs_add_open path flags i ty v))"
  by (fastforce simp: vfs_inv_def vfs_add_open_def Let_def)

lemma vfs_inv_position:
  assumes "vfs_inv v" "map_of (vfs_open_files v) fd = Some f" "0 \<le> n"
  shows "vfs_inv (v\<lparr>vfs_open_files := AList.update fd (f\<lparr>of_position := of_position f + n\<rparr>) (vfs_open_files v)\<rparr>)"
  using assms by (auto simp: vfs_inv_def)

lemma vfs_inv_mount:
  assumes "vfs_inv v" "norm_path mountpoint" "r < length (vfs_stores v)"
  shows "vfs_inv (vfs_mount mountpoint r source v)"
  using assms by (auto simp: vfs_inv_def vfs_mount_def)

lemma vfs_inv_new_fs: "vfs_inv v \<Longrightarrow> fs_inv f \<Longrightarrow> vfs_inv (snd (vfs_new_fs f v))"
  by (auto simp: vfs_inv_def vfs_new_fs_def intro: less_SucI)

lemma fs_create_inv: "fs_inv f \<Longrightarrow> fs_inv (snd (fs_create p n ty f))"
  by (cases f) (simp_all add: tm_inv_create ex_inv_create)

lemma fs_create_inv': "fs_create p n ty f = (res, f') \<Longrightarrow> fs_inv f \<Longrightarrow> fs_inv f'"
  using fs_create_inv [of f p n ty] by simp

lemma fs_write_inv': "fs_write ino off data f = (n, f') \<Longrightarrow> fs_inv f \<Longrightarrow> fs_inv f'"
  using fsd.write_inv [of f ino off data] by simp

lemma fs_mkdir_create: "fs_mkdir p n f = fs_create p n DIR f"
  by (cases f) (simp_all add: tm_mkdir_def ex_mkdir_def)

lemma fs_size: "fs_inv f \<Longrightarrow> fs_lookup ino f = Some i \<Longrightarrow> i_size i = int (length (i_data i))"
  by (cases f) (auto simp: tm_inv_def ex_inv_def tm_lookup_def ex_lookup_def inode_ok_def dest!: tree_inode)

lemma fs_set_size_same:
  "fs_lookup ino f = Some i \<Longrightarrow> i_size i = n \<Longrightarrow> fs_set_size ino n f = f"
  by (cases f) (auto simp: dict_modify_def tm_lookup_def ex_lookup_def update_same)

text \<open>Filling a file that was just created.\<close>

lemma create_fill:
  fixes content :: bytes
  assumes "fs_inv f" "fs_create p n FILE f = (Inr c, f1)"
  defines "f2 \<equiv> snd (fs_write (i_ino c) 0 content f1)"
  shows "fs_set_size (i_ino c) (int (length content)) f2 = f2" "fs_inv f2"
    "fs_lookup (i_ino c) f2 = Some (c\<lparr>i_data := content, i_size := int (length content)\<rparr>)"
proof -
  have c: "fs_lookup (i_ino c) f1 = Some c" "c = new_inode (i_ino c) FILE 420" "fs_inv f1"
    using fsd.create_Inr [OF assms(1,2)] by blast+
  have "i_itype c = FILE" "i_data c = []" by (subst c(2), simp add: new_inode_def)+
  with fsd.write_file [OF c(1), of 0 content]
  show l: "fs_lookup (i_ino c) f2 = Some (c\<lparr>i_data := content, i_size := int (length content)\<rparr>)"
    by (simp add: f2_def splice_empty)
  then show "fs_set_size (i_ino c) (int (length content)) f2 = f2" by (rule fs_set_size_same) simp
  show "fs_inv f2" unfolding f2_def by (rule fsd.write_inv [OF c(3)])
qed

subsection \<open>Preservation\<close>

lemma vfs_inv_open: "vfs_inv v \<Longrightarrow> vfs_inv (snd (vfs_open path flags v))"
proof -
  assume inv: "vfs_inv v"
  have size0: "0 \<le> i_size i" if "fs_inv f" "fs_lookup ino f = Some i" for f ino i
    using fs_size [OF that] by simp
  show ?thesis
  proof (cases "resolve_path path v")
    case (Pair ro ino)
    show ?thesis
    proof (cases "ro = None \<or> ino < 0 \<or> fs_lookup ino (store v (the ro)) = None")
      case True
      with inv Pair show ?thesis by (auto simp: vfs_open_def split: option.splits)
    next
      case False
      then obtain r i where r: "ro = Some r" and ino: "\<not> ino < 0" and i: "fs_lookup ino (store v r) = Some i" by auto
      note st = resolve_store [OF inv Pair [unfolded r]]
      obtain res f where cr: "fs_create ino (base_name path) FILE (store v r) = (res, f)" by fastforce
      have f: "fs_inv f" using fs_create_inv [OF st(2), of ino "base_name path" FILE] cr by simp
      have iv: "vfs_inv (set_store r f v)" by (rule vfs_inv_set_store [OF inv f])
      show ?thesis
      proof (cases "(CHR ''w'' \<in> set flags \<or> CHR ''a'' \<in> set flags) \<and> i_itype i = DIR")
        case False
        then show ?thesis
          using Pair r ino i vfs_inv_add_open [OF inv size0 [OF st(2) i]] by (auto simp: vfs_open_def)
      next
        case True
        show ?thesis
        proof (cases res)
          case (Inl e)
          have "0 \<le> i_size j" if "fs_lookup_name ino (base_name path) f = Some j" for j
            using that fsd.lookup_name size0 [OF f] by (auto split: option.splits if_splits)
          with Inl True Pair r ino i cr iv vfs_inv_add_open [OF iv] size0 [OF st(2) i] show ?thesis
            by (auto simp: vfs_open_def split: pyexn.splits option.splits)
        next
          case (Inr c)
          with cr have "fs_lookup (i_ino c) f = Some c"
            using fsd.create_Inr [OF st(2)] by blast
          with Inr True Pair r ino i cr vfs_inv_add_open [OF iv size0 [OF f]] show ?thesis
            by (auto simp: vfs_open_def)
        qed
      qed
    qed
  qed
qed

lemma vfs_inv_read: "vfs_inv v \<Longrightarrow> vfs_inv (snd (vfs_read fd n v))"
  using vfs_inv_position [of v fd] by (auto simp: vfs_read_def Let_def split: option.splits prod.splits)

lemma set_store_fields [simp]:
  "vfs_open_files (set_store r f v) = vfs_open_files v" "vfs_mounts (set_store r f v) = vfs_mounts v"
  "vfs_next_fd (set_store r f v) = vfs_next_fd v" "length (vfs_stores (set_store r f v)) = length (vfs_stores v)"
  "r < length (vfs_stores v) \<Longrightarrow> store (set_store r f v) r = f"
  "q \<noteq> r \<Longrightarrow> store (set_store r f v) q = store v q"
  by (simp_all add: set_store_def)

lemma vfs_inv_write: "vfs_inv v \<Longrightarrow> vfs_inv (snd (vfs_write fd data v))"
proof -
  assume inv: "vfs_inv v"
  show ?thesis
  proof (cases "\<exists>f r k. map_of (vfs_open_files v) fd = Some f \<and> resolve_path (of_path f) v = (Some r, k)")
    case False
    with inv show ?thesis by (auto simp: vfs_write_def split: option.splits prod.splits)
  next
    case True
    then obtain f r k where f: "map_of (vfs_open_files v) fd = Some f" and r: "resolve_path (of_path f) v = (Some r, k)"
      by blast
    obtain n f' where w: "fs_write (of_ino f) (of_position f) data (store v r) = (n, f')" by fastforce
    have "fs_inv f'" using fsd.write_inv [OF resolve_store(2) [OF inv r], of "of_ino f" "of_position f" data] w by simp
    then have iv: "vfs_inv (set_store r f' v)" by (rule vfs_inv_set_store [OF inv])
    show ?thesis
      using f r w iv vfs_inv_position [OF iv, of fd f n] by (simp add: vfs_write_def Let_def)
  qed
qed

lemma vfs_inv_close: "vfs_inv v \<Longrightarrow> vfs_inv (snd (vfs_close fd v))"
  by (auto simp: vfs_inv_def vfs_close_def split: option.splits if_splits)

lemma vfs_inv_mkdir: "vfs_inv v \<Longrightarrow> vfs_inv (snd (vfs_mkdir path v))"
  by (auto simp: vfs_mkdir_def fs_mkdir_create split: option.splits prod.splits sum.splits
      intro!: vfs_inv_set_store elim!: fs_create_inv' intro: resolve_store)

lemma vfs_inv_create: "vfs_inv v \<Longrightarrow> vfs_inv (snd (create_file path content v))"
proof -
  assume inv: "vfs_inv v"
  show ?thesis
  proof (cases "resolve_path (parent_path path) v")
    case (Pair ro ino)
    show ?thesis
    proof (cases ro)
      case (Some r)
      note st = resolve_store [OF inv Pair [unfolded Some]]
      obtain res f where cr: "fs_create ino (base_name path) FILE (store v r) = (res, f)" by fastforce
      have f: "fs_inv f" using fs_create_inv [OF st(2), of ino "base_name path" FILE] cr by simp
      show ?thesis
      proof (cases res)
        case (Inl e)
        with Pair Some cr f inv show ?thesis by (auto simp: create_file_def vfs_inv_set_store)
      next
        case (Inr c)
        note fill = create_fill [OF st(2) cr [unfolded Inr], of content]
        from Inr Pair Some cr f inv fill show ?thesis by (auto simp: create_file_def vfs_inv_set_store)
      qed
    qed (use inv Pair in \<open>simp add: create_file_def\<close>)
  qed
qed

lemma vfs_inv_write_path: "vfs_inv v \<Longrightarrow> vfs_inv (snd (write_path path data v))"
  using vfs_inv_create [of v path data]
  by (auto simp: write_path_def Let_def split: option.splits prod.splits
      intro!: vfs_inv_set_store elim!: fs_write_inv' intro: resolve_store)

datatype vfs_op =
    VNewTmpfs
  | VMount string nat string
  | VOpen string string
  | VRead int int
  | VWrite int bytes
  | VClose int
  | VMkdir string
  | VCreate string bytes
  | VWritePath string bytes

fun vfs_step :: "vfs_op \<Rightarrow> vfs \<Rightarrow> vfs" where
  "vfs_step VNewTmpfs v = snd (vfs_new_fs (TmpFS tm_init) v)"
| "vfs_step (VMount p r source) v =
     (if norm_path p \<and> r < length (vfs_stores v) then vfs_mount p r source v else v)"
| "vfs_step (VOpen path flags) v = snd (vfs_open path flags v)"
| "vfs_step (VRead fd n) v = snd (vfs_read fd n v)"
| "vfs_step (VWrite fd data) v = snd (vfs_write fd data v)"
| "vfs_step (VClose fd) v = snd (vfs_close fd v)"
| "vfs_step (VMkdir path) v = snd (vfs_mkdir path v)"
| "vfs_step (VCreate path content) v = snd (create_file path content v)"
| "vfs_step (VWritePath path data) v = snd (write_path path data v)"

interpretation vfsm: machine vfs_init vfs_step vfs_inv
proof unfold_locales
  show "vfs_inv vfs_init" by simp
  show "vfs_inv (vfs_step e v)" if "vfs_inv v" for v e
    using that by (cases e) (simp_all add: vfs_inv_new_fs vfs_inv_mount vfs_inv_open vfs_inv_read vfs_inv_write
      vfs_inv_close vfs_inv_mkdir vfs_inv_create vfs_inv_write_path)
qed

section \<open>Properties\<close>

lemma find_least:
  "sorted (map g ms) \<Longrightarrow> find P ms = Some mp \<Longrightarrow> m \<in> set ms \<Longrightarrow> P m \<Longrightarrow> g mp \<le> g m"
  by (induction ms) (auto split: if_splits)

text \<open>C9: An absolute path resolves in the filesystem of its longest matching mount point: whatever
  mounts were made and in whatever order, the mount chosen contains the path and no other mount
  that contains it has a longer mount point; there is none only if no mount contains the path.\<close>
theorem longest_mount_wins:
  assumes "reaches vfs_step vfs_init v" and "absolute path"
  shows "case find_mount path (vfs_mounts v) None of
      None \<Rightarrow> \<forall>mp \<in> set (vfs_mounts v). \<not> mp_matches path mp
    | Some mp \<Rightarrow> mp \<in> set (vfs_mounts v) \<and> mp_matches path mp
        \<and> (\<forall>m \<in> set (vfs_mounts v). mp_matches path m \<longrightarrow> length (mp_path m) \<le> length (mp_path mp))"
proof -
  have inv: "vfs_inv v" by (rule vfsm.inv_reachable [OF assms(1)])
  then have sorted: "sorted (map (\<lambda>m. - int (length (mp_path m))) (vfs_mounts v))" by (simp add: vfs_inv_def)
  show ?thesis
  proof (cases "find (mp_matches path) (vfs_mounts v)")
    case None
    with find_None_iff [of "mp_matches path" "vfs_mounts v"] show ?thesis by (auto simp: find_mount_abs [OF assms(2)])
  next
    case (Some mp)
    have "mp \<in> set (vfs_mounts v)" "mp_matches path mp"
      using Some by (auto simp: find_Some_iff)
    with Some find_least [OF sorted Some] show ?thesis
      by (auto simp: find_mount_abs [OF assms(2)])
  qed
qed

definition two_mounts :: "vfs_op list" where
  "two_mounts = [VNewTmpfs, VNewTmpfs, VMount ''/'' 0 ''tmpfs'', VMount ''/dev'' 1 ''dev'', VMkdir ''/etc'',
     VCreate ''/etc/motd'' [104, 105]]"

theorem longest_mount_wins_witness:
  "resolve_path ''/dev/x'' (fold vfs_step two_mounts vfs_init) = (Some 1, - 2)
   \<and> find_mount ''/dev/x'' (vfs_mounts (fold vfs_step two_mounts vfs_init)) None
     = Some \<lparr>mp_path = ''/dev'', mp_fs = 1, mp_source = ''dev''\<rparr>"
proof -
  let ?v = "fold vfs_step two_mounts vfs_init"
  have m: "vfs_mounts ?v = [\<lparr>mp_path = ''/dev'', mp_fs = 1, mp_source = ''dev''\<rparr>, \<lparr>mp_path = ''/'', mp_fs = 0, mp_source = ''tmpfs''\<rparr>]"
    and r: "resolve_path ''/dev/x'' ?v = (Some 1, - 2)" by code_simp+
  have p: "absolute ''/dev/x''" "mp_matches ''/dev/x'' \<lparr>mp_path = ''/dev'', mp_fs = 1, mp_source = ''dev''\<rparr>"
    by code_simp+
  have "find_mount ''/dev/x'' (vfs_mounts ?v) None = Some \<lparr>mp_path = ''/dev'', mp_fs = 1, mp_source = ''dev''\<rparr>"
    using longest_mount_wins [OF reaches_fold p(1), of two_mounts] p(2)
    by (auto simp: m split: option.splits)
  with r show ?thesis by simp
qed

text \<open>How a path extends the resolution of its directory.\<close>

lemma resolve_child:
  assumes inv: "vfs_inv v" and n: "component n" and p: "p = [] \<or> absolute p"
    and no: "\<forall>mp \<in> set (vfs_mounts v). mp_path mp \<noteq> p @ CHR ''/'' # n"
    and r: "resolve_path (dir_of p) v = (Some r, ino)"
  shows "\<exists>ps. \<forall>v'. vfs_mounts v' = vfs_mounts v \<longrightarrow>
    resolve_path (dir_of p) v' = (Some r, walk fs_lookup_name (fs_root_ino (store v' r)) ps (store v' r))
    \<and> resolve_path (p @ CHR ''/'' # n) v'
       = (Some r, walk fs_lookup_name (fs_root_ino (store v' r)) (ps @ [n]) (store v' r))"
proof -
  have abs: "absolute (dir_of p)" "absolute (p @ CHR ''/'' # n)" using p by (auto simp: dir_of_def absolute_def)
  have norm: "\<forall>mp \<in> set (vfs_mounts v). norm_path (mp_path mp)" using inv by (simp add: vfs_inv_def)
  obtain mp where mp: "find_mount (dir_of p) (vfs_mounts v) None = Some mp" and rm: "r = mp_fs mp"
    using r by (auto simp: resolve_path_def Let_def split: option.splits if_splits)
  have fm: "mp \<in> set (vfs_mounts v)" "mp_matches (dir_of p) mp"
    using mp by (auto simp: find_mount_abs [OF abs(1)] find_Some_iff)
  have same: "find_mount (p @ CHR ''/'' # n) (vfs_mounts v) None = Some mp"
    using mp norm no same_mount [OF n p]
    by (auto simp: find_mount_abs abs find_Some_iff)
  have len: "length (mp_path mp) \<le> length (dir_of p)" using matches_length [OF _ abs(1) fm(2)] norm fm(1) by blast
  have parts: "path_parts (drop (length (mp_path mp)) (p @ CHR ''/'' # n))
      = path_parts (drop (length (mp_path mp)) (dir_of p)) @ [n]"
  proof (cases p)
    case Nil
    have "mp_path mp \<noteq> []" using norm fm(1) by (auto simp: norm_path_def)
    with len Nil have "length (mp_path mp) = 1" by (cases "mp_path mp") (auto simp: dir_of_def)
    with Nil show ?thesis by (simp add: dir_of_def path_parts_component [OF n])
  next
    case (Cons a q)
    then have "length (mp_path mp) \<le> length p" using len by (simp add: dir_of_def)
    then have "drop (length (mp_path mp)) (p @ CHR ''/'' # n) = drop (length (mp_path mp)) p @ CHR ''/'' # n"
      by simp
    with Cons show ?thesis by (simp add: dir_of_def path_parts_append path_parts_component [OF n] del: append_Cons)
  qed
  show ?thesis
    using resolve_walk [of "dir_of p" _ mp] resolve_walk [of "p @ CHR ''/'' # n" _ mp] mp same parts rm
    by (intro exI [of _ "path_parts (drop (length (mp_path mp)) (dir_of p))"]) simp
qed

lemma create_child:
  assumes inv: "vfs_inv v" and n: "component n" and p: "p = [] \<or> absolute p"
    and no: "\<forall>mp \<in> set (vfs_mounts v). mp_path mp \<noteq> p @ CHR ''/'' # n"
    and r: "resolve_path (dir_of p) v = (Some r, ino)"
    and cr: "fs_create ino n ty (store v r) = (Inr c, f)"
    and v': "vfs_mounts v' = vfs_mounts v" "\<And>ps. walk fs_lookup_name (fs_root_ino (store v' r)) ps (store v' r)
      = walk fs_lookup_name (fs_root_ino f) ps f"
  shows "resolve_path (p @ CHR ''/'' # n) v' = (Some r, i_ino c)" "resolve_path (p @ CHR ''/'' # n) v = (Some r, - 2)"
    "0 < i_ino c" "resolve_path (dir_of p) v' = (Some r, ino)"
proof -
  obtain ps where res: "vfs_mounts w = vfs_mounts v \<Longrightarrow>
      resolve_path (dir_of p) w = (Some r, walk fs_lookup_name (fs_root_ino (store w r)) ps (store w r))
      \<and> resolve_path (p @ CHR ''/'' # n) w
         = (Some r, walk fs_lookup_name (fs_root_ino (store w r)) (ps @ [n]) (store w r))" for w
    using resolve_child [OF inv n p no r] by blast
  have ps: "walk fs_lookup_name (fs_root_ino (store v r)) ps (store v r) = ino"
    using res [of v] r by simp
  note st = resolve_store [OF inv r]
  have root: "fs_root_ino f = fs_root_ino (store v r)"
    using fsd.root_create [of ino n ty "store v r"] cr by simp
  show "resolve_path (p @ CHR ''/'' # n) v' = (Some r, i_ino c)"
    using res [OF v'(1)] v'(2) fsd.walk_create_new [OF st(2) cr ps] root by simp
  have "0 \<le> ino" "0 < i_ino c"
    using fsd.create_Inr [OF st(2) cr] fsd.number [OF st(2)] fsd.number by (metis less_imp_le)+
  then show "0 < i_ino c" by simp
  show "resolve_path (dir_of p) v' = (Some r, ino)"
    using res [OF v'(1)] v'(2) fsd.walk_create_keep [OF st(2) cr] ps root \<open>0 \<le> ino\<close> by simp
  have "walk fs_lookup_name (fs_root_ino (store v r)) (ps @ [n]) (store v r) = - 2"
    using ps \<open>0 \<le> ino\<close> fsd.create_children(2) [OF st(2) cr] by (simp add: fsd.walk_append)
  with res [of v] show "resolve_path (p @ CHR ''/'' # n) v = (Some r, - 2)" by simp
qed

lemma create_again:
  assumes "fs_lookup_name p n f \<noteq> None"
  shows "fs_create p n ty f = (Inl FileExistsError, f)"
proof -
  obtain P where "fs_lookup p f = Some P" "i_itype P = DIR" "map_of (i_children P) n \<noteq> None"
    using assms unfolding fsd.lookup_name by (auto split: option.splits if_splits)
  then show ?thesis by (rule fsd.create_exists)
qed

lemma set_store_same: "r < length (vfs_stores v) \<Longrightarrow> set_store r (store v r) v = v"
  by (simp add: set_store_def)

text \<open>C7: Creating a file in a directory works end to end through path resolution, on any mount: when
  it succeeds, the path named nothing before; afterwards it is a regular file of the content's
  length, reading the path back gives the content (cut to the size asked for), and creating it again
  fails and changes nothing.\<close>
theorem create_then_read:
  assumes inv: "vfs_inv v" and n: "component n" and p: "p = [] \<or> absolute p"
    and no: "\<forall>mp \<in> set (vfs_mounts v). mp_path mp \<noteq> p @ CHR ''/'' # n"
    and created: "create_file (p @ CHR ''/'' # n) content v = (True, v')"
  shows "vfs_stat (p @ CHR ''/'' # n) v = None \<and> vfs_inv v'
    \<and> (\<exists>i. vfs_stat (p @ CHR ''/'' # n) v' = Some i \<and> i_itype i = FILE \<and> i_size i = int (length content))
    \<and> (0 \<le> k \<longrightarrow> read_path (p @ CHR ''/'' # n) k v' = Some (take (nat k) content))
    \<and> create_file (p @ CHR ''/'' # n) content' v' = (False, v')"
proof -
  obtain r ino c f where r: "resolve_path (dir_of p) v = (Some r, ino)" "\<not> ino < 0"
    and cr: "fs_create ino n FILE (store v r) = (Inr c, f)"
    and v': "v' = set_store r (if content \<noteq> [] then fs_set_size (i_ino c) (int (length content))
        (snd (fs_write (i_ino c) 0 content f)) else f) v"
    using created by (auto simp: create_file_def parent_base [OF n] Let_def
        split: prod.splits option.splits if_splits sum.splits)
  note st = resolve_store [OF inv r(1)] and fill = create_fill [OF resolve_store(2) [OF inv r(1)] cr, of content]
  define f' where "f' = (if content \<noteq> [] then snd (fs_write (i_ino c) 0 content f) else f)"
  have v': "v' = set_store r f' v" using v' fill(1) by (simp add: f'_def)
  have c: "c = new_inode (i_ino c) FILE 420" "fs_lookup (i_ino c) f = Some c"
    using fsd.create_Inr [OF st(2) cr] by blast+
  have ct: "i_itype c = FILE" "i_data c = []" "i_size c = 0" by (subst c(1), simp add: new_inode_def)+
  have i: "fs_lookup (i_ino c) f' = Some (c\<lparr>i_data := content, i_size := int (length content)\<rparr>)"
    using fill(3) c(2) ct by (auto simp: f'_def)
  have walk: "walk fs_lookup_name (fs_root_ino f') ps f' = walk fs_lookup_name (fs_root_ino f) ps f" for ps
    using fsd.walk_write fsd.root_write by (simp add: f'_def)
  note res = create_child [OF inv n p no r(1) cr, of v'] 
  have new: "resolve_path (p @ CHR ''/'' # n) v' = (Some r, i_ino c)" "resolve_path (p @ CHR ''/'' # n) v = (Some r, - 2)"
    "0 < i_ino c" "resolve_path (dir_of p) v' = (Some r, ino)" using res st(1) walk by (simp_all add: v')
  have inv': "vfs_inv v'" using vfs_inv_create [OF inv, of "p @ CHR ''/'' # n" content] created by simp
  have "fs_lookup_name ino n f \<noteq> None" using fsd.create_children(1) [OF st(2) cr] by simp
  then have "fs_lookup_name ino n f' \<noteq> None"
    using fsd.lookup_name_write [of ino n "i_ino c" 0 content f] by (auto simp: f'_def)
  then have "fs_create ino n FILE f' = (Inl FileExistsError, f')" by (rule create_again)
  then have "create_file (p @ CHR ''/'' # n) content' v' = (False, v')"
    using new(4) r(2) st(1) set_store_same [of r v']
    by (simp add: create_file_def parent_base [OF n]) (simp add: v')
  with new i ct inv' st(1) show ?thesis
    by (simp add: vfs_stat_def read_path_def v' fsd.read_file [OF i] py_slice_nonneg [of 0, simplified])
qed

theorem create_then_read_witness:
  "read_path ''/etc/motd'' 1 (fold vfs_step two_mounts vfs_init) = Some [104]"
proof -
  let ?v = "fold vfs_step [VNewTmpfs, VNewTmpfs, VMount ''/'' 0 ''tmpfs'', VMount ''/dev'' 1 ''dev'', VMkdir ''/etc''] vfs_init"
  have f: "fst (create_file ''/etc/motd'' [104, 105] ?v)" and m: "map mp_path (vfs_mounts ?v) = [''/dev'', ''/'']" by code_simp+
  have "component ''motd''" "absolute ''/etc''" by code_simp+
  moreover have "vfs_inv ?v" by (rule vfsm.inv_run) simp
  moreover have "create_file (''/etc'' @ CHR ''/'' # ''motd'') [104, 105] ?v = (True, snd (create_file ''/etc/motd'' [104, 105] ?v))"
    using f by (simp add: prod_eq_iff)
  moreover have "\<forall>mp \<in> set (vfs_mounts ?v). mp_path mp \<noteq> ''/etc'' @ CHR ''/'' # ''motd''"
  proof
    fix mp assume "mp \<in> set (vfs_mounts ?v)"
    then have "mp_path mp \<in> set (map mp_path (vfs_mounts ?v))" by simp
    then show "mp_path mp \<noteq> ''/etc'' @ CHR ''/'' # ''motd''" unfolding m by auto
  qed
  ultimately have "0 \<le> (1::int) \<longrightarrow> read_path (''/etc'' @ CHR ''/'' # ''motd'') 1 (snd (create_file ''/etc/motd'' [104, 105] ?v))
      = Some (take (nat 1) [104, 105])"
    using create_then_read [of ?v "''motd''" "''/etc''" "[104, 105]" _ 1] by blast
  moreover have "snd (create_file ''/etc/motd'' [104, 105] ?v) = fold vfs_step two_mounts vfs_init"
    by (simp only: two_mounts_def fold_simps vfs_step.simps)
  ultimately show ?thesis by (simp only:) simp
qed

text \<open>Making a directory works end to end: when it succeeds, the path named nothing before and
  afterwards names an empty directory; making it again fails, and a file can be created in it and
  read back.\<close>
theorem mkdir_then_use:
  assumes inv: "vfs_inv v" and n: "component n" and p: "p = [] \<or> absolute p"
    and no: "\<forall>mp \<in> set (vfs_mounts v). mp_path mp \<noteq> p @ CHR ''/'' # n"
    and made: "vfs_mkdir (p @ CHR ''/'' # n) v = (True, v')"
  shows "vfs_stat (p @ CHR ''/'' # n) v = None \<and> vfs_inv v'
    \<and> (\<exists>i. vfs_stat (p @ CHR ''/'' # n) v' = Some i \<and> i_itype i = DIR
         \<and> vfs_readdir (p @ CHR ''/'' # n) v' = [(''.'', i_ino i), (''..'', i_ino i)])
    \<and> vfs_mkdir (p @ CHR ''/'' # n) v' = (False, v')
    \<and> (component m \<longrightarrow> fst (create_file ((p @ CHR ''/'' # n) @ CHR ''/'' # m) content v'))"
proof -
  obtain r ino c f where r: "resolve_path (dir_of p) v = (Some r, ino)" "\<not> ino < 0"
    and cr: "fs_create ino n DIR (store v r) = (Inr c, f)" and v': "v' = set_store r f v"
    using made by (auto simp: vfs_mkdir_def parent_base [OF n] fs_mkdir_create
        split: prod.splits option.splits if_splits sum.splits)
  note st = resolve_store [OF inv r(1)]
  have c: "c = new_inode (i_ino c) DIR 420" "fs_lookup (i_ino c) f = Some c"
    using fsd.create_Inr [OF st(2) cr] by blast+
  have ct: "i_itype c = DIR" "i_children c = []" by (subst c(1), simp add: new_inode_def)+
  note res = create_child [OF inv n p no r(1) cr, of v']
  have new: "resolve_path (p @ CHR ''/'' # n) v' = (Some r, i_ino c)" "resolve_path (p @ CHR ''/'' # n) v = (Some r, - 2)"
    "0 < i_ino c" "resolve_path (dir_of p) v' = (Some r, ino)" using res st(1) by (simp_all add: v')
  have inv': "vfs_inv v'" using vfs_inv_mkdir [OF inv, of "p @ CHR ''/'' # n"] made by simp
  have rd: "fs_readdir (i_ino c) f = [(''.'', i_ino c), (''..'', i_ino c)]"
    using c(2) ct by (cases f) (auto simp: tm_readdir_def ex_readdir_def tm_lookup_def ex_lookup_def)
  have "fs_lookup_name ino n f \<noteq> None" using fsd.create_children(1) [OF st(2) cr] by simp
  then have "fs_create ino n DIR f = (Inl FileExistsError, f)" by (rule create_again)
  then have again: "vfs_mkdir (p @ CHR ''/'' # n) v' = (False, v')"
    using new(4) r(2) st(1) set_store_same [of r v']
    by (simp add: vfs_mkdir_def parent_base [OF n] fs_mkdir_create) (simp add: v')
  have "fst (create_file ((p @ CHR ''/'' # n) @ CHR ''/'' # m) content v')" if m: "component m"
  proof -
    have "parent_path ((p @ CHR ''/'' # n) @ CHR ''/'' # m) = p @ CHR ''/'' # n"
      "base_name ((p @ CHR ''/'' # n) @ CHR ''/'' # m) = m"
      using parent_base [OF m, of "p @ CHR ''/'' # n"] by (simp_all add: dir_of_def)
    moreover have "fs_inv f" using fs_create_inv' [OF cr st(2)] .
    from fsd.create_new [OF this c(2) ct(1), of m FILE] ct(2)
    obtain c' f' where "fs_create (i_ino c) m FILE f = (Inr c', f')" by auto
    ultimately show ?thesis using new st(1) by (simp add: create_file_def v' Let_def)
  qed
  with new c(2) ct again inv' st(1) rd show ?thesis
    by (auto simp: vfs_stat_def vfs_readdir_def v')
qed

theorem mkdir_then_use_witness:
  "map fst (vfs_readdir ''/etc'' (snd (vfs_mkdir ''/etc''
     (fold vfs_step [VNewTmpfs, VMount ''/'' 0 ''tmpfs''] vfs_init)))) = [''.'', ''..'']"
proof -
  let ?v = "fold vfs_step [VNewTmpfs, VMount ''/'' 0 ''tmpfs''] vfs_init"
  have f: "fst (vfs_mkdir ''/etc'' ?v)" and m: "map mp_path (vfs_mounts ?v) = [''/'']" by code_simp+
  have comp: "component ''etc''" by code_simp
  have inv: "vfs_inv ?v" by (rule vfsm.inv_run) simp
  have mk: "vfs_mkdir ([] @ CHR ''/'' # ''etc'') ?v = (True, snd (vfs_mkdir ''/etc'' ?v))"
    using f by (simp add: prod_eq_iff)
  have no: "\<forall>mp \<in> set (vfs_mounts ?v). mp_path mp \<noteq> [] @ CHR ''/'' # ''etc''"
  proof
    fix mp assume "mp \<in> set (vfs_mounts ?v)"
    then have "mp_path mp \<in> set (map mp_path (vfs_mounts ?v))" by simp
    then show "mp_path mp \<noteq> [] @ CHR ''/'' # ''etc''" unfolding m by auto
  qed
  obtain i :: inode where "vfs_readdir ''/etc'' (snd (vfs_mkdir ''/etc'' ?v)) = [(''.'', i_ino i), (''..'', i_ino i)]"
    using mkdir_then_use [OF inv comp disjI1 [OF refl] no mk, where m = "[]" and content = "[]", unfolded append_Nil] by blast
  then show ?thesis by (simp only: list.map fst_conv)
qed

text \<open>C8: A descriptor open on a regular file writes at its own position: the write reports the
  full length, splices the data into the file and advances this position only; no other
  descriptor moves, and one at the same place of the same file then reads exactly these bytes.\<close>
theorem descriptor_write_read:
  assumes inv: "vfs_inv v" and f: "map_of (vfs_open_files v) fd = Some f"
    and g: "map_of (vfs_open_files v) fd' = Some g" "fd' \<noteq> fd" "of_path g = of_path f" "of_ino g = of_ino f"
    "of_position g = of_position f"
    and r: "resolve_path (of_path f) v = (Some r, k)" and i: "fs_lookup (of_ino f) (store v r) = Some i" "i_itype i = FILE"
    and data: "data \<noteq> []"
  shows "\<exists>v'. vfs_write fd data v = (int (length data), v')
    \<and> map_of (vfs_open_files v') = (map_of (vfs_open_files v))
        (fd \<mapsto> f\<lparr>of_position := of_position f + int (length data)\<rparr>)
    \<and> (\<exists>i'. fs_lookup (of_ino f) (store v' r) = Some i' \<and> i_data i' = splice (of_position f) data (i_data i))
    \<and> fst (vfs_read fd' (int (length data)) v') = data"
proof -
  obtain n f1 where w: "fs_write (of_ino f) (of_position f) data (store v r) = (n, f1)" by fastforce
  note wf = fsd.write_file [OF i, of "of_position f" data, unfolded w, simplified]
  have pos: "0 \<le> of_position f" using inv f by (simp add: vfs_inv_def)
  have rl: "r < length (vfs_stores v)" by (rule resolve_store(1) [OF inv r])
  define v' where "v' = (set_store r f1 v)\<lparr>vfs_open_files := AList.update fd
    (f\<lparr>of_position := of_position f + int (length data)\<rparr>) (vfs_open_files v)\<rparr>"
  have "vfs_write fd data v = (int (length data), v')"
    using f r w wf data by (simp add: vfs_write_def Let_def v'_def)
  moreover have "vfs_stores v' ! r = f1" using rl by (simp add: v'_def)
  moreover have "fst (resolve_path (of_path f) v') = Some r"
    using r resolve_fst [of "of_path f" v] by (simp add: resolve_fst v'_def)
  moreover have "fs_read (of_ino f) (of_position f) (int (length data)) f1 = data"
    using fsd.read_back [OF i pos, of data] w by simp
  ultimately show ?thesis
    using wf g by (cases "resolve_path (of_path f) v'") (auto simp: vfs_read_def Let_def v'_def)
qed

theorem descriptor_write_read_witness:
  "fst (vfs_read 4 2 (snd (vfs_write 3 [7, 8] (fold vfs_step (two_mounts @ [VOpen ''/etc/motd'' ''rw'',
     VOpen ''/etc/motd'' ''r'']) vfs_init)))) = [7, 8]"
proof -
  let ?v = "fold vfs_step (two_mounts @ [VOpen ''/etc/motd'' ''rw'', VOpen ''/etc/motd'' ''r'']) vfs_init"
  have inv: "vfs_inv ?v" by (rule vfsm.inv_run) simp
  have f: "map_of (vfs_open_files ?v) 3 = Some \<lparr>of_fd = 3, of_path = ''/etc/motd'', of_ino = 3, of_flags = ''rw'',
      of_position = 0, of_fs_name = ''tmpfs''\<rparr>" by code_simp
  have g: "map_of (vfs_open_files ?v) 4 = Some \<lparr>of_fd = 4, of_path = ''/etc/motd'', of_ino = 3, of_flags = ''r'',
      of_position = 0, of_fs_name = ''tmpfs''\<rparr>" by code_simp
  have r: "resolve_path ''/etc/motd'' ?v = (Some 0, 3)" by code_simp
  have i: "fs_lookup 3 (store ?v 0) = Some (new_inode 3 FILE 420\<lparr>i_size := 2, i_data := [104, 105]\<rparr>)" by code_simp
  have ty: "i_itype (new_inode 3 FILE 420\<lparr>i_size := 2, i_data := [104, 105]\<rparr>) = FILE" by (simp add: new_inode_def)
  define v where "v = ?v"
  note facts = inv f g r i
  from descriptor_write_read [OF facts(1-3) _ _ _ _ _ _ ty, of 0 3 "[7, 8]", folded v_def]
    facts [folded v_def] have "fst (vfs_read 4 2 (snd (vfs_write 3 [7, 8] v))) = [7, 8]" by fastforce
  then show ?thesis by (simp only: v_def)
qed

lemma create_in_directory:
  assumes "vfs_inv v" "resolve_path path v = (Some r, ino)" "fs_lookup ino (store v r) = Some i" "i_itype i = DIR"
    and "fst (fs_create ino m FILE (store v r)) = Inl e"
  shows "e = FileExistsError"
  using fsd.create_new [OF resolve_store(2) [OF assms(1,2)] assms(3,4), of m FILE]
    fsd.create_exists [OF assms(3,4), of m FILE] assms(5)
  by (cases "map_of (i_children i) m") auto

lemma open_returns:
  assumes "vfs_inv v"
  shows "\<exists>fd. fst (vfs_open path flags v) = Inr fd"
  using create_in_directory [OF assms]
  by (auto simp: vfs_open_def vfs_add_open_def Let_def split: prod.split option.split sum.split pyexn.split) (metis fst_conv pyexn.distinct)+

text \<open>C14: Descriptors are never reused and opening never raises: from every reachable state, an open
  returns either ENOENT, leaving the table of open files alone, or a descriptor of at least 3 that
  is not open, under which the file is then filed at position 0 (at its end for an append); every
  descriptor in use lies below the next one.\<close>
theorem open_gives_fresh_descriptor:
  assumes "reaches vfs_step vfs_init v"
  shows "fst (vfs_open path flags v) = Inr (- 2) \<and> snd (vfs_open path flags v) = v
    \<or> (\<exists>fd f v'. vfs_open path flags v = (Inr fd, v') \<and> 3 \<le> fd \<and> map_of (vfs_open_files v) fd = None
        \<and> map_of (vfs_open_files v') = (map_of (vfs_open_files v))(fd \<mapsto> f) \<and> of_path f = path
        \<and> (CHR ''a'' \<notin> set flags \<longrightarrow> of_position f = 0) \<and> vfs_next_fd v' = fd + 1)"
proof -
  have inv: "vfs_inv v" by (rule vfsm.inv_reachable [OF assms])
  have fresh: "map_of (vfs_open_files v) (vfs_next_fd v) = None" "3 \<le> vfs_next_fd v"
    using inv unfolding vfs_inv_def by (metis less_irrefl not_None_eq, blast)
  have add: "\<exists>fd f v'. vfs_add_open path flags i ty w = (Inr fd, v') \<and> 3 \<le> fd \<and> map_of (vfs_open_files v) fd = None
        \<and> map_of (vfs_open_files v') = (map_of (vfs_open_files v))(fd \<mapsto> f) \<and> of_path f = path
        \<and> (CHR ''a'' \<notin> set flags \<longrightarrow> of_position f = 0) \<and> vfs_next_fd v' = fd + 1"
    if "vfs_open_files w = vfs_open_files v" "vfs_next_fd w = vfs_next_fd v" for i ty w
    using fresh that
    by (intro exI [of _ "vfs_next_fd v"] exI [of _ "\<lparr>of_fd = vfs_next_fd v, of_path = path, of_ino = i_ino i, of_flags = flags,
        of_position = (if CHR ''a'' \<in> set flags then i_size i else 0), of_fs_name = ty\<rparr>"]
      exI [of _ "snd (vfs_add_open path flags i ty w)"]) (simp add: vfs_add_open_def Let_def)
  show ?thesis
  proof (cases "resolve_path path v")
    case (Pair ro ino)
    show ?thesis
    proof (cases "ro = None \<or> ino < 0 \<or> fs_lookup ino (store v (the ro)) = None")
      case True
      with Pair show ?thesis by (auto simp: vfs_open_def split: option.splits)
    next
      case False
      then obtain r i where r: "ro = Some r" and ino: "\<not> ino < 0" and i: "fs_lookup ino (store v r) = Some i" by auto
      note nv = create_in_directory [OF inv Pair [unfolded r] i]
      show ?thesis
      proof (cases "(CHR ''w'' \<in> set flags \<or> CHR ''a'' \<in> set flags) \<and> i_itype i = DIR")
        case False
        then have "vfs_open path flags v = vfs_add_open path flags i (fs_type (store v r)) v"
          using Pair r ino i by (auto simp: vfs_open_def)
        then show ?thesis using add by simp
      next
        case True
        obtain res f where cr: "fs_create ino (base_name path) FILE (store v r) = (res, f)" by fastforce
        have "\<exists>j ty. vfs_open path flags v = vfs_add_open path flags j ty (set_store r f v)"
        proof (cases res)
          case (Inl e)
          with nv [of "base_name path" e] True cr have "e = FileExistsError" by auto
          with Inl True Pair r ino i cr show ?thesis by (auto simp: vfs_open_def split: option.splits)
        next
          case (Inr c)
          with True Pair r ino i cr show ?thesis by (auto simp: vfs_open_def)
        qed
        then show ?thesis using add [of "set_store r f v"] by force
      qed
    qed
  qed
qed

theorem open_gives_fresh_descriptor_witness:
  "fst (vfs_open ''/etc/motd'' ''r'' (fold vfs_step two_mounts vfs_init)) = Inr 3"
proof -
  let ?v = "fold vfs_step two_mounts vfs_init"
  have "fst (vfs_open ''/etc/motd'' ''r'' ?v) \<noteq> Inr (- 2)" "vfs_next_fd (snd (vfs_open ''/etc/motd'' ''r'' ?v)) = 4"
    by code_simp+
  with open_gives_fresh_descriptor [OF reaches_fold, of "''/etc/motd''" "''r''" two_mounts] show ?thesis by auto
qed

end
