(* ===== verification/Ipc.thy ===== *)
theory Ipc
  imports Interfaces "HOL-Library.Sublist"
begin

text \<open>
  \<^verbatim>\<open>ipc.py\<close>: pipes over a bounded byte queue, per-process signal tables, and the manager that files
  both. A pipe is reachable under both of its descriptors and mutated through either, so the
  manager keeps the pipe objects in a store and maps descriptors to positions in it.
\<close>

section \<open>Pipes\<close>

record pipe =
  pipe_read_fd :: int
  pipe_write_fd :: int
  pipe_buffer :: bytes
  pipe_write_closed :: bool
  pipe_read_closed :: bool

definition PIPE_BUF :: nat where "PIPE_BUF = 65536"

definition pipe_new :: "int \<Rightarrow> int \<Rightarrow> pipe" where
  "pipe_new r w = \<lparr>pipe_read_fd = r, pipe_write_fd = w, pipe_buffer = [],
     pipe_write_closed = False, pipe_read_closed = False\<rparr>"

definition pipe_write :: "bytes \<Rightarrow> pipe \<Rightarrow> int \<times> pipe" where
  "pipe_write data p =
     (if pipe_write_closed p \<or> pipe_read_closed p then (- 32, p)
      else (int (length data), p\<lparr>pipe_buffer := foldl (deque_append PIPE_BUF) (pipe_buffer p) data\<rparr>))"

definition pipe_read :: "int \<Rightarrow> pipe \<Rightarrow> bytes \<times> pipe" where
  "pipe_read sz p =
     (let (result, q) = popleft_loop (nat (min sz (int (length (pipe_buffer p))))) [] (pipe_buffer p)
      in (result, p\<lparr>pipe_buffer := q\<rparr>))"

definition close_write :: "pipe \<Rightarrow> pipe" where
  "close_write p = p\<lparr>pipe_write_closed := True\<rparr>"

definition close_read :: "pipe \<Rightarrow> pipe" where
  "close_read p = p\<lparr>pipe_read_closed := True\<rparr>"

definition available :: "pipe \<Rightarrow> int" where
  "available p = int (length (pipe_buffer p))"

definition pipe_open :: "pipe \<Rightarrow> bool" where
  "pipe_open p \<longleftrightarrow> \<not> pipe_write_closed p \<and> \<not> pipe_read_closed p \<and> length (pipe_buffer p) \<le> PIPE_BUF"

declare pipe_open_def [wf_defs]

lemma pipe_read_eq:
  "pipe_read sz p = (take (nat sz) (pipe_buffer p), p\<lparr>pipe_buffer := drop (nat sz) (pipe_buffer p)\<rparr>)"
  by (cases "sz \<le> int (length (pipe_buffer p))") (simp_all add: pipe_read_def popleft_loop_eq min_def)

interpretation pipe: bounded_fifo "\<lambda>data p. snd (pipe_write data p)" pipe_read pipe_buffer PIPE_BUF pipe_open
proof unfold_locales
  fix p :: pipe and data n
  assume ok: "pipe_open p"
  then show "length (pipe_buffer p) \<le> PIPE_BUF" by (simp add: pipe_open_def)
  show w: "pipe_buffer (snd (pipe_write data p)) = last_n PIPE_BUF (pipe_buffer p @ data)"
    using ok by (simp add: pipe_write_def pipe_open_def foldl_deque_append)
  show "pipe_open (snd (pipe_write data p))"
    using ok by (simp add: pipe_write_def pipe_open_def foldl_deque_append)
  show "pipe_open (snd (pipe_read n p))" using ok by (simp add: pipe_read_eq pipe_open_def le_trans [OF diff_le_self])
  show "fst (pipe_read n p) = take (nat n) (pipe_buffer p)"
    "pipe_buffer (snd (pipe_read n p)) = drop (nat n) (pipe_buffer p)" by (simp_all add: pipe_read_eq)
qed

section \<open>Signals\<close>

datatype signal = SIGHUP | SIGTERM | SIGKILL | SIGCHLD | SIGUSR1 | SIGUSR2 | SIGSEGV | SIGINT | SIGSTOP

fun signal_value :: "signal \<Rightarrow> int" where
  "signal_value SIGHUP = 1"
| "signal_value SIGTERM = 15"
| "signal_value SIGKILL = 9"
| "signal_value SIGCHLD = 17"
| "signal_value SIGUSR1 = 10"
| "signal_value SIGUSR2 = 12"
| "signal_value SIGSEGV = 11"
| "signal_value SIGINT = 2"
| "signal_value SIGSTOP = 19"

record signal_table =
  sg_pid :: int
  sg_pending :: "signal list"
  sg_blocked :: "signal set"

definition sg_new :: "int \<Rightarrow> signal_table" where
  "sg_new pid = \<lparr>sg_pid = pid, sg_pending = [], sg_blocked = {}\<rparr>"

definition sg_send :: "signal \<Rightarrow> signal_table \<Rightarrow> signal_table" where
  "sg_send s t = (if s \<notin> sg_blocked t \<or> s = SIGKILL \<or> s = SIGSTOP
                  then t\<lparr>sg_pending := sg_pending t @ [s]\<rparr> else t)"

definition sg_has_pending :: "signal_table \<Rightarrow> bool" where
  "sg_has_pending t \<longleftrightarrow> sg_pending t \<noteq> []"

definition sg_next :: "signal_table \<Rightarrow> signal option \<times> signal_table" where
  "sg_next t = (case sg_pending t of s # ss \<Rightarrow> (Some s, t\<lparr>sg_pending := ss\<rparr>) | [] \<Rightarrow> (None, t))"

definition sg_block :: "signal \<Rightarrow> signal_table \<Rightarrow> signal_table" where
  "sg_block s t = t\<lparr>sg_blocked := insert s (sg_blocked t)\<rparr>"

definition sg_unblock :: "signal \<Rightarrow> signal_table \<Rightarrow> signal_table" where
  "sg_unblock s t = t\<lparr>sg_blocked := sg_blocked t - {s}\<rparr>"

section \<open>The manager\<close>

record ipc =
  ipc_objs :: "pipe list"
  ipc_pipes :: "(int, nat) dict"
  ipc_signals :: "(int, signal_table) dict"
  next_pipe_fd :: int

definition ipc_init :: ipc where
  "ipc_init = \<lparr>ipc_objs = [], ipc_pipes = [], ipc_signals = [], next_pipe_fd = 100\<rparr>"

definition create_pipe :: "ipc \<Rightarrow> nat \<times> ipc" where
  "create_pipe m =
     (let r = next_pipe_fd m; w = next_pipe_fd m + 1; ref = length (ipc_objs m)
      in (ref, m\<lparr>next_pipe_fd := next_pipe_fd m + 2, ipc_objs := ipc_objs m @ [pipe_new r w],
                 ipc_pipes := AList.update w ref (AList.update r ref (ipc_pipes m))\<rparr>))"

definition get_pipe :: "int \<Rightarrow> ipc \<Rightarrow> nat option" where
  "get_pipe fd m = map_of (ipc_pipes m) fd"

definition create_signal_table :: "int \<Rightarrow> ipc \<Rightarrow> signal_table \<times> ipc" where
  "create_signal_table pid m = (sg_new pid, m\<lparr>ipc_signals := AList.update pid (sg_new pid) (ipc_signals m)\<rparr>)"

definition send_signal :: "int \<Rightarrow> signal \<Rightarrow> ipc \<Rightarrow> bool \<times> ipc" where
  "send_signal pid s m = (case map_of (ipc_signals m) pid of
     None \<Rightarrow> (False, m)
   | Some t \<Rightarrow> (True, m\<lparr>ipc_signals := AList.update pid (sg_send s t) (ipc_signals m)\<rparr>))"

definition has_pending_signals :: "int \<Rightarrow> ipc \<Rightarrow> bool" where
  "has_pending_signals pid m = (case map_of (ipc_signals m) pid of None \<Rightarrow> False | Some t \<Rightarrow> sg_has_pending t)"

definition next_signal :: "int \<Rightarrow> ipc \<Rightarrow> signal option \<times> ipc" where
  "next_signal pid m = (case map_of (ipc_signals m) pid of
     None \<Rightarrow> (None, m)
   | Some t \<Rightarrow> (let (s, t') = sg_next t in (s, m\<lparr>ipc_signals := AList.update pid t' (ipc_signals m)\<rparr>)))"

text \<open>Calls on the pipe or the signal table that the manager handed out.\<close>

definition pipe_at :: "nat \<Rightarrow> (pipe \<Rightarrow> pipe) \<Rightarrow> ipc \<Rightarrow> ipc" where
  "pipe_at ref f m = m\<lparr>ipc_objs := (ipc_objs m)[ref := f (ipc_objs m ! ref)]\<rparr>"

definition signals_at :: "int \<Rightarrow> (signal_table \<Rightarrow> signal_table) \<Rightarrow> ipc \<Rightarrow> ipc" where
  "signals_at pid f m = m\<lparr>ipc_signals := dict_modify pid f (ipc_signals m)\<rparr>"

section \<open>Invariant of the manager\<close>

text \<open>Descriptors come in even/odd pairs below the next one, and each names the pipe it belongs to.\<close>

definition ipc_inv :: "ipc \<Rightarrow> bool" where
  "ipc_inv m \<longleftrightarrow> next_pipe_fd m = 100 + 2 * int (length (ipc_objs m))
     \<and> (\<forall>i < length (ipc_objs m). pipe_read_fd (ipc_objs m ! i) = 100 + 2 * int i
          \<and> pipe_write_fd (ipc_objs m ! i) = 101 + 2 * int i \<and> length (pipe_buffer (ipc_objs m ! i)) \<le> PIPE_BUF
          \<and> map_of (ipc_pipes m) (100 + 2 * int i) = Some i \<and> map_of (ipc_pipes m) (101 + 2 * int i) = Some i)
     \<and> (\<forall>fd r. map_of (ipc_pipes m) fd = Some r \<longrightarrow> r < length (ipc_objs m)
          \<and> (fd = 100 + 2 * int r \<or> fd = 101 + 2 * int r))"

declare ipc_inv_def [wf_defs]

datatype pipe_op = PWrite bytes | PRead int | PCloseWrite | PCloseRead

fun pipe_step :: "pipe_op \<Rightarrow> pipe \<Rightarrow> pipe" where
  "pipe_step (PWrite data) p = snd (pipe_write data p)"
| "pipe_step (PRead n) p = snd (pipe_read n p)"
| "pipe_step PCloseWrite p = close_write p"
| "pipe_step PCloseRead p = close_read p"

datatype ipc_op =
    ICreatePipe
  | IPipe int pipe_op
  | ICreateTable int
  | ISend int signal
  | INext int
  | IBlock int signal
  | IUnblock int signal

fun ipc_step :: "ipc_op \<Rightarrow> ipc \<Rightarrow> ipc" where
  "ipc_step ICreatePipe m = snd (create_pipe m)"
| "ipc_step (IPipe fd a) m = (case get_pipe fd m of None \<Rightarrow> m | Some r \<Rightarrow> pipe_at r (pipe_step a) m)"
| "ipc_step (ICreateTable pid) m = snd (create_signal_table pid m)"
| "ipc_step (ISend pid s) m = snd (send_signal pid s m)"
| "ipc_step (INext pid) m = snd (next_signal pid m)"
| "ipc_step (IBlock pid s) m = signals_at pid (sg_block s) m"
| "ipc_step (IUnblock pid s) m = signals_at pid (sg_unblock s) m"

lemma pipe_step_fds [simp]:
  "pipe_read_fd (pipe_step a p) = pipe_read_fd p" "pipe_write_fd (pipe_step a p) = pipe_write_fd p"
  by (cases a; simp add: pipe_write_def pipe_read_eq close_write_def close_read_def)+

lemma pipe_step_bound [simp]:
  "length (pipe_buffer p) \<le> PIPE_BUF \<Longrightarrow> length (pipe_buffer (pipe_step a p)) \<le> PIPE_BUF"
  by (cases a) (simp_all add: pipe_write_def pipe_read_eq close_write_def close_read_def foldl_deque_append)

lemma ipc_inv_pipe_at:
  assumes "ipc_inv m" "r < length (ipc_objs m)"
  shows "ipc_inv (pipe_at r (pipe_step a) m)"
proof -
  have "P (ipc_objs m ! r) \<Longrightarrow> P (pipe_step a (ipc_objs m ! r)) \<Longrightarrow> i < length (ipc_objs m) \<Longrightarrow> P (ipc_objs m ! i)
     \<Longrightarrow> P ((ipc_objs m)[r := pipe_step a (ipc_objs m ! r)] ! i)" for P i
    by (cases "i = r") auto
  then show ?thesis
    using assms by (auto simp: ipc_inv_def pipe_at_def nth_list_update)
qed

lemma ipc_signals_irrelevant [simp]:
  "ipc_inv (m\<lparr>ipc_signals := t\<rparr>) = ipc_inv m"
  by (simp add: ipc_inv_def)

lemma ipc_inv_create: "ipc_inv m \<Longrightarrow> ipc_inv (snd (create_pipe m))"
proof -
  assume inv: "ipc_inv m"
  let ?m = "snd (create_pipe m)" and ?n = "length (ipc_objs m)"
  have objs: "ipc_objs ?m = ipc_objs m @ [pipe_new (100 + 2 * int ?n) (101 + 2 * int ?n)]"
    and fd: "next_pipe_fd ?m = 100 + 2 * int (Suc ?n)"
    and pipes: "map_of (ipc_pipes ?m) = (map_of (ipc_pipes m))(100 + 2 * int ?n \<mapsto> ?n, 101 + 2 * int ?n \<mapsto> ?n)"
    using inv by (simp_all add: ipc_inv_def create_pipe_def Let_def)
  have "map_of (ipc_pipes ?m) (100 + 2 * int i) = Some i \<and> map_of (ipc_pipes ?m) (101 + 2 * int i) = Some i
      \<and> pipe_read_fd (ipc_objs ?m ! i) = 100 + 2 * int i \<and> pipe_write_fd (ipc_objs ?m ! i) = 101 + 2 * int i
      \<and> length (pipe_buffer (ipc_objs ?m ! i)) \<le> PIPE_BUF" if "i < Suc ?n" for i
  proof (cases "i = ?n")
    case True
    then show ?thesis by (simp add: objs pipes pipe_new_def)
  next
    case False
    moreover from this have "100 + 2 * int i \<noteq> 101 + 2 * int ?n" "101 + 2 * int i \<noteq> 100 + 2 * int ?n" by presburger+
    ultimately show ?thesis using inv that by (simp add: objs pipes ipc_inv_def nth_append)
  qed
  moreover have "r < Suc ?n \<and> (fd = 100 + 2 * int r \<or> fd = 101 + 2 * int r)"
    if "map_of (ipc_pipes ?m) fd = Some r" for fd r
    using inv that by (auto simp: pipes ipc_inv_def less_Suc_eq split: if_splits)
  ultimately show ?thesis by (simp add: ipc_inv_def fd) (simp add: objs)
qed

interpretation ipcm: machine ipc_init ipc_step ipc_inv
proof unfold_locales
  show "ipc_inv ipc_init" by (simp add: ipc_inv_def ipc_init_def)
  show "ipc_inv (ipc_step e m)" if inv: "ipc_inv m" for e m
  proof (cases e)
    case (IPipe fd a)
    show ?thesis
    proof (cases "get_pipe fd m")
      case (Some r)
      then have "r < length (ipc_objs m)" using inv by (simp add: ipc_inv_def get_pipe_def)
      with Some IPipe show ?thesis by (simp add: ipc_inv_pipe_at [OF inv])
    qed (use IPipe inv in simp)
  qed (use inv in \<open>auto simp: ipc_inv_create create_signal_table_def send_signal_def next_signal_def signals_at_def
      split: option.splits prod.splits\<close>)
qed

section \<open>Properties\<close>

text \<open>The run of a sequence of operations on one pipe, with the bytes its writers were told were
  accepted and the bytes its readers received.\<close>

fun pipe_run :: "pipe_op list \<Rightarrow> pipe \<Rightarrow> bytes \<times> bytes \<times> pipe" where
  "pipe_run [] p = ([], [], p)"
| "pipe_run (a # as) p =
     (let (sent, got, p') = pipe_run as (pipe_step a p) in
      case a of
        PWrite data \<Rightarrow> (take (nat (fst (pipe_write data p))) data @ sent, got, p')
      | PRead n \<Rightarrow> (sent, fst (pipe_read n p) @ got, p')
      | _ \<Rightarrow> (sent, got, p'))"

lemma write_accepts:
  "take (nat (fst (pipe_write data p))) data
     = (if pipe_write_closed p \<or> pipe_read_closed p then [] else data)"
  by (simp add: pipe_write_def)

lemma last_n_subseq: "subseq (last_n n xs) xs"
  by (simp add: last_n_def suffix_drop suffix_imp_subseq)

lemma pipe_run_subseq:
  assumes "length (pipe_buffer p) \<le> PIPE_BUF" and "pipe_run as p = (sent, got, p')"
  shows "subseq (got @ pipe_buffer p') (pipe_buffer p @ sent) \<and> length (pipe_buffer p') \<le> PIPE_BUF"
  using assms
proof (induction as arbitrary: p sent got)
  case (Cons a as)
  obtain sent1 got1 where run: "pipe_run as (pipe_step a p) = (sent1, got1, p')"
    using Cons.prems(2) by (cases "pipe_run as (pipe_step a p)") (auto split: pipe_op.splits)
  have IH: "subseq (got1 @ pipe_buffer p') (pipe_buffer (pipe_step a p) @ sent1)" "length (pipe_buffer p') \<le> PIPE_BUF"
    using Cons.IH [OF pipe_step_bound [OF Cons.prems(1)] run] by auto
  show ?case
  proof (cases a)
    case (PWrite data)
    have "subseq (pipe_buffer (pipe_step a p)) (pipe_buffer p @ (if pipe_write_closed p \<or> pipe_read_closed p then [] else data))"
      using Cons.prems(1) PWrite by (simp add: pipe_write_def foldl_deque_append last_n_subseq)
    then have "subseq (pipe_buffer (pipe_step a p) @ sent1) (pipe_buffer p @ sent)"
      using Cons.prems(2) run PWrite
      by (auto simp: write_accepts list_emb_append_mono split: if_splits) (metis append.assoc list_emb_append_mono subseq_order.order_refl)
    with IH show ?thesis using Cons.prems(2) run PWrite subseq_order.order_trans by auto
  next
    case (PRead n)
    then have "got = take (nat n) (pipe_buffer p) @ got1" "sent = sent1"
      using Cons.prems(2) run by (auto simp: pipe_read_eq)
    moreover have "subseq (got1 @ pipe_buffer p') (drop (nat n) (pipe_buffer p) @ sent1)"
      using IH(1) PRead by (simp add: pipe_read_eq)
    then have "subseq (take (nat n) (pipe_buffer p) @ got1 @ pipe_buffer p')
        (take (nat n) (pipe_buffer p) @ drop (nat n) (pipe_buffer p) @ sent1)"
      by (rule list_emb_append_mono [OF subseq_order.order_refl])
    then have "subseq ((take (nat n) (pipe_buffer p) @ got1) @ pipe_buffer p') (pipe_buffer p @ sent1)"
      by (metis append.assoc append_take_drop_id)
    ultimately show ?thesis using IH(2) by simp
  qed (use IH Cons.prems(2) run in \<open>auto simp: close_write_def close_read_def\<close>)
qed simp

text \<open>C27: A pipe neither invents, duplicates nor reorders bytes: over any sequence of writes, reads and
  closes on a fresh pipe, what was read followed by what is still buffered is a subsequence of what
  the writes accepted, and all of it as long as nothing was lost. At most 65536 bytes are buffered.\<close>
theorem pipe_stream_integrity:
  assumes "pipe_run as (pipe_new r w) = (sent, got, p)"
  shows "subseq (got @ pipe_buffer p) sent \<and> length (pipe_buffer p) \<le> PIPE_BUF
    \<and> (length got + length (pipe_buffer p) = length sent \<longrightarrow> got @ pipe_buffer p = sent)"
  using pipe_run_subseq [of "pipe_new r w" as sent got p] assms
  by (auto simp: pipe_new_def dest: subseq_same_length)

theorem pipe_stream_integrity_witness:
  "fst (snd (pipe_run [PWrite [1, 2, 3], PRead 2, PCloseWrite, PWrite [4], PRead 9] (pipe_new 100 101))) = [1, 2, 3]"
proof -
  have "pipe_run [PWrite [1, 2, 3], PRead 2, PCloseWrite, PWrite [4], PRead 9] (pipe_new 100 101)
    = ([1, 2, 3], [1, 2, 3], \<lparr>pipe_read_fd = 100, pipe_write_fd = 101, pipe_buffer = [],
        pipe_write_closed = True, pipe_read_closed = False\<rparr>)"
    by (simp add: pipe_write_def pipe_read_eq pipe_new_def close_write_def deque_append_def PIPE_BUF_def)
  from pipe_stream_integrity [OF this] this show ?thesis by simp
qed

text \<open>C28: Writing to an open pipe never fails and always reports the full length, but past 65536
  buffered bytes the oldest are lost: afterwards the pipe holds the last 65536 bytes of the old
  content followed by the new. Once either end is closed a write returns EPIPE and changes nothing,
  and what is buffered can still be read.\<close>
theorem pipe_write_spec:
  assumes "length (pipe_buffer p) \<le> PIPE_BUF"
  shows "pipe_write data p =
    (if pipe_write_closed p \<or> pipe_read_closed p then (- 32, p)
     else (int (length data), p\<lparr>pipe_buffer := last_n PIPE_BUF (pipe_buffer p @ data)\<rparr>))
    \<and> pipe_read n (close_write p)
      = (take (nat n) (pipe_buffer p), close_write (p\<lparr>pipe_buffer := drop (nat n) (pipe_buffer p)\<rparr>))"
  using assms by (simp add: pipe_write_def foldl_deque_append pipe_read_eq close_write_def)

theorem pipe_write_spec_witness:
  "pipe_write [1, 2] (pipe_new 100 101) = (2, (pipe_new 100 101)\<lparr>pipe_buffer := [1, 2]\<rparr>)"
  using pipe_write_spec [of "pipe_new 100 101" "[1, 2]"] by (simp add: pipe_new_def PIPE_BUF_def)

text \<open>The manager's descriptors never clash: after any sequence of operations a descriptor names
  at most one pipe, is its read or its write end, and both ends of a pipe lead to the same object;
  creating a pipe returns two descriptors that named nothing before.\<close>
theorem pipe_descriptors_unique:
  assumes "reaches ipc_step ipc_init m" and "create_pipe m = (ref, m')"
  shows "(\<forall>fd r. get_pipe fd m = Some r \<longrightarrow>
        get_pipe (pipe_read_fd (ipc_objs m ! r)) m = Some r \<and> get_pipe (pipe_write_fd (ipc_objs m ! r)) m = Some r
        \<and> (fd = pipe_read_fd (ipc_objs m ! r) \<or> fd = pipe_write_fd (ipc_objs m ! r)))
    \<and> get_pipe (pipe_read_fd (ipc_objs m' ! ref)) m = None \<and> get_pipe (pipe_write_fd (ipc_objs m' ! ref)) m = None
    \<and> get_pipe (pipe_read_fd (ipc_objs m' ! ref)) m' = Some ref
    \<and> get_pipe (pipe_write_fd (ipc_objs m' ! ref)) m' = Some ref"
proof -
  have inv: "ipc_inv m" "ipc_inv m'"
    using ipcm.inv_reachable [OF assms(1)] ipc_inv_create [of m] assms(2) by auto
  have ref: "ref = length (ipc_objs m)" "ref < length (ipc_objs m')"
    using assms(2) by (auto simp: create_pipe_def Let_def)
  have "get_pipe fd m = None" if "fd = 100 + 2 * int ref \<or> fd = 101 + 2 * int ref" for fd
  proof (cases "get_pipe fd m")
    case (Some r)
    then have "r < ref" "fd = 100 + 2 * int r \<or> fd = 101 + 2 * int r"
      using inv(1) ref(1) unfolding ipc_inv_def get_pipe_def by blast+
    moreover from this that have "int r = int ref" by presburger
    ultimately show ?thesis by simp
  qed
  then show ?thesis
    using inv ref(2) by (auto simp: ipc_inv_def get_pipe_def)
qed

theorem pipe_descriptors_unique_witness:
  "get_pipe 102 (snd (create_pipe (snd (create_pipe ipc_init)))) = Some 1"
proof -
  have "create_pipe (fold ipc_step [ICreatePipe] ipc_init) = (1, snd (create_pipe (snd (create_pipe ipc_init))))"
    by code_simp
  from pipe_descriptors_unique [OF reaches_fold this]
  have "get_pipe (pipe_read_fd (ipc_objs (snd (create_pipe (snd (create_pipe ipc_init)))) ! 1))
    (snd (create_pipe (snd (create_pipe ipc_init)))) = Some 1" by blast
  moreover have "pipe_read_fd (ipc_objs (snd (create_pipe (snd (create_pipe ipc_init)))) ! 1) = 102" by code_simp
  ultimately show ?thesis by simp
qed

text \<open>Signals reach exactly the process they name, in the order sent; SIGKILL and SIGSTOP get
  through any mask, while any other signal sent while it is blocked is dropped, so that unblocking
  it does not bring it back.\<close>
theorem signal_delivery:
  assumes "map_of (ipc_signals m) pid = Some t"
  shows "send_signal pid s m = (True, m\<lparr>ipc_signals := AList.update pid (sg_send s t) (ipc_signals m)\<rparr>)
    \<and> (q \<noteq> pid \<longrightarrow> has_pending_signals q (snd (send_signal pid s m)) = has_pending_signals q m)
    \<and> sg_pending (sg_send s t) = (if s \<in> sg_blocked t \<and> s \<notin> {SIGKILL, SIGSTOP} then sg_pending t else sg_pending t @ [s])
    \<and> (s \<notin> {SIGKILL, SIGSTOP} \<longrightarrow> sg_pending (sg_unblock s (sg_send s (sg_block s t))) = sg_pending t)
    \<and> (\<forall>x xs. sg_pending t = x # xs \<longrightarrow> fst (next_signal pid (snd (send_signal pid s m))) = Some x)"
  using assms by (auto simp: send_signal_def has_pending_signals_def sg_send_def sg_unblock_def sg_block_def
      next_signal_def sg_next_def split: prod.splits list.splits)

theorem signal_delivery_witness:
  "fst (send_signal 2 SIGTERM (snd (create_signal_table 2 ipc_init)))"
  using signal_delivery [of "snd (create_signal_table 2 ipc_init)" 2 "sg_new 2" SIGTERM]
  by (simp add: create_signal_table_def ipc_init_def)

end
