(* ===== verification/Syscalls.thy ===== *)
theory Syscalls
  imports Processes Virtual_Memory Vfs Ipc
begin

text \<open>
  \<^verbatim>\<open>syscall.py\<close>: the fourteen system calls over the process table, the VFS and the virtual memory
  manager, and their dispatch from a register context or from positional arguments. Python checks no
  annotation, so arguments are dynamically typed and a handler that meets a value of the wrong type
  raises; the state then is the one reached when it raises.
\<close>

section \<open>State and arguments\<close>

definition EPERM :: int where "EPERM = 1"
definition ENOENT :: int where "ENOENT = 2"
definition ESRCH :: int where "ESRCH = 3"
definition EBADF :: int where "EBADF = 9"
definition ENOMEM :: int where "ENOMEM = 12"
definition EINVAL :: int where "EINVAL = 22"
definition ENOSYS :: int where "ENOSYS = 38"

lemmas errno_defs = EPERM_def ENOENT_def ESRCH_def EBADF_def ENOMEM_def EINVAL_def ENOSYS_def

record syscall_context =
  sc_nr :: int
  sc_rdi :: int
  sc_rsi :: int
  sc_rdx :: int
  sc_r10 :: int
  sc_r8 :: int
  sc_r9 :: int
  sc_pid :: int
  sc_result :: int
  sc_error :: "int option"

record sys =
  sys_pt :: process_table
  sys_vfs :: vfs
  sys_vmm :: vmm
  sys_brk :: "(int, int) dict"

type_synonym outcome = "int result \<times> sys"

text \<open>The \<open>i\<close>-th argument, or the default of the parameter.\<close>

definition arg :: "nat \<Rightarrow> pyval \<Rightarrow> pyval list \<Rightarrow> pyval" where
  "arg i d args = (if i < length args then args ! i else d)"

text \<open>\<^verbatim>\<open>proc.fdt.get(fd)\<close>: only an integer can be a key.\<close>

fun fd_entry :: "pyval \<Rightarrow> process \<Rightarrow> (int \<times> string \<times> string) option" where
  "fd_entry (VInt fd) p = map_option (Pair fd) (fdt_get fd (p_fdt p))"
| "fd_entry (VStr s) p = None"
| "fd_entry (VBytes b) p = None"

fun get_proc :: "pyval \<Rightarrow> sys \<Rightarrow> process option" where
  "get_proc (VInt i) s = pt_get i (sys_pt s)"
| "get_proc (VStr x) s = None"
| "get_proc (VBytes b) s = None"

definition mod_proc :: "int \<Rightarrow> (process \<Rightarrow> process) \<Rightarrow> sys \<Rightarrow> sys" where
  "mod_proc pid f s = s\<lparr>sys_pt := pt_modify pid f (sys_pt s)\<rparr>"

section \<open>Files\<close>

text \<open>\<^verbatim>\<open>vfs.read(fd, size)\<close> for a size that is not an integer: the slice is evaluated, and raises, only
  when the descriptor leads to a regular file.\<close>

definition reads_file :: "int \<Rightarrow> vfs \<Rightarrow> bool" where
  "reads_file fd v =
     (case map_of (vfs_open_files v) fd of
        None \<Rightarrow> False
      | Some f \<Rightarrow>
         (case resolve_path (of_path f) v of
            (None, _) \<Rightarrow> False
          | (Some r, _) \<Rightarrow>
             (case fs_lookup (of_ino f) (store v r) of None \<Rightarrow> False | Some i \<Rightarrow> i_itype i = FILE)))"

definition sys_read :: "int \<Rightarrow> pyval \<Rightarrow> pyval \<Rightarrow> sys \<Rightarrow> outcome" where
  "sys_read pid fd sz s =
     (case pt_get pid (sys_pt s) of
        None \<Rightarrow> (Inr (- EINVAL), s)
      | Some proc \<Rightarrow>
         (case fd_entry fd proc of
            None \<Rightarrow> (Inr (- EBADF), s)
          | Some (n, _) \<Rightarrow>
             (case sz of
                VInt k \<Rightarrow> (let (data, v) = vfs_read n k (sys_vfs s)
                           in (Inr (int (length data)), s\<lparr>sys_vfs := v\<rparr>))
              | _ \<Rightarrow> if reads_file n (sys_vfs s) then (Inl TypeError, s) else (Inr 0, s))))"

text \<open>\<^verbatim>\<open>len(data) if data else 0\<close>\<close>

fun len_or_zero :: "pyval \<Rightarrow> int result" where
  "len_or_zero (VBytes b) = Inr (int (length b))"
| "len_or_zero (VStr x) = Inr (int (length x))"
| "len_or_zero (VInt i) = (if i = 0 then Inr 0 else Inl TypeError)"

text \<open>\<^verbatim>\<open>data if isinstance(data, bytes) else str(data).encode()\<close>\<close>

fun as_bytes :: "pyval \<Rightarrow> bytes" where
  "as_bytes (VBytes b) = b"
| "as_bytes (VStr x) = py_encode x"
| "as_bytes (VInt i) = py_encode (py_str_int i)"

definition sys_write :: "int \<Rightarrow> pyval \<Rightarrow> pyval \<Rightarrow> sys \<Rightarrow> outcome" where
  "sys_write pid fd data s =
     (case pt_get pid (sys_pt s) of
        None \<Rightarrow> (Inr (- EINVAL), s)
      | Some proc \<Rightarrow>
         if fd = VInt 1 \<or> fd = VInt 2 then (len_or_zero data, s)
         else (case fd_entry fd proc of
                 None \<Rightarrow> (Inr (- EBADF), s)
               | Some (n, _) \<Rightarrow>
                   (let (k, v) = vfs_write n (as_bytes data) (sys_vfs s) in (Inr k, s\<lparr>sys_vfs := v\<rparr>))))"

text \<open>\<^verbatim>\<open>vfs.open(path, flags)\<close> on dynamically typed arguments: resolving a path that is no string raises
  at the first mount, and \<^verbatim>\<open>"w" in flags\<close> raises, once the path has been found, for flags that are
  no string.\<close>

definition finds_inode :: "string \<Rightarrow> vfs \<Rightarrow> bool" where
  "finds_inode path v =
     (case resolve_path path v of
        (None, _) \<Rightarrow> False
      | (Some r, ino) \<Rightarrow> \<not> ino < 0 \<and> fs_lookup ino (store v r) \<noteq> None)"

fun open_dyn :: "pyval \<Rightarrow> pyval \<Rightarrow> vfs \<Rightarrow> (int \<times> string \<times> string) result \<times> vfs" where
  "open_dyn (VStr p) (VStr f) v =
     (case vfs_open p f v of (Inl e, v') \<Rightarrow> (Inl e, v') | (Inr fd, v') \<Rightarrow> (Inr (fd, p, f), v'))"
| "open_dyn (VStr p) _ v = (if finds_inode p v then (Inl TypeError, v) else (Inr (- 2, p, []), v))"
| "open_dyn (VInt i) _ v = (if vfs_mounts v = [] then (Inr (- 2, [], []), v) else (Inl AttributeError, v))"
| "open_dyn (VBytes b) _ v = (if vfs_mounts v = [] then (Inr (- 2, [], []), v) else (Inl TypeError, v))"

definition sys_openat :: "int \<Rightarrow> pyval \<Rightarrow> pyval \<Rightarrow> pyval \<Rightarrow> sys \<Rightarrow> outcome" where
  "sys_openat pid dirfd path flags s =
     (case pt_get pid (sys_pt s) of
        None \<Rightarrow> (Inr (- EINVAL), s)
      | Some proc \<Rightarrow>
         if \<not> truthy path then (Inr (- EINVAL), s)
         else (case open_dyn path flags (sys_vfs s) of
                 (Inl e, v) \<Rightarrow> (Inl e, s\<lparr>sys_vfs := v\<rparr>)
               | (Inr (fd, p, f), v) \<Rightarrow>
                   (let s1 = s\<lparr>sys_vfs := v\<rparr> in
                    if fd < 0 then (Inr fd, s1)
                    else (Inr fd, mod_proc pid (\<lambda>q. q\<lparr>p_fdt := (p_fdt q)\<lparr>fd_entries :=
                            AList.update fd (p, f) (fd_entries (p_fdt q))\<rparr>\<rparr>) s1))))"

definition sys_close :: "int \<Rightarrow> pyval \<Rightarrow> sys \<Rightarrow> outcome" where
  "sys_close pid fd s =
     (case pt_get pid (sys_pt s) of
        None \<Rightarrow> (Inr (- EINVAL), s)
      | Some proc \<Rightarrow>
         (case fd of
            VInt n \<Rightarrow>
              (if \<not> fst (fdt_close n (p_fdt proc)) then (Inr (- EBADF), s)
               else (Inr 0, (mod_proc pid (\<lambda>q. q\<lparr>p_fdt := snd (fdt_close n (p_fdt q))\<rparr>) s)
                              \<lparr>sys_vfs := snd (vfs_close n (sys_vfs s))\<rparr>))
          | _ \<Rightarrow> (Inr (- EBADF), s)))"

section \<open>Memory\<close>

text \<open>\<^verbatim>\<open>start + size\<close> raises for an address that is no integer, after the frames were allocated.\<close>

definition map_dyn :: "int \<Rightarrow> int \<Rightarrow> vmm \<Rightarrow> bool result \<times> vmm" where
  "map_dyn pid sz v =
     (case map_of (address_spaces v) pid of
        None \<Rightarrow> (Inr False, v)
      | Some as \<Rightarrow>
         (let (ps, m) = alloc_pages (pages_needed sz) pid (vmm_pmm v) in
          if ps = [] then (Inr False, v\<lparr>vmm_pmm := m\<rparr>) else (Inl TypeError, v\<lparr>vmm_pmm := m\<rparr>)))"

definition sys_mmap :: "int \<Rightarrow> pyval \<Rightarrow> pyval \<Rightarrow> pyval \<Rightarrow> pyval \<Rightarrow> sys \<Rightarrow> outcome" where
  "sys_mmap pid addr len flags name s =
     (case len of
        VInt n \<Rightarrow>
          if n \<le> 0 then (Inr (- EINVAL), s)
          else (case pt_get pid (sys_pt s) of
                  None \<Rightarrow> (Inr (- EINVAL), s)
                | Some proc \<Rightarrow>
                   (case addr of
                      VInt a \<Rightarrow>
                        (let a' = (if a = 0 then 0x7f0000000000 else a);
                             (ok, v) = map_pages pid a' n flags name (sys_vmm s)
                         in (Inr (if ok then a' else - ENOMEM), s\<lparr>sys_vmm := v\<rparr>))
                    | _ \<Rightarrow>
                        (case map_dyn pid n (sys_vmm s) of
                           (Inl e, v) \<Rightarrow> (Inl e, s\<lparr>sys_vmm := v\<rparr>)
                         | (Inr _, v) \<Rightarrow> (Inr (- ENOMEM), s\<lparr>sys_vmm := v\<rparr>))))
      | _ \<Rightarrow> (Inl TypeError, s))"

definition sys_munmap :: "int \<Rightarrow> pyval \<Rightarrow> pyval \<Rightarrow> sys \<Rightarrow> outcome" where
  "sys_munmap pid addr len s =
     (case addr of
        VInt a \<Rightarrow>
          if a = 0 then (Inr (- EINVAL), s)
          else (let (ok, v) = unmap_pages pid a (sys_vmm s)
                in (Inr (if ok then 0 else - EINVAL), s\<lparr>sys_vmm := v\<rparr>))
      | _ \<Rightarrow> (Inr (- EINVAL), s))"

definition BRK_START :: int where "BRK_START = 0x601000"

definition cur_brk :: "int \<Rightarrow> sys \<Rightarrow> int" where
  "cur_brk pid s = (case map_of (sys_brk s) pid of None \<Rightarrow> BRK_START | Some b \<Rightarrow> b)"

definition sys_brk_call :: "int \<Rightarrow> pyval \<Rightarrow> sys \<Rightarrow> outcome" where
  "sys_brk_call pid new_brk s =
     (case new_brk of
        VInt b \<Rightarrow>
          if b = 0 \<or> b \<le> cur_brk pid s then (Inr (cur_brk pid s), s)
          else (let (_, v) = map_pages pid (cur_brk pid s) (b - cur_brk pid s) (VStr ''rw-'') (VStr ''[heap]'') (sys_vmm s)
                in (Inr b, s\<lparr>sys_vmm := v, sys_brk := AList.update pid b (sys_brk s)\<rparr>))
      | _ \<Rightarrow> (Inl TypeError, s))"

section \<open>Processes\<close>

definition sys_nanosleep :: "int \<Rightarrow> pyval \<Rightarrow> pyval \<Rightarrow> sys \<Rightarrow> outcome" where
  "sys_nanosleep pid seconds nanos s = (Inr 0, s)"

definition sys_getpid :: "int \<Rightarrow> sys \<Rightarrow> outcome" where
  "sys_getpid pid s = (Inr pid, s)"

definition sys_fork :: "int \<Rightarrow> sys \<Rightarrow> outcome" where
  "sys_fork pid s =
     (case pt_get pid (sys_pt s) of
        None \<Rightarrow> (Inr (- EINVAL), s)
      | Some parent \<Rightarrow>
         (let (child, t) = pt_spawn (p_name parent) pid (cr_uid (p_creds parent)) (cr_gid (p_creds parent))
                (p_cmdline parent) (sys_pt s)
          in (Inr child, s\<lparr>sys_pt := pt_modify child (\<lambda>q. q\<lparr>p_cwd := p_cwd parent\<rparr>) t,
                           sys_vmm := create_address_space child (sys_vmm s)\<rparr>)))"

definition sys_execve :: "int \<Rightarrow> pyval \<Rightarrow> pyval \<Rightarrow> pyval \<Rightarrow> sys \<Rightarrow> outcome" where
  "sys_execve pid path argv envp s =
     (case pt_get pid (sys_pt s) of
        None \<Rightarrow> (Inr (- EINVAL), s)
      | Some proc \<Rightarrow>
         if truthy path
         then (case path of
                 VStr p \<Rightarrow> (Inr 0, mod_proc pid (\<lambda>q. q\<lparr>p_name := last (py_split CHR ''/'' p), p_cmdline := path\<rparr>) s)
               | VInt i \<Rightarrow> (Inl AttributeError, s)
               | VBytes b \<Rightarrow> (Inl TypeError, s))
         else (Inr 0, mod_proc pid (\<lambda>q. q\<lparr>p_cmdline := path\<rparr>) s))"

definition sys_exit :: "int \<Rightarrow> pyval \<Rightarrow> sys \<Rightarrow> outcome" where
  "sys_exit pid code s =
     (case pt_get pid (sys_pt s) of
        None \<Rightarrow> (Inr (- EINVAL), s)
      | Some proc \<Rightarrow> (Inr 0, mod_proc pid (\<lambda>q. q\<lparr>p_state := ZOMBIE, p_exit_code := code\<rparr>) s))"

text \<open>The loop over \<^verbatim>\<open>list(parent.children)\<close>.\<close>

fun reap :: "int list \<Rightarrow> sys \<Rightarrow> outcome" where
  "reap [] s = (Inr 0, s)"
| "reap (c # cs) s =
     (case pt_get c (sys_pt s) of
        None \<Rightarrow> reap cs s
      | Some child \<Rightarrow>
         if p_state child = ZOMBIE then (Inr c, s\<lparr>sys_pt := pt_remove c (sys_pt s)\<rparr>) else reap cs s)"

definition sys_wait4 :: "int \<Rightarrow> pyval \<Rightarrow> pyval \<Rightarrow> sys \<Rightarrow> outcome" where
  "sys_wait4 pid child_pid options s =
     (case pt_get pid (sys_pt s) of
        None \<Rightarrow> (Inr (- EINVAL), s)
      | Some parent \<Rightarrow> reap (p_children parent) s)"

definition all_signals :: "signal list" where
  "all_signals = [SIGHUP, SIGTERM, SIGKILL, SIGCHLD, SIGUSR1, SIGUSR2, SIGSEGV, SIGINT, SIGSTOP]"

definition sig_of :: "pyval \<Rightarrow> signal option" where
  "sig_of n = find (\<lambda>g. n = VInt (signal_value g)) all_signals"

definition sys_kill :: "int \<Rightarrow> pyval \<Rightarrow> pyval \<Rightarrow> sys \<Rightarrow> outcome" where
  "sys_kill pid target_pid signum s =
     (case get_proc target_pid s of
        None \<Rightarrow> (Inr (- ESRCH), s)
      | Some _ \<Rightarrow> (case sig_of signum of None \<Rightarrow> (Inr (- EINVAL), s) | Some _ \<Rightarrow> (Inr 0, s)))"

section \<open>Dispatch\<close>

definition NR_READ :: int where "NR_READ = 0"
definition NR_WRITE :: int where "NR_WRITE = 1"
definition NR_OPENAT :: int where "NR_OPENAT = 2"
definition NR_CLOSE :: int where "NR_CLOSE = 3"
definition NR_MMAP :: int where "NR_MMAP = 9"
definition NR_MUNMAP :: int where "NR_MUNMAP = 11"
definition NR_BRK :: int where "NR_BRK = 12"
definition NR_NANOSLEEP :: int where "NR_NANOSLEEP = 35"
definition NR_GETPID :: int where "NR_GETPID = 39"
definition NR_FORK :: int where "NR_FORK = 57"
definition NR_EXECVE :: int where "NR_EXECVE = 59"
definition NR_EXIT :: int where "NR_EXIT = 60"
definition NR_WAIT4 :: int where "NR_WAIT4 = 61"
definition NR_KILL :: int where "NR_KILL = 62"

lemmas NR_defs = NR_READ_def NR_WRITE_def NR_OPENAT_def NR_CLOSE_def NR_MMAP_def NR_MUNMAP_def NR_BRK_def
  NR_NANOSLEEP_def NR_GETPID_def NR_FORK_def NR_EXECVE_def NR_EXIT_def NR_WAIT4_def NR_KILL_def

text \<open>The number of parameters of a handler after \<^verbatim>\<open>pid\<close>, and how many of them have no default.\<close>

definition sys_arity :: "int \<Rightarrow> (nat \<times> nat) option" where
  "sys_arity = map_of [(NR_READ, (2, 1)), (NR_WRITE, (2, 1)), (NR_OPENAT, (3, 0)), (NR_CLOSE, (1, 1)),
     (NR_MMAP, (4, 0)), (NR_MUNMAP, (2, 0)), (NR_BRK, (1, 0)), (NR_NANOSLEEP, (2, 0)), (NR_GETPID, (0, 0)),
     (NR_FORK, (0, 0)), (NR_EXECVE, (3, 0)), (NR_EXIT, (1, 0)), (NR_WAIT4, (2, 0)), (NR_KILL, (2, 0))]"

text \<open>\<^verbatim>\<open>argv\<close> and \<^verbatim>\<open>envp\<close> are only logged; their default stands for \<^verbatim>\<open>None\<close>.\<close>

definition NO_LIST :: pyval where "NO_LIST = VBytes []"

definition sys_handler :: "int \<Rightarrow> int \<Rightarrow> pyval list \<Rightarrow> sys \<Rightarrow> outcome" where
  "sys_handler nr pid a s =
    (if nr = NR_READ then sys_read pid (arg 0 (VInt 0) a) (arg 1 (VInt 4096) a) s
     else if nr = NR_WRITE then sys_write pid (arg 0 (VInt 0) a) (arg 1 (VBytes []) a) s
     else if nr = NR_OPENAT then sys_openat pid (arg 0 (VInt (- 100)) a) (arg 1 (VStr []) a) (arg 2 (VStr ''r'') a) s
     else if nr = NR_CLOSE then sys_close pid (arg 0 (VInt 0) a) s
     else if nr = NR_MMAP then sys_mmap pid (arg 0 (VInt 0) a) (arg 1 (VInt 4096) a) (arg 2 (VStr ''rw-'') a)
            (arg 3 (VStr ''[mmap]'') a) s
     else if nr = NR_MUNMAP then sys_munmap pid (arg 0 (VInt 0) a) (arg 1 (VInt 0) a) s
     else if nr = NR_BRK then sys_brk_call pid (arg 0 (VInt 0) a) s
     else if nr = NR_NANOSLEEP then sys_nanosleep pid (arg 0 (VInt 0) a) (arg 1 (VInt 0) a) s
     else if nr = NR_GETPID then sys_getpid pid s
     else if nr = NR_FORK then sys_fork pid s
     else if nr = NR_EXECVE then sys_execve pid (arg 0 (VStr []) a) (arg 1 NO_LIST a) (arg 2 NO_LIST a) s
     else if nr = NR_EXIT then sys_exit pid (arg 0 (VInt 0) a) s
     else if nr = NR_WAIT4 then sys_wait4 pid (arg 0 (VInt (- 1)) a) (arg 1 (VInt 0) a) s
     else sys_kill pid (arg 0 (VInt 0) a) (arg 1 (VInt 15) a) s)"

definition sys_dispatch :: "int \<Rightarrow> int \<Rightarrow> pyval list \<Rightarrow> sys \<Rightarrow> outcome" where
  "sys_dispatch pid nr args s =
     (case sys_arity nr of
        None \<Rightarrow> (Inr (- ENOSYS), s)
      | Some (max_args, required) \<Rightarrow>
          (let a = take max_args args in
           if length a < required then (Inl TypeError, s) else sys_handler nr pid a s))"

definition dispatch_ctx :: "syscall_context \<Rightarrow> sys \<Rightarrow> outcome" where
  "dispatch_ctx c s = sys_dispatch (sc_pid c) (sc_nr c)
     (map VInt [sc_rdi c, sc_rsi c, sc_rdx c, sc_r10 c, sc_r8 c, sc_r9 c]) s"

section \<open>Invariant\<close>

text \<open>
  Beside the invariants of the subsystems: every descriptor of a process is open in the VFS under the
  same path and flags, no two processes share a descriptor, and program breaks lie above their start.
\<close>

definition proc_fds :: "process_table \<Rightarrow> int \<Rightarrow> (int \<rightharpoonup> string \<times> string)" where
  "proc_fds t pid = (case pt_get pid t of None \<Rightarrow> Map.empty | Some P \<Rightarrow> map_of (fd_entries (p_fdt P)))"

definition open_fds :: "vfs \<Rightarrow> (int \<rightharpoonup> string \<times> string)" where
  "open_fds v fd = map_option (\<lambda>f. (of_path f, of_flags f)) (map_of (vfs_open_files v) fd)"

definition fds_ok :: "process_table \<Rightarrow> vfs \<Rightarrow> bool" where
  "fds_ok t v \<longleftrightarrow> (\<forall>pid. proc_fds t pid \<subseteq>\<^sub>m open_fds v)
     \<and> (\<forall>p q. p \<noteq> q \<longrightarrow> dom (proc_fds t p) \<inter> dom (proc_fds t q) = {})"

definition sys_inv :: "sys \<Rightarrow> bool" where
  "sys_inv s \<longleftrightarrow> pt_inv (sys_pt s) \<and> vfs_inv (sys_vfs s) \<and> vmm_wf (sys_vmm s) \<and> fds_ok (sys_pt s) (sys_vfs s)
     \<and> (\<forall>pid b. map_of (sys_brk s) pid = Some b \<longrightarrow> BRK_START < b)"

declare sys_inv_def [wf_defs]

lemma sys_invD:
  assumes "sys_inv s"
  shows "pt_inv (sys_pt s)" "vfs_inv (sys_vfs s)" "vmm_wf (sys_vmm s)" "fds_ok (sys_pt s) (sys_vfs s)"
    "map_of (sys_brk s) pid = Some b \<Longrightarrow> BRK_START < b"
  using assms by (simp_all add: sys_inv_def)

lemma proc_fds_modify:
  "proc_fds (pt_modify pid f t) q = (if q = pid then (case pt_get pid t of None \<Rightarrow> Map.empty
     | Some P \<Rightarrow> map_of (fd_entries (p_fdt (f P)))) else proc_fds t q)"
  by (auto simp: proc_fds_def pt_get_def pt_modify_def split: option.splits)

lemma proc_fds_keep: "(\<And>P. p_fdt (f P) = p_fdt P) \<Longrightarrow> proc_fds (pt_modify pid f t) = proc_fds t"
  by (rule ext) (cases "pt_get pid t"; simp add: proc_fds_modify; simp add: proc_fds_def)

lemma proc_fds_alt:
  "proc_fds t pid = (case map_option p_fdt (pt_get pid t) of None \<Rightarrow> Map.empty | Some d \<Rightarrow> map_of (fd_entries d))"
  by (simp add: proc_fds_def split: option.splits)

lemma proc_fds_remove:
  assumes "pt_inv t"
  shows "proc_fds (pt_remove pid t) = (proc_fds t)(pid := Map.empty)"
proof (cases "pt_get pid t")
  case None
  then show ?thesis by (auto simp: pt_get_def pt_remove_absent proc_fds_def fun_eq_iff)
next
  case (Some proc)
  then have pr: "map_of (pt_table t) pid = Some proc" by (simp add: pt_get_def)
  show ?thesis
  proof (rule ext)
    fix q
    show "proc_fds (pt_remove pid t) q = ((proc_fds t)(pid := Map.empty)) q"
    proof (cases "q = pid")
      case True
      then show ?thesis by (simp add: proc_fds_def pt_get_def pt_remove_table [OF pr] Let_def)
    next
      case False
      then show ?thesis
        using pt_remove_keeps [OF pr assms False] pt_remove_value [OF pr assms, of q]
        by (cases "map_of (pt_table t) q"; cases "map_of (pt_table (pt_remove pid t)) q")
          (auto simp: proc_fds_def pt_get_def)
    qed
  qed
qed

lemma proc_fds_spawn:
  assumes "pt_inv t" "pt_spawn name ppid uid gid cmdline t = (pid, t')"
  shows "proc_fds t' = proc_fds t" "pt_inv t'" "pt_get pid t = None"
proof -
  have pid: "pid = fst (pa_alloc (pt_alloc t))" "t' = snd (pt_spawn name ppid uid gid cmdline t)"
    using assms(2) pt_spawn_pid [of name ppid uid gid cmdline t] by auto
  show new: "pt_get pid t = None" using spawn_pid_range(2) [OF assms(1)] pid by (simp add: pt_get_def)
  show "pt_inv t'" using pt_inv_spawn [OF assms(1)] pid(2) by simp
  have "map_option p_fdt (pt_get q t') = (if q = pid then Some fdt_init else map_option p_fdt (pt_get q t))" for q
    unfolding pid(2) by (auto simp: pt_get_def pt_spawn_table Let_def pid(1) [symmetric] new_process_def option.map_comp o_def)
  then have "proc_fds t' q = (if q = pid then Map.empty else proc_fds t q)" for q
    by (simp add: proc_fds_alt fdt_init_def)
  with new show "proc_fds t' = proc_fds t" by (auto simp: proc_fds_def fun_eq_iff)
qed

text \<open>Reading and writing move positions but keep every descriptor's path and flags.\<close>

lemma open_fds_read: "open_fds (snd (vfs_read fd n v)) = open_fds v"
  by (auto simp: open_fds_def vfs_read_def Let_def fun_eq_iff split: option.splits prod.splits)

lemma open_fds_write: "open_fds (snd (vfs_write fd data v)) = open_fds v"
  by (auto simp: open_fds_def vfs_write_def Let_def fun_eq_iff split: option.splits prod.splits)

lemma open_fds_close: "open_fds (snd (vfs_close fd v)) = (open_fds v)(fd := None)"
  by (auto simp: open_fds_def vfs_close_def fun_eq_iff split: option.splits)

lemma open_fds_open:
  assumes inv: "vfs_inv v" and op: "vfs_open path flags v = (Inr fd, v')"
  shows "fd < 0 \<and> v' = v \<or> 0 \<le> fd \<and> open_fds v fd = None \<and> open_fds v' = (open_fds v)(fd \<mapsto> (path, flags))"
proof -
  have fresh: "map_of (vfs_open_files v) (vfs_next_fd v) = None" "3 \<le> vfs_next_fd v"
    using inv unfolding vfs_inv_def by (metis less_irrefl not_None_eq, blast)
  have add: "0 \<le> fd \<and> open_fds v fd = None \<and> open_fds v' = (open_fds v)(fd \<mapsto> (path, flags))"
    if "vfs_add_open path flags i ty w = (Inr fd, v')" "vfs_open_files w = vfs_open_files v" "vfs_next_fd w = vfs_next_fd v"
    for i ty w
    using that fresh by (auto simp: vfs_add_open_def Let_def open_fds_def fun_eq_iff)
  show ?thesis
    using op add by (auto simp: vfs_open_def split: prod.splits option.splits if_splits sum.splits pyexn.splits)
qed

lemma open_raises: "vfs_open path flags v = (Inl e, v') \<Longrightarrow> open_fds v' = open_fds v"
  by (auto simp: vfs_open_def vfs_add_open_def Let_def open_fds_def set_store_def
      split: prod.splits option.splits if_splits sum.splits pyexn.splits)

lemma fds_okD: "fds_ok t v \<Longrightarrow> proc_fds t p fd = Some e \<Longrightarrow> open_fds v fd = Some e"
  unfolding fds_ok_def map_le_def by (metis domI)

lemma fds_ok_other:
  "fds_ok t v \<Longrightarrow> proc_fds t p fd = Some e \<Longrightarrow> q \<noteq> p \<Longrightarrow> proc_fds t q fd = None"
  unfolding fds_ok_def by (metis IntI domI empty_iff not_None_eq)

lemma fds_okI:
  assumes "\<And>p fd e. proc_fds t p fd = Some e \<Longrightarrow> open_fds v fd = Some e"
    and "\<And>p q fd e. proc_fds t p fd = Some e \<Longrightarrow> q \<noteq> p \<Longrightarrow> proc_fds t q fd = None"
  shows "fds_ok t v"
proof -
  have "dom (proc_fds t p) \<inter> dom (proc_fds t q) = {}" if "p \<noteq> q" for p q
    using assms(2) [of p _ _ q] that by fastforce
  then show ?thesis using assms(1) by (auto simp: fds_ok_def map_le_def)
qed

lemma fds_ok_shrink:
  assumes "fds_ok t v" "\<And>p. proc_fds t' p \<subseteq>\<^sub>m proc_fds t p" "open_fds v' = open_fds v"
  shows "fds_ok t' v'"
proof (rule fds_okI)
  fix p q fd e
  assume "proc_fds t' p fd = Some e"
  then have e: "proc_fds t p fd = Some e" using assms(2) [of p] by (metis domI map_le_def)
  show "open_fds v' fd = Some e" using fds_okD [OF assms(1) e] assms(3) by simp
  assume "q \<noteq> p"
  then have "proc_fds t q fd = None" by (rule fds_ok_other [OF assms(1) e])
  then show "proc_fds t' q fd = None" using assms(2) [of q] by (metis domIff map_le_def)
qed

lemma keeps_simps [simp]:
  "keeps_identity (\<lambda>q. q\<lparr>p_cwd := x\<rparr>)" "keeps_identity (\<lambda>q. q\<lparr>p_fdt := g q\<rparr>)"
  "keeps_identity (\<lambda>q. q\<lparr>p_name := y, p_cmdline := z\<rparr>)" "keeps_identity (\<lambda>q. q\<lparr>p_cmdline := z\<rparr>)"
  "keeps_identity (\<lambda>q. q\<lparr>p_state := st, p_exit_code := z\<rparr>)"
  by (simp_all add: keeps_identity_def)

subsection \<open>Preservation by each call\<close>

lemma inv_read: "sys_inv s \<Longrightarrow> sys_inv (snd (sys_read pid fd sz s))"
proof -
  assume inv: "sys_inv s"
  have "sys_inv (s\<lparr>sys_vfs := snd (vfs_read n k (sys_vfs s))\<rparr>)" for n k
    using inv fds_ok_shrink [of "sys_pt s" "sys_vfs s" "sys_pt s" "snd (vfs_read n k (sys_vfs s))"]
    by (simp add: sys_inv_def vfs_inv_read open_fds_read)
  then show ?thesis
    using inv by (auto simp: sys_read_def Let_def split: option.splits pyval.splits prod.splits) (metis snd_conv)+
qed

lemma inv_write: "sys_inv s \<Longrightarrow> sys_inv (snd (sys_write pid fd data s))"
proof -
  assume inv: "sys_inv s"
  have "sys_inv (s\<lparr>sys_vfs := snd (vfs_write n b (sys_vfs s))\<rparr>)" for n b
    using inv fds_ok_shrink [of "sys_pt s" "sys_vfs s" "sys_pt s" "snd (vfs_write n b (sys_vfs s))"]
    by (simp add: sys_inv_def vfs_inv_write open_fds_write)
  then show ?thesis
    using inv by (auto simp: sys_write_def Let_def split: option.splits pyval.splits prod.splits) (metis snd_conv)+
qed

lemma inv_mod_proc:
  assumes "sys_inv s" "keeps_identity f" "\<And>P. p_fdt (f P) = p_fdt P"
  shows "sys_inv (mod_proc pid f s)"
  using assms(1) pt_inv_modify [OF _ assms(2)]
  by (simp add: sys_inv_def mod_proc_def proc_fds_keep assms(3) fds_ok_def)

lemma inv_openat: "sys_inv s \<Longrightarrow> sys_inv (snd (sys_openat pid dirfd path flags s))"
proof -
  assume inv: "sys_inv s"
  note i = sys_invD [OF inv]
  have raises: "sys_inv (s\<lparr>sys_vfs := v\<rparr>)" if "vfs_inv v" "open_fds v = open_fds (sys_vfs s)" for v
    using that inv by (simp add: sys_inv_def fds_ok_def)
  show ?thesis
  proof (cases "pt_get pid (sys_pt s) = None \<or> \<not> truthy path")
    case True
    with inv show ?thesis by (auto simp: sys_openat_def split: option.splits)
  next
    case False
    then obtain proc where P: "pt_get pid (sys_pt s) = Some proc" and t: "truthy path" by auto
    show ?thesis
    proof (cases "\<exists>p f. path = VStr p \<and> flags = VStr f")
      case False
      then have "snd (open_dyn path flags (sys_vfs s)) = sys_vfs s"
        and neg: "fst (open_dyn path flags (sys_vfs s)) = Inr (fd, p, f) \<Longrightarrow> fd < 0" for fd p f
        by (cases path; cases flags; auto split: if_splits)+
      then show ?thesis
        using P t inv by (auto simp: sys_openat_def Let_def split: prod.splits sum.splits)
    next
      case True
      then obtain p f where pf: "path = VStr p" "flags = VStr f" by blast
      obtain res v where op: "vfs_open p f (sys_vfs s) = (res, v)" by fastforce
      have vi: "vfs_inv v" using vfs_inv_open [OF i(2), of p f] op by simp
      show ?thesis
      proof (cases res)
        case (Inl e)
        with raises [OF vi] open_raises op P t pf show ?thesis by (auto simp: sys_openat_def)
      next
        case (Inr fd)
        note o = open_fds_open [OF i(2) op [unfolded Inr]]
        show ?thesis
        proof (cases "fd < 0")
          case True
          with o P t pf op Inr inv show ?thesis by (auto simp: sys_openat_def)
        next
          case False
          with o have new: "open_fds (sys_vfs s) fd = None" "open_fds v = (open_fds (sys_vfs s))(fd \<mapsto> (p, f))" by auto
          let ?g = "\<lambda>q. q\<lparr>p_fdt := (p_fdt q)\<lparr>fd_entries := AList.update fd (p, f) (fd_entries (p_fdt q))\<rparr>\<rparr>"
          let ?t = "pt_modify pid ?g (sys_pt s)"
          have fds: "proc_fds ?t q = (if q = pid then (proc_fds (sys_pt s) pid)(fd \<mapsto> (p, f)) else proc_fds (sys_pt s) q)" for q
            using P by (simp add: proc_fds_modify) (simp add: proc_fds_def)
          have none: "proc_fds (sys_pt s) q fd = None" for q
            using fds_okD [OF i(4)] new(1) by (metis not_None_eq)
          have "fds_ok ?t v"
          proof (rule fds_okI)
            show "open_fds v k = Some e" if "proc_fds ?t q k = Some e" for q k e
              using that fds_okD [OF i(4)] new none by (auto simp: fds split: if_splits)
            show "proc_fds ?t q' k = None" if "proc_fds ?t q k = Some e" "q' \<noteq> q" for q q' k e
              using that fds_ok_other [OF i(4)] none by (auto simp: fds split: if_splits)
          qed
          moreover have "pt_inv ?t" using i(1) by (intro pt_inv_modify) simp_all
          ultimately have "sys_inv (mod_proc pid ?g (s\<lparr>sys_vfs := v\<rparr>))"
            using inv vi by (simp add: sys_inv_def mod_proc_def)
          with False P t pf op Inr show ?thesis by (simp add: sys_openat_def Let_def)
        qed
      qed
    qed
  qed
qed

lemma inv_close: "sys_inv s \<Longrightarrow> sys_inv (snd (sys_close pid fd s))"
proof -
  assume inv: "sys_inv s"
  note i = sys_invD [OF inv]
  show ?thesis
  proof (cases "\<exists>n P. fd = VInt n \<and> pt_get pid (sys_pt s) = Some P \<and> fst (fdt_close n (p_fdt P))")
    case False
    with inv show ?thesis by (auto simp: sys_close_def split: option.splits pyval.splits)
  next
    case True
    then obtain n P where n: "fd = VInt n" and P: "pt_get pid (sys_pt s) = Some P" and c: "fst (fdt_close n (p_fdt P))"
      by blast
    let ?g = "\<lambda>q. q\<lparr>p_fdt := snd (fdt_close n (p_fdt q))\<rparr>"
    let ?t = "pt_modify pid ?g (sys_pt s)" and ?v = "snd (vfs_close n (sys_vfs s))"
    have fds: "proc_fds ?t q = (if q = pid then (proc_fds (sys_pt s) pid)(n := None) else proc_fds (sys_pt s) q)" for q
      using P c by (simp add: proc_fds_modify) (auto simp: proc_fds_def fdt_close_def split: if_splits)
    have mine: "proc_fds (sys_pt s) pid n \<noteq> None"
      using P c by (simp add: proc_fds_def fdt_close_def split: if_splits)
    then have others: "proc_fds (sys_pt s) q n = None" if "q \<noteq> pid" for q
      using fds_ok_other [OF i(4)] that by blast
    have "fds_ok ?t ?v"
    proof (rule fds_okI)
      show "open_fds ?v k = Some e" if "proc_fds ?t q k = Some e" for q k e
        using that fds_okD [OF i(4)] others by (auto simp: fds open_fds_close split: if_splits)
      show "proc_fds ?t q' k = None" if "proc_fds ?t q k = Some e" "q' \<noteq> q" for q q' k e
        using that fds_ok_other [OF i(4)] others by (auto simp: fds split: if_splits)
    qed
    moreover have "pt_inv ?t" using i(1) by (intro pt_inv_modify) simp_all
    ultimately have "sys_inv ((mod_proc pid ?g s)\<lparr>sys_vfs := ?v\<rparr>)"
      using inv by (simp add: sys_inv_def mod_proc_def vfs_inv_close)
    with n P c show ?thesis by (simp add: sys_close_def)
  qed
qed

lemma inv_vmm: "sys_inv s \<Longrightarrow> vmm_wf v \<Longrightarrow> sys_inv (s\<lparr>sys_vmm := v\<rparr>)"
  by (simp add: sys_inv_def)

lemma vmm_wf_map_dyn: "vmm_wf v \<Longrightarrow> vmm_wf (snd (map_dyn pid n v))"
  using alloc_pages_wf [of "vmm_pmm v" "pages_needed n" pid]
  by (auto simp: map_dyn_def vmm_wf_def Let_def split: option.splits prod.splits)

lemma inv_mmap: "sys_inv s \<Longrightarrow> sys_inv (snd (sys_mmap pid addr len flags name s))"
proof -
  assume inv: "sys_inv s"
  have m: "sys_inv (s\<lparr>sys_vmm := v\<rparr>)" if "map_pages pid a n flags name (sys_vmm s) = (ok, v)" for a n ok v
    using vmm_wf_map [OF sys_invD(3) [OF inv], of pid a n flags name] that inv_vmm [OF inv] by simp
  have d: "sys_inv (s\<lparr>sys_vmm := v\<rparr>)" if "map_dyn pid n (sys_vmm s) = (ok, v)" for n ok v
    using vmm_wf_map_dyn [OF sys_invD(3) [OF inv], of pid n] that inv_vmm [OF inv] by simp
  show ?thesis
    using inv m d by (auto simp: sys_mmap_def Let_def split: pyval.splits option.splits prod.splits sum.splits)
qed

lemma inv_munmap: "sys_inv s \<Longrightarrow> sys_inv (snd (sys_munmap pid addr len s))"
proof -
  assume inv: "sys_inv s"
  have "sys_inv (s\<lparr>sys_vmm := v\<rparr>)" if "unmap_pages pid a (sys_vmm s) = (ok, v)" for a ok v
    using vmm_wf_unmap [OF sys_invD(3) [OF inv], of pid a] that inv_vmm [OF inv] by simp
  then show ?thesis using inv by (auto simp: sys_munmap_def Let_def split: pyval.splits prod.splits)
qed

lemma cur_brk_ge: "sys_inv s \<Longrightarrow> BRK_START \<le> cur_brk pid s"
  by (auto simp: cur_brk_def dest: sys_invD(5) split: option.splits)

lemma inv_brk: "sys_inv s \<Longrightarrow> sys_inv (snd (sys_brk_call pid new_brk s))"
proof (cases new_brk)
  case (VInt b)
  assume inv: "sys_inv s"
  have "sys_inv (s\<lparr>sys_vmm := snd (map_pages pid a n fl nm (sys_vmm s)), sys_brk := AList.update pid b (sys_brk s)\<rparr>)"
    if "cur_brk pid s < b" for a n fl nm
    using inv that cur_brk_ge [OF inv, of pid] by (auto simp: sys_inv_def split: if_splits)
  then show ?thesis
    using inv VInt by (auto simp: sys_brk_call_def Let_def split: prod.splits) (metis linorder_not_le snd_conv)+
qed (simp_all add: sys_brk_call_def)

lemma inv_fork: "sys_inv s \<Longrightarrow> sys_inv (snd (sys_fork pid s))"
proof (cases "pt_get pid (sys_pt s)")
  case (Some P)
  assume inv: "sys_inv s"
  obtain c t where sp: "pt_spawn (p_name P) pid (cr_uid (p_creds P)) (cr_gid (p_creds P)) (p_cmdline P) (sys_pt s) = (c, t)"
    by fastforce
  note st = proc_fds_spawn [OF sys_invD(1) [OF inv] sp]
  have "pt_inv (pt_modify c (\<lambda>q. q\<lparr>p_cwd := p_cwd P\<rparr>) t)" using st(2) by (intro pt_inv_modify) simp_all
  moreover have "proc_fds (pt_modify c (\<lambda>q. q\<lparr>p_cwd := p_cwd P\<rparr>) t) = proc_fds (sys_pt s)"
    using st(1) proc_fds_keep [of "\<lambda>q. q\<lparr>p_cwd := p_cwd P\<rparr>" c t] by simp
  ultimately show ?thesis
    using inv Some sp by (simp add: sys_fork_def Let_def sys_inv_def fds_ok_def vmm_wf_create)
qed (simp add: sys_fork_def)

lemma inv_execve: "sys_inv s \<Longrightarrow> sys_inv (snd (sys_execve pid path argv envp s))"
  by (auto simp: sys_execve_def intro!: inv_mod_proc split: option.splits pyval.splits)

lemma inv_exit: "sys_inv s \<Longrightarrow> sys_inv (snd (sys_exit pid code s))"
  by (auto simp: sys_exit_def intro!: inv_mod_proc split: option.splits)

lemma inv_remove:
  assumes "sys_inv s"
  shows "sys_inv (s\<lparr>sys_pt := pt_remove c (sys_pt s)\<rparr>)"
proof -
  note i = sys_invD [OF assms]
  have "fds_ok (pt_remove c (sys_pt s)) (sys_vfs s)"
    by (rule fds_ok_shrink [OF i(4)]) (auto simp: proc_fds_remove [OF i(1)] map_le_def)
  then show ?thesis using assms pt_inv_remove [OF i(1)] by (simp add: sys_inv_def)
qed

lemma inv_reap: "sys_inv s \<Longrightarrow> sys_inv (snd (reap cs s))"
  by (induction cs) (auto intro: inv_remove split: option.splits)

lemma inv_wait4: "sys_inv s \<Longrightarrow> sys_inv (snd (sys_wait4 pid child options s))"
  by (auto simp: sys_wait4_def inv_reap split: option.splits)

lemma inv_kill: "snd (sys_kill pid target_pid signum s) = s"
  by (simp add: sys_kill_def split: option.splits)

lemmas inv_calls = inv_read inv_write inv_openat inv_close inv_mmap inv_munmap inv_brk inv_fork inv_execve
  inv_exit inv_wait4 inv_kill

lemma inv_dispatch: "sys_inv s \<Longrightarrow> sys_inv (snd (sys_dispatch pid nr args s))"
  by (auto simp: sys_dispatch_def sys_handler_def Let_def inv_calls sys_nanosleep_def sys_getpid_def split: option.splits)

section \<open>Operation sequences\<close>

text \<open>System calls of any process with any arguments, and what the kernel itself does around them:
  spawning, giving an address space, and every VFS operation but closing a descriptor.\<close>

datatype sys_op =
    SysCall int int "pyval list"
  | SysCtx syscall_context
  | KSpawn string int int int pyval
  | KSpace int
  | KVfs vfs_op

fun closes :: "vfs_op \<Rightarrow> bool" where
  "closes (VClose fd) = True"
| "closes _ = False"

fun sys_step :: "sys_op \<Rightarrow> sys \<Rightarrow> sys" where
  "sys_step (SysCall pid nr args) s = snd (sys_dispatch pid nr args s)"
| "sys_step (SysCtx c) s = snd (dispatch_ctx c s)"
| "sys_step (KSpawn name ppid uid gid cmdline) s = s\<lparr>sys_pt := snd (pt_spawn name ppid uid gid cmdline (sys_pt s))\<rparr>"
| "sys_step (KSpace pid) s = s\<lparr>sys_vmm := create_address_space pid (sys_vmm s)\<rparr>"
| "sys_step (KVfs e) s = (if closes e then s else s\<lparr>sys_vfs := vfs_step e (sys_vfs s)\<rparr>)"

definition sys_init :: "int \<Rightarrow> sys" where
  "sys_init n = \<lparr>sys_pt = pt_init, sys_vfs = vfs_init, sys_vmm = vmm_init (pmm_init n), sys_brk = []\<rparr>"

lemma sys_inv_init [intro, simp]: "sys_inv (sys_init n)"
proof -
  have "proc_fds pt_init p = Map.empty" for p
    by (simp add: proc_fds_def pt_get_def pt_init_def idle_process_def fdt_init_def)
  then have "fds_ok pt_init vfs_init" by (simp add: fds_ok_def)
  then show ?thesis by (auto simp: sys_inv_def sys_init_def)
qed

lemma vfs_step_open_fds:
  assumes "vfs_inv v" "\<not> closes e"
  shows "open_fds v \<subseteq>\<^sub>m open_fds (vfs_step e v)"
proof -
  have same: "open_fds v' = open_fds v" if "vfs_open_files v' = vfs_open_files v" for v'
    using that by (simp add: open_fds_def fun_eq_iff)
  show ?thesis
  proof (cases e)
    case (VOpen path flags)
    obtain res v' where op: "vfs_open path flags v = (res, v')" by fastforce
    then show ?thesis
      using VOpen open_fds_open [OF assms(1), of path flags _ v'] open_raises [of path flags v _ v']
      by (cases res) (auto simp: map_le_def)
  next
    case (VWritePath path data)
    have "vfs_open_files (vfs_step e v) = vfs_open_files v"
      using VWritePath by (auto simp: write_path_def create_file_def Let_def split: prod.splits option.splits sum.splits)
    from same [OF this] show ?thesis by simp
  next
    case (VMkdir path)
    have "vfs_open_files (vfs_step e v) = vfs_open_files v"
      using VMkdir by (auto simp: vfs_mkdir_def split: prod.splits option.splits sum.splits)
    from same [OF this] show ?thesis by simp
  next
    case (VCreate path content)
    have "vfs_open_files (vfs_step e v) = vfs_open_files v"
      using VCreate by (auto simp: create_file_def Let_def split: prod.splits option.splits sum.splits)
    from same [OF this] show ?thesis by simp
  next
    case VNewTmpfs
    have "vfs_open_files (vfs_step e v) = vfs_open_files v" using VNewTmpfs by (simp add: vfs_new_fs_def)
    from same [OF this] show ?thesis by simp
  next
    case (VMount p r source)
    have "vfs_open_files (vfs_step e v) = vfs_open_files v" using VMount by (simp add: vfs_mount_def)
    from same [OF this] show ?thesis by simp
  qed (use assms(2) in \<open>simp_all add: open_fds_read open_fds_write\<close>)
qed

interpretation sysm: machine "sys_init n" sys_step sys_inv for n
proof unfold_locales
  show "sys_inv (sys_init n)" by simp
  show "sys_inv (sys_step e s)" if inv: "sys_inv s" for s e
  proof (cases e)
    case (KSpawn name ppid uid gid cmdline)
    obtain c t where sp: "pt_spawn name ppid uid gid cmdline (sys_pt s) = (c, t)" by fastforce
    from proc_fds_spawn [OF sys_invD(1) [OF inv] sp] KSpawn sp inv
    show ?thesis by (simp add: sys_inv_def fds_ok_def)
  next
    case (KVfs a)
    show ?thesis
    proof (cases "closes a")
      case False
      have "fds_ok (sys_pt s) (vfs_step a (sys_vfs s))"
        using sys_invD(4) [OF inv] vfs_step_open_fds [OF sys_invD(2) [OF inv] False]
        by (auto simp: fds_ok_def intro: map_le_trans)
      with KVfs False inv vfsm.inv_step show ?thesis by (simp add: sys_inv_def)
    qed (use KVfs inv in simp)
  qed (use inv in \<open>auto simp: inv_dispatch dispatch_ctx_def inv_vmm vmm_wf_create sys_invD\<close>)
qed

section \<open>Properties\<close>

lemma proc_fdsI: "pt_get pid t = Some P \<Longrightarrow> fdt_get fd (p_fdt P) = proc_fds t pid fd"
  by (simp add: proc_fds_def fdt_get_def)

text \<open>C15: Descriptors are private to the process that opened them. In every state reached by system
  calls with arbitrary arguments, a descriptor in a process's table is open in the VFS under the same
  path and flags, and when any other process reads, writes or closes it, the call returns EBADF and
  changes nothing at all.\<close>
theorem descriptors_are_private:
  assumes "reaches sys_step (sys_init n) s"
    and "pt_get owner (sys_pt s) = Some P" and "fdt_get fd (p_fdt P) = Some (path, flags)"
    and "pt_get other (sys_pt s) = Some Q" and "other \<noteq> owner"
  shows "(\<exists>f. map_of (vfs_open_files (sys_vfs s)) fd = Some f \<and> of_path f = path \<and> of_flags f = flags)
    \<and> sys_read other (VInt fd) k s = (Inr (- EBADF), s)
    \<and> sys_write other (VInt fd) data s = (Inr (- EBADF), s)
    \<and> sys_close other (VInt fd) s = (Inr (- EBADF), s)"
proof -
  have inv: "sys_inv s" by (rule sysm.inv_reachable [OF assms(1)])
  have mine: "proc_fds (sys_pt s) owner fd = Some (path, flags)" using assms(2,3) by (simp add: proc_fdsI)
  from fds_okD [OF sys_invD(4) [OF inv] mine]
  obtain f where f: "map_of (vfs_open_files (sys_vfs s)) fd = Some f" "of_path f = path" "of_flags f = flags"
    by (auto simp: open_fds_def)
  have "3 \<le> fd" using sys_invD(2) [OF inv] f(1) by (simp add: vfs_inv_def)
  moreover have "fdt_get fd (p_fdt Q) = None"
    using fds_ok_other [OF sys_invD(4) [OF inv] mine assms(5)] proc_fdsI [OF assms(4), of fd] by simp
  moreover from this have "\<not> fst (fdt_close fd (p_fdt Q))" by (simp add: fdt_get_def fdt_close_def)
  ultimately show ?thesis
    using f assms(4) by (simp add: sys_read_def sys_write_def sys_close_def)
qed

definition sample_calls :: "sys_op list" where
  "sample_calls = [KVfs VNewTmpfs, KVfs (VMount ''/'' 0 ''tmpfs''), KVfs (VCreate ''/motd'' [104, 105]),
     KSpawn ''a'' 0 0 0 (VStr []), KSpawn ''b'' 0 0 0 (VStr []), KSpace 2,
     SysCall 2 2 [VInt (- 100), VStr ''/motd'', VStr ''r'']]"

theorem descriptors_are_private_witness:
  "fst (sys_read 3 (VInt 3) (VInt 9) (fold sys_step sample_calls (sys_init 8))) = Inr (- 9)"
proof -
  let ?s = "fold sys_step sample_calls (sys_init 8)"
  have f: "map_option (\<lambda>P. fdt_get 3 (p_fdt P)) (pt_get 2 (sys_pt ?s)) = Some (Some (''/motd'', ''r''))"
    and q: "pt_get 3 (sys_pt ?s) \<noteq> None" by code_simp+
  obtain P Q where "pt_get 2 (sys_pt ?s) = Some P" "fdt_get 3 (p_fdt P) = Some (''/motd'', ''r'')"
    "pt_get 3 (sys_pt ?s) = Some Q" using f q by blast
  from descriptors_are_private [OF reaches_fold this(1,2,3), of "VInt 9"] show ?thesis
    by (simp only: EBADF_def) simp
qed

text \<open>C16: Opening and closing match: a successful openat files the path and flags under a descriptor
  that was open nowhere; closing it returns 0, after which it is open nowhere again and a second
  close returns EBADF.\<close>
theorem openat_then_close:
  assumes inv: "sys_inv s" and op: "sys_openat pid dirfd (VStr path) (VStr flags) s = (Inr fd, s1)" and "0 \<le> fd"
  shows "map_of (vfs_open_files (sys_vfs s)) fd = None
    \<and> (\<exists>P. pt_get pid (sys_pt s1) = Some P \<and> fdt_get fd (p_fdt P) = Some (path, flags))
    \<and> (\<exists>s2. sys_close pid (VInt fd) s1 = (Inr 0, s2) \<and> sys_inv s2
         \<and> map_of (vfs_open_files (sys_vfs s2)) fd = None
         \<and> sys_close pid (VInt fd) s2 = (Inr (- EBADF), s2))"
proof -
  obtain P where P: "pt_get pid (sys_pt s) = Some P"
    using op \<open>0 \<le> fd\<close> by (auto simp: sys_openat_def EINVAL_def split: option.splits)
  have path: "path \<noteq> []" using op P \<open>0 \<le> fd\<close> by (auto simp: sys_openat_def EINVAL_def)
  obtain v where v: "vfs_open path flags (sys_vfs s) = (Inr fd, v)"
    and s1: "s1 = mod_proc pid (\<lambda>q. q\<lparr>p_fdt := (p_fdt q)\<lparr>fd_entries :=
      AList.update fd (path, flags) (fd_entries (p_fdt q))\<rparr>\<rparr>) (s\<lparr>sys_vfs := v\<rparr>)"
    using op P path \<open>0 \<le> fd\<close> by (auto simp: sys_openat_def Let_def split: prod.splits sum.splits if_splits)
  have free: "map_of (vfs_open_files (sys_vfs s)) fd = None"
    using open_fds_open [OF sys_invD(2) [OF inv] v] \<open>0 \<le> fd\<close> by (auto simp: open_fds_def)
  have i1: "sys_inv s1" using inv_openat [OF inv, of pid dirfd "VStr path" "VStr flags"] op by simp
  have P1: "\<exists>P. pt_get pid (sys_pt s1) = Some P \<and> fdt_get fd (p_fdt P) = Some (path, flags)"
    using P by (simp add: s1 mod_proc_def pt_modify_def pt_get_def fdt_get_def)
  then obtain P1 where P1': "pt_get pid (sys_pt s1) = Some P1" "fdt_get fd (p_fdt P1) = Some (path, flags)" by blast
  define s2 where "s2 = (mod_proc pid (\<lambda>q. q\<lparr>p_fdt := snd (fdt_close fd (p_fdt q))\<rparr>) s1)
    \<lparr>sys_vfs := snd (vfs_close fd (sys_vfs s1))\<rparr>"
  have c: "sys_close pid (VInt fd) s1 = (Inr 0, s2)"
    using P1' by (simp add: sys_close_def s2_def fdt_get_def fdt_close_def)
  moreover have "map_of (vfs_open_files (sys_vfs s2)) fd = None"
    by (simp add: s2_def vfs_close_def split: option.splits)
  moreover have "sys_close pid (VInt fd) s2 = (Inr (- EBADF), s2)"
    using P1' by (simp add: sys_close_def s2_def mod_proc_def pt_modify_def pt_get_def fdt_close_def fdt_get_def)
  moreover have "sys_inv s2" using inv_close [OF i1, of pid "VInt fd"] c by simp
  ultimately show ?thesis using free P1 by blast
qed

theorem openat_then_close_witness:
  "fst (sys_close 2 (VInt 3) (fold sys_step sample_calls (sys_init 8))) = Inr 0"
proof -
  let ?s = "fold sys_step (butlast sample_calls) (sys_init 8)"
  have inv: "sys_inv ?s" by (rule sysm.inv_run) simp
  have f: "fst (sys_openat 2 (VInt (- 100)) (VStr ''/motd'') (VStr ''r'') ?s) = Inr 3" by code_simp
  obtain s1 where op: "sys_openat 2 (VInt (- 100)) (VStr ''/motd'') (VStr ''r'') ?s = (Inr 3, s1)"
    using f by (metis prod.collapse)
  have "fold sys_step sample_calls (sys_init 8) = s1"
    using op by (simp add: sample_calls_def sys_dispatch_def sys_handler_def sys_arity_def NR_defs arg_def)
  with openat_then_close [OF inv op] show ?thesis by auto
qed

lemma reap_skip:
  "\<forall>d \<in> set ds. \<forall>D. pt_get d (sys_pt s) = Some D \<longrightarrow> p_state D \<noteq> ZOMBIE \<Longrightarrow> reap (ds @ cs) s = reap cs s"
  by (induction ds) (auto split: option.splits)

lemma fork_table:
  assumes inv: "pt_inv (sys_pt s)" and P: "pt_get pid (sys_pt s) = Some P" and f: "sys_fork pid s = (Inr c, s1)"
  shows "pt_get c (sys_pt s) = None" "c \<noteq> pid" "c \<notin> set (p_children P)"
    "\<exists>C. map_of (pt_table (sys_pt s1)) = (map_of (pt_table (sys_pt s)))
           (c \<mapsto> C, pid \<mapsto> P\<lparr>p_children := p_children P @ [c]\<rparr>)
         \<and> p_ppid C = pid \<and> p_children C = [] \<and> p_fdt C = fdt_init \<and> p_cwd C = p_cwd P"
    "address_spaces (sys_vmm s1) = AList.update c (default_space c) (address_spaces (sys_vmm s))"
proof -
  let ?sp = "pt_spawn (p_name P) pid (cr_uid (p_creds P)) (cr_gid (p_creds P)) (p_cmdline P) (sys_pt s)"
  have c: "c = fst (pa_alloc (pt_alloc (sys_pt s)))" "fst ?sp = c"
    and s1: "sys_pt s1 = pt_modify c (\<lambda>q. q\<lparr>p_cwd := p_cwd P\<rparr>) (snd ?sp)"
      "sys_vmm s1 = create_address_space c (sys_vmm s)"
    using f P pt_spawn_pid [of "p_name P" pid "cr_uid (p_creds P)" "cr_gid (p_creds P)" "p_cmdline P" "sys_pt s"]
    by (cases ?sp; auto simp: sys_fork_def)+
  show fresh: "pt_get c (sys_pt s) = None"
    using spawn_pid_range(2) [OF inv] c(1) by (simp add: pt_get_def)
  show "c \<noteq> pid" using fresh P by auto
  show "c \<notin> set (p_children P)"
    using inv P fresh unfolding pt_inv_def children_ok_def pt_get_def by fastforce
  show "address_spaces (sys_vmm s1) = AList.update c (default_space c) (address_spaces (sys_vmm s))"
    by (simp add: s1 create_address_space_def)
  have "map_of (pt_table (sys_pt s1)) = (map_of (pt_table (sys_pt s)))
      (c \<mapsto> (new_process c (p_name P) pid (cr_uid (p_creds P)) (cr_gid (p_creds P)) (p_cmdline P))\<lparr>p_cwd := p_cwd P\<rparr>,
       pid \<mapsto> P\<lparr>p_children := p_children P @ [c]\<rparr>)"
    using P \<open>c \<noteq> pid\<close>
    by (auto simp: s1 pt_modify_def pt_spawn_table Let_def c(1) [symmetric] pt_get_def fun_eq_iff)
  then show "\<exists>C. map_of (pt_table (sys_pt s1)) = (map_of (pt_table (sys_pt s)))
           (c \<mapsto> C, pid \<mapsto> P\<lparr>p_children := p_children P @ [c]\<rparr>)
         \<and> p_ppid C = pid \<and> p_children C = [] \<and> p_fdt C = fdt_init \<and> p_cwd C = p_cwd P"
    by (intro exI conjI) (assumption | simp add: new_process_def)+
qed

text \<open>C17: The life of a child: a fork gives a PID no process has, with a new process that has no open
  files, the parent's directory and a fresh address space; when it exits, a wait4 of a parent without
  other dead children reaps exactly it, after which every process is as it was before the fork,
  the parent's children included, while the child's address space is still there.\<close>
theorem fork_exit_wait:
  assumes inv: "sys_inv s" and P: "pt_get pid (sys_pt s) = Some P"
    and quiet: "\<forall>d \<in> set (p_children P). \<forall>D. pt_get d (sys_pt s) = Some D \<longrightarrow> p_state D \<noteq> ZOMBIE"
  shows "\<exists>c s1 s2 s3. sys_fork pid s = (Inr c, s1) \<and> pt_get c (sys_pt s) = None
    \<and> (\<exists>C. pt_get c (sys_pt s1) = Some C \<and> p_ppid C = pid \<and> p_fdt C = fdt_init \<and> p_cwd C = p_cwd P)
    \<and> sys_exit c code s1 = (Inr 0, s2) \<and> sys_wait4 pid any opts s2 = (Inr c, s3)
    \<and> (\<forall>q. pt_get q (sys_pt s3) = pt_get q (sys_pt s))
    \<and> map_of (address_spaces (sys_vmm s3)) c = Some (default_space c)"
proof -
  obtain c s1 where f: "sys_fork pid s = (Inr c, s1)"
    using P by (cases "pt_spawn (p_name P) pid (cr_uid (p_creds P)) (cr_gid (p_creds P)) (p_cmdline P) (sys_pt s)")
      (simp add: sys_fork_def)
  note ft = fork_table [OF sys_invD(1) [OF inv] P f]
  obtain C where C: "map_of (pt_table (sys_pt s1)) = (map_of (pt_table (sys_pt s)))
      (c \<mapsto> C, pid \<mapsto> P\<lparr>p_children := p_children P @ [c]\<rparr>)"
    "p_ppid C = pid" "p_children C = []" "p_fdt C = fdt_init" "p_cwd C = p_cwd P" using ft(4) by blast
  define s2 where "s2 = mod_proc c (\<lambda>q. q\<lparr>p_state := ZOMBIE, p_exit_code := code\<rparr>) s1"
  have e: "sys_exit c code s1 = (Inr 0, s2)" using C ft(2) by (simp add: sys_exit_def s2_def pt_get_def)
  have t2: "map_of (pt_table (sys_pt s2)) = (map_of (pt_table (sys_pt s)))
      (c \<mapsto> C\<lparr>p_state := ZOMBIE, p_exit_code := code\<rparr>, pid \<mapsto> P\<lparr>p_children := p_children P @ [c]\<rparr>)"
    using C ft(2) by (auto simp: s2_def mod_proc_def pt_modify_def fun_eq_iff)
  have "reap (p_children P @ [c]) s2 = reap [c] s2"
    using quiet ft(3) P by (intro reap_skip) (auto simp: pt_get_def t2 split: if_splits)
  then have w: "sys_wait4 pid any opts s2 = (Inr c, s2\<lparr>sys_pt := pt_remove c (sys_pt s2)\<rparr>)"
    using ft(2) by (simp add: sys_wait4_def pt_get_def t2)
  have c2: "map_of (pt_table (sys_pt s2)) c = Some (C\<lparr>p_state := ZOMBIE, p_exit_code := code\<rparr>)"
    using ft(2) by (simp add: t2)
  have "map_of (pt_table (pt_remove c (sys_pt s2))) q = map_of (pt_table (sys_pt s)) q" for q
    using ft(1-3) P C(2) by (auto simp: pt_remove_table [OF c2] Let_def t2 pt_get_def remove1_append)
  moreover have "map_of (address_spaces (sys_vmm s2)) c = Some (default_space c)"
    by (simp add: s2_def mod_proc_def ft(5))
  ultimately show ?thesis
    using f e w C ft(1,2) by (intro exI [of _ c] exI [of _ s1] exI [of _ s2]
        exI [of _ "s2\<lparr>sys_pt := pt_remove c (sys_pt s2)\<rparr>"]) (simp add: pt_get_def)
qed

theorem fork_exit_wait_witness:
  "\<exists>c s1 s2 s3. sys_fork 2 (fold sys_step sample_calls (sys_init 8)) = (Inr c, s1)
     \<and> sys_exit c (VInt 7) s1 = (Inr 0, s2) \<and> sys_wait4 2 (VInt (- 1)) (VInt 0) s2 = (Inr c, s3)
     \<and> pt_get c (sys_pt s3) = None"
proof -
  let ?s = "fold sys_step sample_calls (sys_init 8)"
  have inv: "sys_inv ?s" by (rule sysm.inv_run) simp
  have c: "map_option p_children (pt_get 2 (sys_pt ?s)) = Some []" by code_simp
  then obtain P where P: "pt_get 2 (sys_pt ?s) = Some P" "p_children P = []" by blast
  have "\<forall>d \<in> set (p_children P). \<forall>D. pt_get d (sys_pt ?s) = Some D \<longrightarrow> p_state D \<noteq> ZOMBIE" using P(2) by simp
  from fork_exit_wait [OF inv P(1) this, of "VInt 7" "VInt (- 1)" "VInt 0"] show ?thesis by metis
qed

text \<open>C18: A system call made through the register context raises in exactly three situations, all
  because a register holds a number where the handler wants a string or bytes: writing a non-zero
  value to descriptor 1 or 2, opening with a non-zero path while something is mounted, and executing
  a non-zero path. Everything else, unknown numbers included, returns a number.\<close>
theorem register_calls_raise_iff:
  "(\<exists>e s'. dispatch_ctx c s = (Inl e, s')) \<longleftrightarrow>
     (\<exists>P. pt_get (sc_pid c) (sys_pt s) = Some P)
     \<and> (sc_nr c = NR_WRITE \<and> (sc_rdi c = 1 \<or> sc_rdi c = 2) \<and> sc_rsi c \<noteq> 0
        \<or> sc_nr c = NR_OPENAT \<and> sc_rsi c \<noteq> 0 \<and> vfs_mounts (sys_vfs s) \<noteq> []
        \<or> sc_nr c = NR_EXECVE \<and> sc_rdi c \<noteq> 0)"
proof (cases "sys_arity (sc_nr c)")
  case None
  then have "sc_nr c \<noteq> NR_WRITE" "sc_nr c \<noteq> NR_OPENAT" "sc_nr c \<noteq> NR_EXECVE"
    by (auto simp: sys_arity_def NR_defs)
  with None show ?thesis by (simp add: dispatch_ctx_def sys_dispatch_def)
next
  case (Some a)
  have no: "fst (sys_read pid (VInt i) (VInt j) s) \<noteq> Inl e" "fst (sys_close pid (VInt i) s) \<noteq> Inl e"
    "fst (sys_mmap pid (VInt i) (VInt j) x y s) \<noteq> Inl e" "fst (sys_munmap pid (VInt i) x s) \<noteq> Inl e"
    "fst (sys_brk_call pid (VInt i) s) \<noteq> Inl e" "fst (sys_fork pid s) \<noteq> Inl e" "fst (sys_exit pid x s) \<noteq> Inl e"
    "fst (sys_kill pid x y s) \<noteq> Inl e" "fst (reap cs s) \<noteq> Inl e" "fst (sys_nanosleep pid x y s) \<noteq> Inl e"
    "fst (sys_getpid pid s) \<noteq> Inl e"
    for pid i j x y e cs
    by (simp_all add: sys_read_def sys_close_def sys_mmap_def sys_munmap_def sys_brk_call_def sys_fork_def
        sys_exit_def sys_kill_def sys_nanosleep_def sys_getpid_def Let_def split: option.splits prod.splits)
      (induction cs; simp split: option.splits)
  have wait: "fst (sys_wait4 pid x y s) \<noteq> Inl e" for pid x y e
    using no(9) by (simp add: sys_wait4_def split: option.splits)
  have iff: "(\<exists>e s'. r = (Inl e, s')) \<longleftrightarrow> (\<exists>e. fst r = Inl e)" for r :: outcome by (cases r) auto
  have "sc_nr c \<in> {NR_READ, NR_WRITE, NR_OPENAT, NR_CLOSE, NR_MMAP, NR_MUNMAP, NR_BRK, NR_NANOSLEEP, NR_GETPID,
      NR_FORK, NR_EXECVE, NR_EXIT, NR_WAIT4, NR_KILL}"
    using Some by (auto simp: sys_arity_def split: if_splits)
  then show ?thesis
    unfolding iff dispatch_ctx_def sys_dispatch_def
    by (elim insertE emptyE; simp add: sys_arity_def NR_defs sys_handler_def arg_def no wait)
      (auto simp: sys_write_def sys_openat_def sys_execve_def Let_def split: option.splits prod.splits)
qed

text \<open>C34: The program break only grows and brk never fails: it returns the current break for zero or
  a smaller address and otherwise the address asked for, which becomes the break even when no frame
  is left and nothing was mapped.\<close>
theorem brk_never_fails:
  assumes inv: "sys_inv s"
  shows "\<exists>s'. sys_brk_call pid (VInt b) s = (Inr (if b = 0 \<or> b \<le> cur_brk pid s then cur_brk pid s else b), s')
    \<and> cur_brk pid s \<le> cur_brk pid s' \<and> BRK_START \<le> cur_brk pid s'
    \<and> (b \<noteq> 0 \<longrightarrow> cur_brk pid s' = max b (cur_brk pid s))
    \<and> (free_pages (vmm_pmm (sys_vmm s)) < pages_needed (b - cur_brk pid s) \<longrightarrow> sys_vmm s' = sys_vmm s)
    \<and> (\<forall>q. q \<noteq> pid \<longrightarrow> cur_brk q s' = cur_brk q s)"
proof (cases "b = 0 \<or> b \<le> cur_brk pid s")
  case True
  then show ?thesis using cur_brk_ge [OF inv] by (auto simp: sys_brk_call_def max_def)
next
  case False
  obtain ok v where m: "map_pages pid (cur_brk pid s) (b - cur_brk pid s) (VStr ''rw-'') (VStr ''[heap]'') (sys_vmm s) = (ok, v)"
    by fastforce
  have "v = sys_vmm s" if "free_pages (vmm_pmm (sys_vmm s)) < pages_needed (b - cur_brk pid s)"
    using map_pages_fails [OF sys_invD(3) [OF inv], of pid "b - cur_brk pid s"] m that by simp
  with False m cur_brk_ge [OF inv, of pid] show ?thesis
    by (auto simp: sys_brk_call_def Let_def) (simp_all add: cur_brk_def)
qed

theorem brk_never_fails_witness:
  "\<exists>s'. sys_brk_call 2 (VInt 0x700000) (sys_init 8) = (Inr 0x700000, s') \<and> sys_vmm s' = sys_vmm (sys_init 8)"
proof -
  have c: "cur_brk 2 (sys_init 8) = 0x601000" "free_pages (vmm_pmm (sys_vmm (sys_init 8))) = 8"
    "pages_needed (0x700000 - 0x601000) = 255"
    by (code_simp, code_simp, simp add: pages_needed_def PAGE_SIZE_def)
  show ?thesis using brk_never_fails [OF sys_inv_init [of 8], where pid = 2 and b = "0x700000"] unfolding c by auto
qed

end
