(* ===== verification/Threads.thy ===== *)
theory Threads
  imports Processes
begin

text \<open>
  \<^verbatim>\<open>thread.py\<close>: register contexts, threads, the TID allocator and the thread table. Thread objects
  are shared between the table and the scheduler's queues and mutated through both, so the model
  keeps them in an object store (\<open>tt_objs\<close>) and passes references, the positions in the store.
\<close>

section \<open>Threads\<close>

record cpu_context =
  r_rax :: int
  r_rbx :: int
  r_rcx :: int
  r_rdx :: int
  r_rsi :: int
  r_rdi :: int
  r_rsp :: int
  r_rbp :: int
  r_rip :: int
  r_rflags :: int
  r_cs :: int
  r_ss :: int

definition new_context :: cpu_context where
  "new_context = \<lparr>r_rax = 0, r_rbx = 0, r_rcx = 0, r_rdx = 0, r_rsi = 0, r_rdi = 0, r_rsp = 0,
     r_rbp = 0, r_rip = 0, r_rflags = 0x202, r_cs = 0x08, r_ss = 0x10\<rparr>"

record thread =
  t_tid :: int
  t_pid :: int
  t_name :: string
  t_state :: task_state
  t_context :: cpu_context
  t_timeslice :: int
  t_remaining :: int
  t_wait_reason :: string
  t_kernel :: bool
  t_affinity :: int
  t_priority :: int

section \<open>The TID allocator\<close>

record tid_allocator =
  next_tid :: int
  free_tids :: "int list"

definition ta_init :: tid_allocator where
  "ta_init = \<lparr>next_tid = 1, free_tids = []\<rparr>"

definition ta_alloc :: "tid_allocator \<Rightarrow> int \<times> tid_allocator" where
  "ta_alloc a = (case free_tids a of
     i # is \<Rightarrow> (i, a\<lparr>free_tids := is\<rparr>)
   | [] \<Rightarrow> (next_tid a, a\<lparr>next_tid := next_tid a + 1\<rparr>))"

definition ta_free :: "int \<Rightarrow> tid_allocator \<Rightarrow> tid_allocator" where
  "ta_free i a = a\<lparr>free_tids := free_tids a @ [i]\<rparr>"

definition ta_inv :: "tid_allocator \<Rightarrow> int set \<Rightarrow> bool" where
  "ta_inv a L \<longleftrightarrow> 1 \<le> next_tid a \<and> distinct (free_tids a) \<and> set (free_tids a) \<subseteq> {1..<next_tid a}
     \<and> set (free_tids a) \<inter> L = {} \<and> L \<subseteq> {1..<next_tid a}"

declare ta_inv_def [wf_defs]

interpretation ta: id_allocator ta_alloc ta_free ta_inv
proof unfold_locales
  fix a L i
  assume inv: "ta_inv a L"
  show "fst (ta_alloc a) \<notin> L"
    using inv by (auto simp: ta_alloc_def ta_inv_def split: list.splits)
  show "ta_inv (snd (ta_alloc a)) (insert (fst (ta_alloc a)) L)"
    using inv by (auto simp: ta_alloc_def ta_inv_def split: list.splits)
  show "ta_inv (ta_free i a) (L - {i})" if "i \<in> L"
    using inv that by (auto simp: ta_free_def ta_inv_def)
qed

section \<open>The thread table\<close>

record thread_table =
  tt_objs :: "thread list"
  tt_threads :: "(int, nat) dict"
  tt_alloc :: tid_allocator

definition tt_init :: thread_table where
  "tt_init = \<lparr>tt_objs = [], tt_threads = [], tt_alloc = ta_init\<rparr>"

definition new_thread :: "int \<Rightarrow> int \<Rightarrow> string \<Rightarrow> int \<Rightarrow> bool \<Rightarrow> thread" where
  "new_thread tid pid name timeslice kthread =
     \<lparr>t_tid = tid, t_pid = pid, t_name = name, t_state = NEW,
      t_context = (if kthread
        then new_context\<lparr>r_cs := 0x08, r_ss := 0x10, r_rsp := 0xFFFF800000000000 + tid * 0x10000\<rparr>
        else new_context\<lparr>r_cs := 0x2B, r_ss := 0x23, r_rsp := 0x00007fff00000000 - tid * 0x10000\<rparr>),
      t_timeslice = timeslice, t_remaining = timeslice, t_wait_reason = [], t_kernel = kthread,
      t_affinity = - 1, t_priority = 0\<rparr>"

text \<open>\<open>tt_spawn\<close> returns the reference of the new object.\<close>

definition tt_spawn ::
  "int \<Rightarrow> string \<Rightarrow> int \<Rightarrow> bool \<Rightarrow> 'z thread_table_scheme \<Rightarrow> nat \<times> 'z thread_table_scheme" where
  "tt_spawn pid name timeslice kthread s =
     (let (tid, a) = ta_alloc (tt_alloc s); ref = length (tt_objs s)
      in (ref, s\<lparr>tt_objs := tt_objs s @ [new_thread tid pid name timeslice kthread],
                 tt_threads := AList.update tid ref (tt_threads s), tt_alloc := a\<rparr>))"

definition tt_get :: "int \<Rightarrow> 'z thread_table_scheme \<Rightarrow> nat option" where
  "tt_get tid s = map_of (tt_threads s) tid"

definition tt_all :: "'z thread_table_scheme \<Rightarrow> nat list" where
  "tt_all s = map snd (tt_threads s)"

definition tt_by_pid :: "int \<Rightarrow> 'z thread_table_scheme \<Rightarrow> nat list" where
  "tt_by_pid pid s = filter (\<lambda>r. t_pid (tt_objs s ! r) = pid) (tt_all s)"

definition tt_remove :: "int \<Rightarrow> 'z thread_table_scheme \<Rightarrow> 'z thread_table_scheme" where
  "tt_remove tid s =
     (case map_of (tt_threads s) tid of
        None \<Rightarrow> s
      | Some _ \<Rightarrow> s\<lparr>tt_threads := AList.delete tid (tt_threads s), tt_alloc := ta_free tid (tt_alloc s)\<rparr>)"

text \<open>Assigning to the fields of the object a reference names.\<close>

definition tt_modify :: "nat \<Rightarrow> (thread \<Rightarrow> thread) \<Rightarrow> 'z thread_table_scheme \<Rightarrow> 'z thread_table_scheme" where
  "tt_modify r f s = s\<lparr>tt_objs := (tt_objs s)[r := f (tt_objs s ! r)]\<rparr>"

section \<open>Invariant\<close>

definition stack_top :: "thread \<Rightarrow> int" where
  "stack_top t = (if t_kernel t then 0xFFFF800000000000 + t_tid t * 0x10000
                  else 0x00007fff00000000 - t_tid t * 0x10000)"

definition tt_inv :: "'z thread_table_scheme \<Rightarrow> bool" where
  "tt_inv s \<longleftrightarrow> dict_ok (tt_threads s) \<and> ta_inv (tt_alloc s) (fst ` set (tt_threads s))
     \<and> (\<forall>tid r. map_of (tt_threads s) tid = Some r \<longrightarrow> r < length (tt_objs s) \<and> t_tid (tt_objs s ! r) = tid)
     \<and> (\<forall>t \<in> set (tt_objs s). r_rsp (t_context t) = stack_top t \<and> 1 \<le> t_tid t)"

declare tt_inv_def [wf_defs]

lemma tt_inv_init [intro, simp]: "tt_inv tt_init"
  by (simp add: tt_inv_def tt_init_def ta_inv_def ta_init_def)

lemma tt_spawn_fields [simp]:
  "fst (tt_spawn pid name ts k s) = length (tt_objs s)"
  "tt_objs (snd (tt_spawn pid name ts k s))
     = tt_objs s @ [new_thread (fst (ta_alloc (tt_alloc s))) pid name ts k]"
  "tt_threads (snd (tt_spawn pid name ts k s))
     = AList.update (fst (ta_alloc (tt_alloc s))) (length (tt_objs s)) (tt_threads s)"
  "tt_alloc (snd (tt_spawn pid name ts k s)) = snd (ta_alloc (tt_alloc s))"
  by (simp_all add: tt_spawn_def Let_def split: prod.splits)

lemma new_thread_fields [simp]:
  "t_tid (new_thread tid pid name ts k) = tid" "t_timeslice (new_thread tid pid name ts k) = ts"
  "t_remaining (new_thread tid pid name ts k) = ts" "t_kernel (new_thread tid pid name ts k) = k"
  "t_state (new_thread tid pid name ts k) = NEW" "t_pid (new_thread tid pid name ts k) = pid"
  "r_rsp (t_context (new_thread tid pid name ts k)) = stack_top (new_thread tid pid name ts k)"
  by (auto simp: new_thread_def stack_top_def)

lemma ta_alloc_pos: "ta_inv a L \<Longrightarrow> 1 \<le> fst (ta_alloc a)"
  by (auto simp: ta_inv_def ta_alloc_def split: list.splits)

lemma tt_inv_spawn [intro]:
  assumes "tt_inv s"
  shows "tt_inv (snd (tt_spawn pid name ts k s))"
proof -
  note inv = assms [unfolded tt_inv_def]
  have a: "ta_inv (tt_alloc s) (fst ` set (tt_threads s))" using inv by blast
  have "map_of (tt_threads (snd (tt_spawn pid name ts k s))) tid = Some r \<longrightarrow>
     r < length (tt_objs (snd (tt_spawn pid name ts k s)))
     \<and> t_tid (tt_objs (snd (tt_spawn pid name ts k s)) ! r) = tid" for tid r
    using inv by (cases "tid = fst (ta_alloc (tt_alloc s))") (auto simp: nth_append less_Suc_eq)
  then show ?thesis
    using inv ta.table_insert [OF a] ta_alloc_pos [OF a] by (simp add: tt_inv_def)
qed

lemma tt_inv_remove [intro]: "tt_inv s \<Longrightarrow> tt_inv (tt_remove tid s)"
  using ta.table_delete [of "tt_alloc s" "tt_threads s" tid]
  by (auto simp: tt_inv_def tt_remove_def split: option.splits)

text \<open>Updates that leave the identity of a thread alone, such as all of the scheduler's.\<close>

definition keeps_thread :: "(thread \<Rightarrow> thread) \<Rightarrow> bool" where
  "keeps_thread f \<longleftrightarrow> (\<forall>t. t_tid (f t) = t_tid t \<and> t_kernel (f t) = t_kernel t
     \<and> t_context (f t) = t_context t \<and> t_timeslice (f t) = t_timeslice t)"

lemma tt_inv_modify [intro]:
  assumes "tt_inv s" "keeps_thread f" "r < length (tt_objs s)"
  shows "tt_inv (tt_modify r f s)"
proof -
  have id: "t_tid (f t) = t_tid t" "t_context (f t) = t_context t" "stack_top (f t) = stack_top t" for t
    using assms(2) by (auto simp: keeps_thread_def stack_top_def)
  have tids: "t_tid ((tt_objs s)[r := f (tt_objs s ! r)] ! q) = t_tid (tt_objs s ! q)" for q
    using assms(3) id by (cases "q = r") auto
  have "\<forall>t \<in> set ((tt_objs s)[r := f (tt_objs s ! r)]). r_rsp (t_context t) = stack_top t \<and> 1 \<le> t_tid t"
    using assms(1,3) id nth_mem [OF assms(3)] unfolding tt_inv_def by (auto dest!: set_update_subset_insert [THEN subsetD])
  then show ?thesis
    using assms(1) tids by (auto simp: tt_inv_def tt_modify_def)
qed

lemma tt_get_spec:
  assumes "tt_inv s" "tt_get tid s = Some r"
  shows "r < length (tt_objs s)" "t_tid (tt_objs s ! r) = tid" "1 \<le> tid"
    "r_rsp (t_context (tt_objs s ! r)) = stack_top (tt_objs s ! r)"
proof -
  show r: "r < length (tt_objs s)" and t: "t_tid (tt_objs s ! r) = tid"
    using assms by (auto simp: tt_inv_def tt_get_def)
  show "1 \<le> tid" "r_rsp (t_context (tt_objs s ! r)) = stack_top (tt_objs s ! r)"
    using assms(1) nth_mem [OF r] t by (auto simp: tt_inv_def)
qed

datatype tt_op = TSpawn int string int bool | TRemove int | TSetState int task_state

fun tt_step :: "tt_op \<Rightarrow> thread_table \<Rightarrow> thread_table" where
  "tt_step (TSpawn pid name ts k) s = snd (tt_spawn pid name ts k s)"
| "tt_step (TRemove tid) s = tt_remove tid s"
| "tt_step (TSetState tid st) s =
     (case tt_get tid s of None \<Rightarrow> s | Some r \<Rightarrow> tt_modify r (\<lambda>t. t\<lparr>t_state := st\<rparr>) s)"

interpretation ttm: machine tt_init tt_step tt_inv
proof unfold_locales
  show "tt_inv tt_init" by simp
  show "tt_inv (tt_step e s)" if "tt_inv s" for s e
  proof (cases e)
    case (TSetState tid st)
    with that tt_get_spec(1) [OF that] show ?thesis
      by (auto simp: keeps_thread_def split: option.splits intro!: tt_inv_modify)
  qed (use that in auto)
qed

section \<open>Properties\<close>

text \<open>In every thread table reached from the empty one, a thread is filed under its own TID,
  which is at least 1, and the stack pointers given to two different live threads, kernel or user,
  lie at least one stack (0x10000 bytes) apart.\<close>
theorem thread_stacks_apart:
  assumes "reaches tt_step tt_init s" and "tt_get i s = Some r" and "tt_get j s = Some q" and "i \<noteq> j"
  shows "t_tid (tt_objs s ! r) = i \<and> 1 \<le> i
    \<and> 0x10000 \<le> \<bar>r_rsp (t_context (tt_objs s ! r)) - r_rsp (t_context (tt_objs s ! q))\<bar>"
proof -
  have inv: "tt_inv s" by (rule ttm.inv_reachable [OF assms(1)])
  note R = tt_get_spec [OF inv assms(2)] and Q = tt_get_spec [OF inv assms(3)]
  from assms(4) have "i + 1 \<le> j \<or> j + 1 \<le> i" by linarith
  with R Q show ?thesis by (auto simp: stack_top_def)
qed

theorem thread_stacks_apart_witness:
  "0x10000 \<le> \<bar>r_rsp (t_context (tt_objs (fold tt_step [TSpawn 0 ''a'' 1 True, TSpawn 2 ''b'' 10 False] tt_init) ! 0))
    - r_rsp (t_context (tt_objs (fold tt_step [TSpawn 0 ''a'' 1 True, TSpawn 2 ''b'' 10 False] tt_init) ! 1))\<bar>"
proof -
  let ?s = "fold tt_step [TSpawn 0 ''a'' 1 True, TSpawn 2 ''b'' 10 False] tt_init"
  have "tt_get 1 ?s = Some 0" "tt_get 2 ?s = Some 1" by code_simp+
  from thread_stacks_apart [OF reaches_fold this] show ?thesis by (simp del: fold_simps One_nat_def)
qed

text \<open>A removed TID is not looked up any more, the other threads keep their objects, and TIDs are
  recycled first freed, first reused.\<close>
theorem thread_remove_recycles:
  assumes "tt_inv s" and "tt_get tid s = Some r"
  shows "tt_get tid (tt_remove tid s) = None \<and> tt_inv (tt_remove tid s)
    \<and> (\<forall>i. i \<noteq> tid \<longrightarrow> tt_get i (tt_remove tid s) = tt_get i s) \<and> tt_objs (tt_remove tid s) = tt_objs s
    \<and> free_tids (tt_alloc (tt_remove tid s)) = free_tids (tt_alloc s) @ [tid]
    \<and> (free_tids (tt_alloc s) = [] \<longrightarrow>
        tt_get tid (snd (tt_spawn pid name ts k (tt_remove tid s))) = Some (length (tt_objs s)))"
  using assms tt_inv_remove [OF assms(1), of tid]
  by (auto simp: tt_remove_def tt_get_def ta_free_def ta_alloc_def split: option.splits)

theorem thread_remove_recycles_witness:
  "tt_get 1 (snd (tt_spawn 0 ''b'' 1 True (tt_remove 1 (snd (tt_spawn 0 ''a'' 1 True tt_init))))) = Some 1"
proof -
  let ?s = "snd (tt_spawn 0 ''a'' 1 True tt_init)"
  have "tt_inv ?s" by (intro tt_inv_spawn tt_inv_init)
  moreover have "tt_get 1 ?s = Some 0" "free_tids (tt_alloc ?s) = []" "length (tt_objs ?s) = 1" by code_simp+
  ultimately show ?thesis using thread_remove_recycles [of ?s 1 0 0 "''b''" 1 True] by simp
qed

end
