(* ===== verification/Scheduling.thy ===== *)
theory Scheduling
  imports Threads "HOL-Library.Multiset"
begin

text \<open>
  \<^verbatim>\<open>scheduler.py\<close>: the preemptive round-robin scheduler. Its state extends the thread table's, since
  its queues hold references into the same objects. An abstract round-robin queue (\<open>rr_tick\<close>) is
  the specification; \<^verbatim>\<open>tick\<close> refines it on every state the scheduler's clients can reach, and
  fairness is proved on the abstract queue.
\<close>

section \<open>State and operations\<close>

record sched = thread_table +
  runqueue :: "nat list"
  current :: "nat option"
  idle :: "nat option"
  tick_count :: int
  ctx_switches :: int
  blocked :: "nat list"

definition sched_new :: sched where
  "sched_new = \<lparr>tt_objs = [], tt_threads = [], tt_alloc = ta_init, runqueue = [], current = None,
     idle = None, tick_count = 0, ctx_switches = 0, blocked = []\<rparr>"

abbreviation obj :: "'z thread_table_scheme \<Rightarrow> nat \<Rightarrow> thread" where
  "obj s r \<equiv> tt_objs s ! r"

text \<open>\<^verbatim>\<open>t in xs\<close> and \<^verbatim>\<open>xs.remove(t)\<close> compare dataclass instances field by field, not by identity.\<close>

definition obj_in :: "nat \<Rightarrow> nat list \<Rightarrow> 'z thread_table_scheme \<Rightarrow> bool" where
  "obj_in r xs s = list_ex (\<lambda>x. obj s x = obj s r) xs"

definition obj_remove :: "nat \<Rightarrow> nat list \<Rightarrow> 'z thread_table_scheme \<Rightarrow> nat list" where
  "obj_remove r xs s = remove_first (\<lambda>x. obj s x = obj s r) xs"

definition sched_init :: "sched \<Rightarrow> sched" where
  "sched_init s =
     (let (r, s1) = tt_spawn 0 ''[idle]'' 1 True s
      in (tt_modify r (\<lambda>t. t\<lparr>t_state := RUNNABLE\<rparr>) s1)\<lparr>idle := Some r\<rparr>)"

definition add_thread :: "nat \<Rightarrow> sched \<Rightarrow> sched" where
  "add_thread r s =
     (let s1 = tt_modify r (\<lambda>t. t\<lparr>t_state := RUNNABLE\<rparr>) s
      in if obj_in r (runqueue s1) s1 then s1 else s1\<lparr>runqueue := runqueue s1 @ [r]\<rparr>)"

definition remove_thread :: "int \<Rightarrow> sched \<Rightarrow> sched" where
  "remove_thread tid s = s\<lparr>runqueue := filter (\<lambda>r. t_tid (obj s r) \<noteq> tid) (runqueue s)\<rparr>"

definition block_thread :: "int \<Rightarrow> string \<Rightarrow> sched \<Rightarrow> sched" where
  "block_thread tid reason s =
     (case find (\<lambda>r. t_tid (obj s r) = tid) (runqueue s) of
        None \<Rightarrow> s
      | Some r \<Rightarrow>
         (let s1 = tt_modify r (\<lambda>t. t\<lparr>t_state := SLEEP_INT, t_wait_reason := reason\<rparr>) s;
              s2 = s1\<lparr>runqueue := obj_remove r (runqueue s1) s1, blocked := blocked s1 @ [r]\<rparr>
          in case current s2 of
               Some c \<Rightarrow> if t_tid (obj s2 c) = tid then s2\<lparr>current := None\<rparr> else s2
             | None \<Rightarrow> s2))"

definition wake_thread :: "int \<Rightarrow> sched \<Rightarrow> sched" where
  "wake_thread tid s =
     (case find (\<lambda>r. t_tid (obj s r) = tid) (blocked s) of
        None \<Rightarrow> s
      | Some r \<Rightarrow>
         (let s1 = tt_modify r (\<lambda>t. t\<lparr>t_state := RUNNABLE, t_wait_reason := []\<rparr>) s
          in s1\<lparr>blocked := obj_remove r (blocked s1) s1, runqueue := runqueue s1 @ [r]\<rparr>))"

text \<open>Making \<open>r\<close> the current thread with a fresh quantum.\<close>

definition dispatch_thread :: "nat \<Rightarrow> sched \<Rightarrow> sched" where
  "dispatch_thread r s =
     (tt_modify r (\<lambda>t. t\<lparr>t_state := RUNNING, t_remaining := t_timeslice t\<rparr>) s)\<lparr>current := Some r\<rparr>"

definition tick :: "sched \<Rightarrow> nat option \<times> sched" where
  "tick s =
     (let s0 = s\<lparr>tick_count := tick_count s + 1\<rparr>
      in case runqueue s0 of
        [] \<Rightarrow> (idle s0, s0\<lparr>current := idle s0\<rparr>)
      | h # q \<Rightarrow>
         (let (c, s1) = (case current s0 of
                 None \<Rightarrow> (h, dispatch_thread h s0)
               | Some c \<Rightarrow> if obj_in c (h # q) s0 then (c, s0) else (h, dispatch_thread h s0));
              s2 = tt_modify c (\<lambda>t. t\<lparr>t_remaining := t_remaining t - 1\<rparr>) s1
          in if t_remaining (obj s2 c) \<le> 0
             then (let s3 = tt_modify c (\<lambda>t. t\<lparr>t_state := RUNNABLE, t_remaining := t_timeslice t\<rparr>) s2;
                       s4 = (if obj_in c (runqueue s3) s3
                             then s3\<lparr>runqueue := obj_remove c (runqueue s3) s3 @ [c]\<rparr> else s3);
                       s5 = (case runqueue s4 of
                               n # _ \<Rightarrow> (dispatch_thread n s4)\<lparr>ctx_switches := ctx_switches s4 + 1\<rparr>
                             | [] \<Rightarrow> s4\<lparr>current := idle s4\<rparr>)
                   in (current s5, s5))
             else (current s2, s2)))"

definition tick_n :: "int \<Rightarrow> sched \<Rightarrow> sched" where
  "tick_n n s = ((\<lambda>s. snd (tick s)) ^^ nat n) s"

record sched_report =
  ss_tick_count :: int
  ss_context_switches :: int
  ss_runqueue_length :: int
  ss_blocked_count :: int
  ss_current_thread :: string
  ss_runqueue :: "string list"
  ss_blocked :: "string list"

definition thread_label :: "thread \<Rightarrow> string" where
  "thread_label t = t_name t @ ''(tid='' @ py_str_int (t_tid t)"

definition sched_status :: "sched \<Rightarrow> sched_report" where
  "sched_status s = \<lparr>ss_tick_count = tick_count s, ss_context_switches = ctx_switches s,
     ss_runqueue_length = int (length (runqueue s)), ss_blocked_count = int (length (blocked s)),
     ss_current_thread = (case current s of Some c \<Rightarrow> thread_label (obj s c) @ '')'' | None \<Rightarrow> ''idle''),
     ss_runqueue = map (\<lambda>r. thread_label (obj s r) @ '', ticks_left='' @ py_str_int (t_remaining (obj s r)) @ '')'')
       (runqueue s),
     ss_blocked = map (\<lambda>r. thread_label (obj s r) @ '', reason='' @ t_wait_reason (obj s r) @ '')'') (blocked s)\<rparr>"

section \<open>Invariant\<close>

text \<open>
  Every thread the scheduler refers to is in the thread table under its own TID, so comparing
  objects field by field agrees with comparing references. No thread is queued twice or both queued
  and blocked, only the current thread is RUNNING, and a current thread that is queued is the head
  of the queue with part of its quantum left.
\<close>

definition known :: "'z thread_table_scheme \<Rightarrow> nat \<Rightarrow> bool" where
  "known s r \<longleftrightarrow> r < length (tt_objs s) \<and> map_of (tt_threads s) (t_tid (obj s r)) = Some r"

definition live :: "sched \<Rightarrow> nat set" where
  "live s = set (runqueue s) \<union> set (blocked s) \<union> set_option (current s) \<union> set_option (idle s)"

definition sched_inv :: "sched \<Rightarrow> bool" where
  "sched_inv s \<longleftrightarrow> tt_inv s
     \<and> (\<forall>r \<in> live s. known s r \<and> 0 < t_timeslice (obj s r))
     \<and> distinct (runqueue s @ blocked s)
     \<and> (\<forall>r \<in> set (runqueue s). t_state (obj s r) = RUNNABLE
          \<or> t_state (obj s r) = RUNNING \<and> current s = Some r)
     \<and> (\<forall>r \<in> set (blocked s). t_state (obj s r) = SLEEP_INT)
     \<and> set_option (idle s) \<inter> set (runqueue s @ blocked s) = {}
     \<and> (\<forall>c. current s = Some c \<longrightarrow> c \<notin> set (blocked s)
          \<and> (c \<in> set (runqueue s) \<longrightarrow> c = hd (runqueue s)
               \<and> 0 < t_remaining (obj s c) \<and> t_remaining (obj s c) \<le> t_timeslice (obj s c)))"

lemma known_inj: "known s r \<Longrightarrow> known s x \<Longrightarrow> t_tid (obj s r) = t_tid (obj s x) \<longleftrightarrow> r = x"
  unfolding known_def by (metis option.inject)

lemma modify_fields [simp]:
  "length (tt_objs (tt_modify r f s)) = length (tt_objs s)"
  "tt_threads (tt_modify r f s) = tt_threads s" "tt_alloc (tt_modify r f s) = tt_alloc s"
  "r < length (tt_objs s) \<Longrightarrow> obj (tt_modify r f s) r = f (obj s r)"
  "x \<noteq> r \<Longrightarrow> obj (tt_modify r f s) x = obj s x"
  by (simp_all add: tt_modify_def)

lemma modify_sched_fields [simp]:
  "runqueue (tt_modify r f s) = runqueue s" "blocked (tt_modify r f s) = blocked s"
  "current (tt_modify r f s) = current s" "idle (tt_modify r f s) = idle s"
  "tick_count (tt_modify r f s) = tick_count s" "ctx_switches (tt_modify r f s) = ctx_switches s"
  by (simp_all add: tt_modify_def)

lemma keeps_thread_upd [simp]:
  "keeps_thread (\<lambda>t. t\<lparr>t_state := st\<rparr>)"
  "keeps_thread (\<lambda>t. t\<lparr>t_state := st, t_wait_reason := w\<rparr>)"
  "keeps_thread (\<lambda>t. t\<lparr>t_remaining := g t\<rparr>)"
  "keeps_thread (\<lambda>t. t\<lparr>t_state := st, t_remaining := g t\<rparr>)"
  by (simp_all add: keeps_thread_def)

lemma modify_keeps:
  assumes "keeps_thread f" "r < length (tt_objs s)"
  shows "t_tid (obj (tt_modify r f s) x) = t_tid (obj s x)"
    "t_timeslice (obj (tt_modify r f s) x) = t_timeslice (obj s x)"
    "known (tt_modify r f s) x = known s x"
  using assms by (cases "x = r"; simp add: keeps_thread_def known_def)+

lemma obj_in_known:
  "known s r \<Longrightarrow> \<forall>x \<in> set xs. known s x \<Longrightarrow> obj_in r xs s \<longleftrightarrow> r \<in> set xs"
  unfolding obj_in_def list_ex_iff by (metis known_inj)

lemma obj_remove_known:
  "known s r \<Longrightarrow> \<forall>x \<in> set xs. known s x \<Longrightarrow> obj_remove r xs s = remove1 r xs"
  unfolding obj_remove_def remove_first_eq [symmetric]
  by (rule remove_first_cong) (metis known_inj)

lemma find_known:
  assumes "\<forall>x \<in> set xs. known s x" "find (\<lambda>r. t_tid (obj s r) = tid) xs = Some r"
  shows "r \<in> set xs" "t_tid (obj s r) = tid" "known s r"
  using assms by (auto simp: find_Some_iff)

lemma tt_inv_ext: "tt_objs s = tt_objs t \<Longrightarrow> tt_threads s = tt_threads t \<Longrightarrow> tt_alloc s = tt_alloc t
   \<Longrightarrow> tt_inv s = tt_inv t"
  by (simp add: tt_inv_def)

lemma upd_tt_inv [simp]:
  "tt_inv (s\<lparr>runqueue := q\<rparr>) = tt_inv s" "tt_inv (s\<lparr>blocked := q\<rparr>) = tt_inv s"
  "tt_inv (s\<lparr>current := c\<rparr>) = tt_inv s" "tt_inv (s\<lparr>idle := c\<rparr>) = tt_inv s"
  "tt_inv (s\<lparr>tick_count := n\<rparr>) = tt_inv s" "tt_inv (s\<lparr>ctx_switches := n\<rparr>) = tt_inv s"
  by (simp_all add: tt_inv_def)

lemma upd_known [simp]:
  "known (s\<lparr>runqueue := q\<rparr>) r = known s r" "known (s\<lparr>blocked := q\<rparr>) r = known s r"
  "known (s\<lparr>current := c\<rparr>) r = known s r" "known (s\<lparr>idle := c\<rparr>) r = known s r"
  "known (s\<lparr>tick_count := n\<rparr>) r = known s r" "known (s\<lparr>ctx_switches := n\<rparr>) r = known s r"
  by (simp_all add: known_def)

lemma inv_live:
  assumes "sched_inv s" "r \<in> live s"
  shows "known s r" "r < length (tt_objs s)" "0 < t_timeslice (obj s r)"
  using assms by (auto simp: sched_inv_def known_def)

lemma live_memI:
  "r \<in> set (runqueue s) \<Longrightarrow> r \<in> live s" "r \<in> set (blocked s) \<Longrightarrow> r \<in> live s"
  "current s = Some r \<Longrightarrow> r \<in> live s" "idle s = Some r \<Longrightarrow> r \<in> live s"
  by (auto simp: live_def)

subsection \<open>Queue operations in terms of references\<close>

lemma add_thread_known:
  assumes inv: "sched_inv s" and r: "known s r"
  shows "add_thread r s =
    (let s1 = tt_modify r (\<lambda>t. t\<lparr>t_state := RUNNABLE\<rparr>) s
     in if r \<in> set (runqueue s) then s1 else s1\<lparr>runqueue := runqueue s @ [r]\<rparr>)"
proof -
  have "obj_in r (runqueue s) (tt_modify r (\<lambda>t. t\<lparr>t_state := RUNNABLE\<rparr>) s) = (r \<in> set (runqueue s))"
    using r inv_live [OF inv live_memI(1)] by (subst obj_in_known) (auto simp: modify_keeps known_def)
  then show ?thesis by (simp add: add_thread_def Let_def)
qed

lemma block_thread_known:
  assumes inv: "sched_inv s" and r: "r \<in> set (runqueue s)" "t_tid (obj s r) = tid"
  shows "block_thread tid reason s =
    (tt_modify r (\<lambda>t. t\<lparr>t_state := SLEEP_INT, t_wait_reason := reason\<rparr>) s)
      \<lparr>runqueue := remove1 r (runqueue s), blocked := blocked s @ [r],
       current := (if current s = Some r then None else current s)\<rparr>"
proof -
  have known: "\<forall>x \<in> set (runqueue s). known s x" using inv_live [OF inv live_memI(1)] by blast
  have "find (\<lambda>r. t_tid (obj s r) = tid) (runqueue s) = Some r"
  proof (cases "find (\<lambda>r. t_tid (obj s r) = tid) (runqueue s)")
    case None
    with r show ?thesis by (auto simp: find_None_iff)
  next
    case (Some x)
    with find_known [OF known Some] known r show ?thesis by (metis known_inj)
  qed
  moreover have "obj_remove r (runqueue s) (tt_modify r (\<lambda>t. t\<lparr>t_state := SLEEP_INT, t_wait_reason := reason\<rparr>) s)
      = remove1 r (runqueue s)"
    using known r by (subst obj_remove_known) (auto simp: modify_keeps known_def)
  moreover have "t_tid (obj s c) = tid \<longleftrightarrow> c = r" if "current s = Some c" for c
    using known_inj [OF inv_live(1) [OF inv live_memI(3) [OF that]]] known r by metis
  ultimately show ?thesis
    using known r by (auto simp: block_thread_def Let_def modify_keeps known_def split: option.splits)
qed

lemma block_thread_absent:
  "\<forall>r \<in> set (runqueue s). t_tid (obj s r) \<noteq> tid \<Longrightarrow> block_thread tid reason s = s"
  by (simp add: block_thread_def find_None_iff [THEN iffD2])

lemma wake_thread_known:
  assumes inv: "sched_inv s" and r: "r \<in> set (blocked s)" "t_tid (obj s r) = tid"
  shows "wake_thread tid s =
    (tt_modify r (\<lambda>t. t\<lparr>t_state := RUNNABLE, t_wait_reason := []\<rparr>) s)
      \<lparr>blocked := remove1 r (blocked s), runqueue := runqueue s @ [r]\<rparr>"
proof -
  have known: "\<forall>x \<in> set (blocked s). known s x" using inv_live [OF inv live_memI(2)] by blast
  have "find (\<lambda>r. t_tid (obj s r) = tid) (blocked s) = Some r"
  proof (cases "find (\<lambda>r. t_tid (obj s r) = tid) (blocked s)")
    case None
    with r show ?thesis by (auto simp: find_None_iff)
  next
    case (Some x)
    with find_known [OF known Some] known r show ?thesis by (metis known_inj)
  qed
  moreover have "obj_remove r (blocked s) (tt_modify r (\<lambda>t. t\<lparr>t_state := RUNNABLE, t_wait_reason := []\<rparr>) s)
      = remove1 r (blocked s)"
    using known r by (subst obj_remove_known) (auto simp: modify_keeps known_def)
  ultimately show ?thesis by (simp add: wake_thread_def Let_def)
qed

lemma wake_thread_absent:
  "\<forall>r \<in> set (blocked s). t_tid (obj s r) \<noteq> tid \<Longrightarrow> wake_thread tid s = s"
  by (simp add: wake_thread_def find_None_iff [THEN iffD2])

subsection \<open>Preservation\<close>

lemma sched_inv_add:
  assumes inv: "sched_inv s" and r: "known s r" "0 < t_timeslice (obj s r)" "r \<notin> set (blocked s)" "idle s \<noteq> Some r"
    and cur: "current s = Some r \<Longrightarrow> r \<in> set (runqueue s)"
  shows "sched_inv (add_thread r s)"
proof -
  let ?s1 = "tt_modify r (\<lambda>t. t\<lparr>t_state := RUNNABLE\<rparr>) s"
  have len: "r < length (tt_objs s)" using r(1) by (simp add: known_def)
  have st: "t_state (obj ?s1 x) = (if x = r then RUNNABLE else t_state (obj s x))"
    "t_remaining (obj ?s1 x) = t_remaining (obj s x)" for x
    using len by (cases "x = r"; simp)+
  have tt: "tt_inv ?s1" using inv len by (intro tt_inv_modify) (auto simp: sched_inv_def)
  note k = modify_keeps [OF keeps_thread_upd(1) len]
  show ?thesis
  proof (cases "r \<in> set (runqueue s)")
    case True
    then have "add_thread r s = ?s1" by (simp add: add_thread_known [OF inv r(1)])
    with inv r tt True show ?thesis by (auto simp: sched_inv_def live_def k st)
  next
    case False
    then have a: "add_thread r s = ?s1\<lparr>runqueue := runqueue s @ [r]\<rparr>"
      by (simp add: add_thread_known [OF inv r(1)])
    have "current s \<noteq> Some r" using cur False by blast
    with inv r tt False show ?thesis
      unfolding a by (auto simp: sched_inv_def live_def k st hd_append)
  qed
qed

lemma sched_inv_remove:
  assumes inv: "sched_inv s" and "\<And>c. current s = Some c \<Longrightarrow> t_tid (obj s c) \<noteq> tid"
  shows "sched_inv (remove_thread tid s)"
proof -
  have "hd (filter (\<lambda>r. t_tid (obj s r) \<noteq> tid) (runqueue s)) = hd (runqueue s)"
    if "current s = Some c" "c \<in> set (runqueue s)" for c
    using inv that assms(2) by (cases "runqueue s") (auto simp: sched_inv_def)
  with inv show ?thesis
    by (auto simp: sched_inv_def remove_thread_def live_def)
qed

lemma sched_inv_block:
  assumes inv: "sched_inv s"
  shows "sched_inv (block_thread tid reason s)"
proof (cases "\<exists>r \<in> set (runqueue s). t_tid (obj s r) = tid")
  case True
  then obtain r where r: "r \<in> set (runqueue s)" "t_tid (obj s r) = tid" by blast
  let ?s1 = "tt_modify r (\<lambda>t. t\<lparr>t_state := SLEEP_INT, t_wait_reason := reason\<rparr>) s"
  have len: "r < length (tt_objs s)" using inv_live(2) [OF inv live_memI(1) [OF r(1)]] .
  have st: "t_state (obj ?s1 x) = (if x = r then SLEEP_INT else t_state (obj s x))"
    "t_remaining (obj ?s1 x) = t_remaining (obj s x)" for x
    using len by (cases "x = r"; simp)+
  have tt: "tt_inv ?s1" using inv len by (intro tt_inv_modify) (auto simp: sched_inv_def)
  note k = modify_keeps [OF keeps_thread_upd(2) len]
  have d: "distinct (runqueue s)" "distinct (blocked s)" "set (runqueue s) \<inter> set (blocked s) = {}"
    using inv by (auto simp: sched_inv_def)
  have h: "hd (remove1 r (runqueue s)) = hd (runqueue s)"
    if "current s = Some c" "c \<noteq> r" "c \<in> set (runqueue s)" for c
    using inv that by (cases "runqueue s") (auto simp: sched_inv_def)
  show ?thesis
    unfolding block_thread_known [OF inv r]
    using inv r tt d h by (auto simp: sched_inv_def live_def k st)
next
  case False
  then have "block_thread tid reason s = s" by (intro block_thread_absent) blast
  with inv show ?thesis by simp
qed

lemma sched_inv_wake:
  assumes inv: "sched_inv s"
  shows "sched_inv (wake_thread tid s)"
proof (cases "\<exists>r \<in> set (blocked s). t_tid (obj s r) = tid")
  case True
  then obtain r where r: "r \<in> set (blocked s)" "t_tid (obj s r) = tid" by blast
  let ?s1 = "tt_modify r (\<lambda>t. t\<lparr>t_state := RUNNABLE, t_wait_reason := []\<rparr>) s"
  have len: "r < length (tt_objs s)" using inv_live(2) [OF inv live_memI(2) [OF r(1)]] .
  have st: "t_state (obj ?s1 x) = (if x = r then RUNNABLE else t_state (obj s x))"
    "t_remaining (obj ?s1 x) = t_remaining (obj s x)" for x
    using len by (cases "x = r"; simp)+
  have tt: "tt_inv ?s1" using inv len by (intro tt_inv_modify) (auto simp: sched_inv_def)
  note k = modify_keeps [OF keeps_thread_upd(2) len]
  have d: "distinct (runqueue s)" "distinct (blocked s)" "set (runqueue s) \<inter> set (blocked s) = {}"
    using inv by (auto simp: sched_inv_def)
  have c: "current s \<noteq> Some r" using inv r by (auto simp: sched_inv_def)
  show ?thesis
    unfolding wake_thread_known [OF inv r]
    using inv r tt d c by (auto simp: sched_inv_def live_def k st hd_append)
next
  case False
  then have "wake_thread tid s = s" by (intro wake_thread_absent) blast
  with inv show ?thesis by simp
qed

subsection \<open>The tick\<close>

text \<open>What is left of the head's quantum when the tick starts: a head that is not current is
  dispatched with a fresh quantum first.\<close>

definition quantum :: "sched \<Rightarrow> nat \<Rightarrow> int" where
  "quantum s h = (if current s = Some h then t_remaining (obj s h) else t_timeslice (obj s h))"

lemma dispatch_fields [simp]:
  "runqueue (dispatch_thread r s) = runqueue s" "blocked (dispatch_thread r s) = blocked s"
  "current (dispatch_thread r s) = Some r" "idle (dispatch_thread r s) = idle s"
  "tick_count (dispatch_thread r s) = tick_count s" "ctx_switches (dispatch_thread r s) = ctx_switches s"
  "tt_threads (dispatch_thread r s) = tt_threads s" "tt_alloc (dispatch_thread r s) = tt_alloc s"
  "tt_objs (dispatch_thread r s)
     = (tt_objs s)[r := (obj s r)\<lparr>t_state := RUNNING, t_remaining := t_timeslice (obj s r)\<rparr>]"
  by (simp_all add: dispatch_thread_def tt_modify_def)

lemma tick_empty:
  "runqueue s = [] \<Longrightarrow> tick s = (idle s, s\<lparr>tick_count := tick_count s + 1, current := idle s\<rparr>)"
  by (simp add: tick_def Let_def)

lemma current_queued:
  assumes "sched_inv s" "runqueue s = h # q" "current s = Some c"
  shows "obj_in c (h # q) (s\<lparr>tick_count := n\<rparr>) \<longleftrightarrow> c = h"
proof -
  have "obj_in c (h # q) (s\<lparr>tick_count := n\<rparr>) \<longleftrightarrow> c \<in> set (h # q)"
    using inv_live(1) [OF assms(1)] live_memI assms(2,3) by (intro obj_in_known) auto
  then show ?thesis using assms by (auto simp: sched_inv_def)
qed

lemma tick_stay:
  assumes inv: "sched_inv s" and q: "runqueue s = h # q" and k: "1 < quantum s h"
  shows "tick s = (Some h, s\<lparr>tt_objs := (tt_objs s)[h := (obj s h)\<lparr>
      t_state := (if current s = Some h then t_state (obj s h) else RUNNING), t_remaining := quantum s h - 1\<rparr>],
    current := Some h, tick_count := tick_count s + 1\<rparr>)"
proof -
  have len: "h < length (tt_objs s)" using inv_live(2) [OF inv live_memI(1), of h] q by simp
  show ?thesis
  proof (cases "current s")
    case None
    with q k len show ?thesis
      by (simp add: tick_def Let_def quantum_def tt_modify_def)
  next
    case (Some c)
    with q k len show ?thesis
      by (cases "c = h") (simp_all add: tick_def Let_def quantum_def tt_modify_def current_queued [OF inv q])
  qed
qed

lemma obj_in_head: "obj_in h (h # q) s" "obj_remove h (h # q) s = q"
  by (simp_all add: obj_in_def obj_remove_def)

lemma tick_rotate:
  assumes inv: "sched_inv s" and q: "runqueue s = h # q" and k: "quantum s h \<le> 1"
  defines "n \<equiv> hd (q @ [h])"
  defines "objs \<equiv> (tt_objs s)[h := (obj s h)\<lparr>t_state := RUNNABLE, t_remaining := t_timeslice (obj s h)\<rparr>]"
  shows "tick s = (Some n, s\<lparr>runqueue := q @ [h],
    tt_objs := objs[n := (objs ! n)\<lparr>t_state := RUNNING, t_remaining := t_timeslice (objs ! n)\<rparr>],
    current := Some n, tick_count := tick_count s + 1,
    ctx_switches := ctx_switches s + 1\<rparr>)"
proof -
  have len: "h < length (tt_objs s)" using inv_live(2) [OF inv live_memI(1), of h] q by simp
  note defs = tick_def Let_def quantum_def tt_modify_def n_def objs_def obj_in_head
  show ?thesis
  proof (cases "current s")
    case None
    with q k len show ?thesis by (cases q) (simp_all add: defs)
  next
    case (Some c)
    with q k len current_queued [OF inv q Some] show ?thesis
      by (cases "c = h"; cases q) (simp_all add: defs)
  qed
qed

lemma inv_state:
  "sched_inv s \<Longrightarrow> r \<in> set (runqueue s) \<Longrightarrow>
     t_state (obj s r) = RUNNABLE \<or> t_state (obj s r) = RUNNING \<and> current s = Some r"
  by (simp add: sched_inv_def)

lemma inv_current:
  "sched_inv s \<Longrightarrow> current s = Some c \<Longrightarrow> c \<in> set (runqueue s) \<Longrightarrow>
     c = hd (runqueue s) \<and> 0 < t_remaining (obj s c) \<and> t_remaining (obj s c) \<le> t_timeslice (obj s c)"
  unfolding sched_inv_def by blast

lemma inv_tail:
  assumes "sched_inv s" "runqueue s = h # q"
  shows "h \<notin> set q" "h \<notin> set (blocked s)" "\<forall>r \<in> set q. t_state (obj s r) = RUNNABLE"
proof -
  show h: "h \<notin> set q" "h \<notin> set (blocked s)" using assms by (simp_all add: sched_inv_def)
  show "\<forall>r \<in> set q. t_state (obj s r) = RUNNABLE"
  proof
    fix r assume r: "r \<in> set q"
    then have "current s = Some r \<Longrightarrow> r = h" using inv_current [OF assms(1), of r] assms(2) by simp
    with r h inv_state [OF assms(1), of r] assms(2) show "t_state (obj s r) = RUNNABLE" by auto
  qed
qed

lemma sched_inv_dispatch:
  assumes inv: "sched_inv s" and q: "runqueue s = h # q"
    and m: "0 < m" "m \<le> t_timeslice (obj s h)"
    and st: "st = RUNNABLE \<or> st = RUNNING"
  shows "sched_inv (s\<lparr>tt_objs := (tt_objs s)[h := (obj s h)\<lparr>t_state := st, t_remaining := m\<rparr>],
    current := Some h, tick_count := x, ctx_switches := y\<rparr>)"
proof -
  let ?f = "\<lambda>t. t\<lparr>t_state := st, t_remaining := m\<rparr>"
  let ?s1 = "tt_modify h ?f s"
  have eq: "s\<lparr>tt_objs := (tt_objs s)[h := (obj s h)\<lparr>t_state := st, t_remaining := m\<rparr>],
      current := Some h, tick_count := x, ctx_switches := y\<rparr>
    = ?s1\<lparr>current := Some h, tick_count := x, ctx_switches := y\<rparr>"
    by (simp add: tt_modify_def)
  have len: "h < length (tt_objs s)" using inv_live(2) [OF inv live_memI(1), of h] q by simp
  have f: "keeps_thread ?f" by (simp add: keeps_thread_def)
  note k = modify_keeps [OF f len]
  have tt: "tt_inv ?s1" using inv len f by (intro tt_inv_modify) (auto simp: sched_inv_def)
  have o: "t_state (obj ?s1 x) = (if x = h then st else t_state (obj s x))"
    "t_remaining (obj ?s1 x) = (if x = h then m else t_remaining (obj s x))" for x
    using len by (cases "x = h"; simp)+
  note h = inv_tail [OF inv q]
  show ?thesis
    unfolding eq using inv q tt h m st
    by (auto simp: sched_inv_def live_def k o)
qed

lemma sched_inv_rotate:
  assumes inv: "sched_inv s" and q: "runqueue s = h # q"
  shows "sched_inv (s\<lparr>tt_objs := (tt_objs s)[h := (obj s h)\<lparr>t_state := RUNNABLE, t_remaining := t_timeslice (obj s h)\<rparr>],
    runqueue := q @ [h], current := None\<rparr>)"
proof -
  let ?f = "\<lambda>t. t\<lparr>t_state := RUNNABLE, t_remaining := t_timeslice t\<rparr>"
  let ?s1 = "tt_modify h ?f s"
  have eq: "s\<lparr>tt_objs := (tt_objs s)[h := (obj s h)\<lparr>t_state := RUNNABLE, t_remaining := t_timeslice (obj s h)\<rparr>],
    runqueue := q @ [h], current := None\<rparr> = ?s1\<lparr>runqueue := q @ [h], current := None\<rparr>"
    by (simp add: tt_modify_def)
  have len: "h < length (tt_objs s)" using inv_live(2) [OF inv live_memI(1), of h] q by simp
  note k = modify_keeps [OF keeps_thread_upd(4) len]
  have tt: "tt_inv ?s1" using inv len by (intro tt_inv_modify) (auto simp: sched_inv_def)
  have o: "t_state (obj ?s1 x) = (if x = h then RUNNABLE else t_state (obj s x))" for x
    using len by (cases "x = h"; simp)
  note h = inv_tail [OF inv q]
  show ?thesis
    unfolding eq using inv q tt h
    by (auto simp: sched_inv_def live_def k o)
qed

lemma sched_inv_tick:
  assumes inv: "sched_inv s"
  shows "sched_inv (snd (tick s))"
proof (cases "runqueue s")
  case Nil
  with inv show ?thesis
    by (auto simp: tick_empty sched_inv_def live_def)
next
  case (Cons h q)
  have len: "h < length (tt_objs s)" using inv_live(2) [OF inv live_memI(1), of h] Cons by simp
  have ts: "0 < t_timeslice (obj s h)" using inv_live(3) [OF inv live_memI(1), of h] Cons by simp
  show ?thesis
  proof (cases "1 < quantum s h")
    case True
    have "quantum s h - 1 \<le> t_timeslice (obj s h)"
      using inv_current [OF inv, of h] Cons by (auto simp: quantum_def)
    moreover have "(if current s = Some h then t_state (obj s h) else RUNNING) = RUNNABLE
        \<or> (if current s = Some h then t_state (obj s h) else RUNNING) = RUNNING"
      using inv_state [OF inv, of h] Cons by auto
    moreover have "snd (tick s) = s\<lparr>tt_objs := (tt_objs s)[h := (obj s h)\<lparr>
        t_state := (if current s = Some h then t_state (obj s h) else RUNNING), t_remaining := quantum s h - 1\<rparr>],
      current := Some h, tick_count := tick_count s + 1, ctx_switches := ctx_switches s\<rparr>"
      by (simp add: tick_stay [OF inv Cons True])
    moreover have "0 < quantum s h - 1" using True by simp
    ultimately show ?thesis by (simp only:) (rule sched_inv_dispatch [OF inv Cons])
  next
    case False
    let ?s1 = "s\<lparr>tt_objs := (tt_objs s)[h := (obj s h)\<lparr>t_state := RUNNABLE, t_remaining := t_timeslice (obj s h)\<rparr>],
      runqueue := q @ [h], current := None\<rparr>"
    let ?n = "hd (q @ [h])" and ?q = "tl (q @ [h])"
    have i1: "sched_inv ?s1" by (rule sched_inv_rotate [OF inv Cons])
    have q1: "runqueue ?s1 = ?n # ?q" by (cases q) auto
    have "0 < t_timeslice (obj ?s1 ?n)"
      using inv_live(3) [OF i1 live_memI(1), of ?n] q1 by (metis list.set_intros(1))
    from sched_inv_dispatch [OF i1 q1 this order_refl, of RUNNING "ctx_switches s + 1" "tick_count s + 1"] False
    show ?thesis by (simp add: tick_rotate [OF inv Cons])
  qed
qed

section \<open>Clients of the scheduler\<close>

text \<open>
  What the rest of the kernel does to the scheduler: spawn a thread with a positive quantum and queue
  it, queue a thread of the table that is not blocked, not the idle thread and not a running thread
  taken off the queue, remove a thread that is not running, block, wake, tick.
\<close>

datatype sched_op =
    SSpawn int string int bool
  | SAdd nat
  | SRemove int
  | SBlock int string
  | SWake int
  | STick

definition may_add :: "nat \<Rightarrow> sched \<Rightarrow> bool" where
  "may_add r s \<longleftrightarrow> known s r \<and> 0 < t_timeslice (obj s r) \<and> r \<notin> set (blocked s) \<and> idle s \<noteq> Some r
     \<and> (current s = Some r \<longrightarrow> r \<in> set (runqueue s))"

definition is_current :: "int \<Rightarrow> sched \<Rightarrow> bool" where
  "is_current tid s = (case current s of Some c \<Rightarrow> t_tid (obj s c) = tid | None \<Rightarrow> False)"

fun sched_step :: "sched_op \<Rightarrow> sched \<Rightarrow> sched" where
  "sched_step (SSpawn pid name ts k) s =
     (if 0 < ts then (let (r, s1) = tt_spawn pid name ts k s in add_thread r s1) else s)"
| "sched_step (SAdd r) s = (if may_add r s then add_thread r s else s)"
| "sched_step (SRemove tid) s = (if is_current tid s then s else remove_thread tid s)"
| "sched_step (SBlock tid reason) s = block_thread tid reason s"
| "sched_step (SWake tid) s = wake_thread tid s"
| "sched_step STick s = snd (tick s)"

definition sched_boot :: sched where
  "sched_boot = sched_init sched_new"

lemma sched_inv_boot [intro, simp]: "sched_inv sched_boot"
  by (auto simp: sched_boot_def sched_init_def sched_new_def tt_spawn_def ta_alloc_def ta_init_def
      tt_modify_def new_thread_def new_context_def sched_inv_def live_def known_def tt_inv_def ta_inv_def
      stack_top_def)

lemma spawn_sched_fields [simp]:
  "runqueue (snd (tt_spawn pid name ts k s)) = runqueue s" "blocked (snd (tt_spawn pid name ts k s)) = blocked s"
  "current (snd (tt_spawn pid name ts k s)) = current s" "idle (snd (tt_spawn pid name ts k s)) = idle s"
  by (simp_all add: tt_spawn_def Let_def split: prod.splits)

lemma fresh_tid:
  "tt_inv s \<Longrightarrow> map_of (tt_threads s) (fst (ta_alloc (tt_alloc s))) = None"
  by (rule ta.table_fresh) (simp add: tt_inv_def)

lemma spawn_known:
  assumes "tt_inv s" "known s r"
  shows "known (snd (tt_spawn pid name ts k s)) r" "obj (snd (tt_spawn pid name ts k s)) r = obj s r"
  using assms fresh_tid [OF assms(1)] by (auto simp: known_def nth_append)

lemma sched_inv_spawn:
  assumes inv: "sched_inv s"
  shows "sched_inv (snd (tt_spawn pid name ts k s))"
proof -
  let ?s = "snd (tt_spawn pid name ts k s)"
  have tt: "tt_inv s" using inv by (simp add: sched_inv_def)
  have live: "live ?s = live s" by (simp add: live_def)
  have k: "known ?s r" "obj ?s r = obj s r" if "r \<in> live s" for r
    using spawn_known [OF tt] inv_live(1) [OF inv that] by blast+
  have o: "\<forall>r \<in> set (runqueue s). obj ?s r = obj s r" "\<forall>r \<in> set (blocked s). obj ?s r = obj s r"
    "\<forall>r. current s = Some r \<longrightarrow> obj ?s r = obj s r"
    using k(2) live_memI by blast+
  have "\<forall>r \<in> live ?s. known ?s r \<and> 0 < t_timeslice (obj ?s r)"
    using k inv_live(3) [OF inv] by (simp only: live) simp
  then show ?thesis
    using inv tt_inv_spawn [OF tt, of pid name ts k] o by (simp add: sched_inv_def)
qed

lemma sched_inv_spawn_add:
  assumes inv: "sched_inv s" and "0 < ts"
  shows "sched_inv (add_thread (length (tt_objs s)) (snd (tt_spawn pid name ts k s)))"
proof -
  let ?s = "snd (tt_spawn pid name ts k s)" and ?r = "length (tt_objs s)"
  have "?r \<notin> live s" using inv_live(2) [OF inv] by blast
  then have "?r \<notin> set (blocked s)" "idle s \<noteq> Some ?r" "current s \<noteq> Some ?r"
    using live_memI by blast+
  moreover have "known ?s ?r" by (simp add: known_def)
  ultimately show ?thesis
    using sched_inv_add [OF sched_inv_spawn [OF inv], where r = ?r] assms(2) by simp
qed

interpretation sch: machine sched_boot sched_step sched_inv
proof unfold_locales
  show "sched_inv sched_boot" by simp
  show "sched_inv (sched_step e s)" if inv: "sched_inv s" for s e
  proof (cases e)
    case (SSpawn pid name ts k)
    then show ?thesis
      using sched_inv_spawn_add [OF inv, of ts pid name k] inv tt_spawn_fields(1) [of pid name ts k s]
      by (cases "tt_spawn pid name ts k s") auto
  next
    case (SAdd r)
    then show ?thesis using inv by (auto simp: may_add_def intro: sched_inv_add)
  next
    case (SRemove tid)
    then show ?thesis using inv by (auto simp: is_current_def intro: sched_inv_remove)
  qed (use inv in \<open>auto intro: sched_inv_block sched_inv_wake sched_inv_tick\<close>)
qed

section \<open>The abstract round-robin queue\<close>

text \<open>A queue of threads with their quanta \<open>ts\<close>, the rest of the head's quantum when it has been
  dispatched, and the number of context switches.\<close>

type_synonym rr = "nat list \<times> int option \<times> int"

fun rr_tick :: "(nat \<Rightarrow> int) \<Rightarrow> rr \<Rightarrow> rr" where
  "rr_tick ts ([], c, n) = ([], None, n)"
| "rr_tick ts (h # q, c, n) =
     (let k = (case c of None \<Rightarrow> ts h | Some k \<Rightarrow> k) in
      if k \<le> 1 then (q @ [h], Some (ts (hd (q @ [h]))), n + 1) else (h # q, Some (k - 1), n))"

definition quanta :: "sched \<Rightarrow> nat \<Rightarrow> int" where
  "quanta s r = t_timeslice (obj s r)"

definition rr_view :: "sched \<Rightarrow> rr" where
  "rr_view s = (runqueue s,
     (case current s of Some c \<Rightarrow> if c \<in> set (runqueue s) then Some (t_remaining (obj s c)) else None | None \<Rightarrow> None),
     ctx_switches s)"

lemma rr_burst:
  "0 < k \<Longrightarrow> (rr_tick ts ^^ nat k) (h # q, Some k, n) = (q @ [h], Some (ts (hd (q @ [h]))), n + 1)"
proof (induction "nat k" arbitrary: k)
  case (Suc m)
  show ?case
  proof (cases "k = 1")
    case False
    then have "nat k = Suc m" "0 < k - 1" "m = nat (k - 1)" using Suc.hyps(2) Suc.prems by auto
    with Suc.hyps(1) [of "k - 1"] show ?thesis
      by (simp add: funpow_Suc_right del: funpow.simps)
  qed simp
qed simp

lemma rr_turns:
  assumes "\<forall>r \<in> set xs. 0 < ts r"
  shows "(rr_tick ts ^^ (\<Sum>r \<leftarrow> xs. nat (ts r))) (xs @ ys, Some (ts (hd (xs @ ys))), n)
    = (ys @ xs, Some (ts (hd (ys @ xs))), n + int (length xs))"
  using assms
proof (induction xs arbitrary: ys n)
  case (Cons x xs)
  have "(rr_tick ts ^^ nat (ts x)) ((x # xs) @ ys, Some (ts (hd ((x # xs) @ ys))), n)
    = (xs @ (ys @ [x]), Some (ts (hd (xs @ (ys @ [x])))), n + 1)"
    using rr_burst [of "ts x" ts x "xs @ ys" n] Cons.prems by simp
  moreover have "(rr_tick ts ^^ (\<Sum>r \<leftarrow> xs. nat (ts r))) (xs @ (ys @ [x]), Some (ts (hd (xs @ (ys @ [x])))), n + 1)
    = ((ys @ [x]) @ xs, Some (ts (hd ((ys @ [x]) @ xs))), n + 1 + int (length xs))"
    using Cons.prems by (intro Cons.IH) auto
  ultimately show ?case
    by (simp add: add.commute [of "nat (ts x)"] funpow_add)
qed simp

lemma rr_reaches:
  assumes "\<forall>x \<in> set (h # xs). 0 < ts x" "0 < ts r" "0 < k"
  shows "\<exists>n'. (rr_tick ts ^^ (nat k + (\<Sum>x \<leftarrow> xs. nat (ts x)))) (h # xs @ r # ys, Some k, n)
    = (r # ys @ h # xs, Some (ts r), n')"
proof -
  have "(rr_tick ts ^^ nat k) (h # xs @ r # ys, Some k, n)
      = (xs @ (r # ys @ [h]), Some (ts (hd (xs @ (r # ys @ [h])))), n + 1)"
    using rr_burst [OF assms(3), of ts h "xs @ r # ys" n] by simp
  moreover have "\<exists>n'. (rr_tick ts ^^ (\<Sum>x \<leftarrow> xs. nat (ts x)))
      (xs @ (r # ys @ [h]), Some (ts (hd (xs @ (r # ys @ [h])))), n + 1) = (r # ys @ h # xs, Some (ts r), n')"
    using rr_turns [of xs ts "r # ys @ [h]" "n + 1"] assms by auto
  ultimately show ?thesis
    by (simp add: add.commute [of "nat k"] funpow_add)
qed

section \<open>The tick refines the abstract queue\<close>

lemma view_stay:
  assumes inv: "sched_inv s" and q: "runqueue s = h # q"
  shows "rr_view s = (h # q, if current s = Some h then Some (t_remaining (obj s h)) else None, ctx_switches s)"
  using inv_current [OF inv] q by (auto simp: rr_view_def split: option.splits)

lemma timeslice_upd:
  "t_timeslice y = t_timeslice (xs ! i) \<Longrightarrow> t_timeslice (xs[i := y] ! x) = t_timeslice (xs ! x)"
  by (cases "x = i"; cases "i < length xs") (simp_all add: list_update_beyond)

lemma tick_refines:
  assumes inv: "sched_inv s"
  shows "rr_view (snd (tick s)) = rr_tick (quanta s) (rr_view s)" "quanta (snd (tick s)) = quanta s"
    "fst (tick s) = current (snd (tick s))" "tick_count (snd (tick s)) = tick_count s + 1"
proof -
  have "rr_view (snd (tick s)) = rr_tick (quanta s) (rr_view s) \<and> quanta (snd (tick s)) = quanta s
    \<and> fst (tick s) = current (snd (tick s)) \<and> tick_count (snd (tick s)) = tick_count s + 1"
  proof (cases "runqueue s")
    case Nil
    then show ?thesis by (simp add: tick_empty rr_view_def quanta_def fun_eq_iff split: option.splits)
  next
    case (Cons h q)
    have len: "h < length (tt_objs s)" using inv_live(2) [OF inv live_memI(1), of h] Cons by simp
    show ?thesis
    proof (cases "1 < quantum s h")
      case True
      with len show ?thesis
        unfolding view_stay [OF inv Cons] tick_stay [OF inv Cons True]
        by (auto simp: rr_view_def quantum_def Cons fun_eq_iff quanta_def timeslice_upd)
    next
      case False
      let ?n = "hd (q @ [h])"
      have n: "?n < length (tt_objs s)"
        using inv_live(2) [OF inv live_memI(1), of ?n] Cons by (cases q) auto
      have "?n \<in> set (q @ [h])" by (cases q) auto
      then show ?thesis
        using False len n unfolding view_stay [OF inv Cons]
        by (simp add: tick_rotate [OF inv Cons False [unfolded not_less]] rr_view_def quantum_def fun_eq_iff quanta_def timeslice_upd
            split: if_splits)
    qed
  qed
  then show "rr_view (snd (tick s)) = rr_tick (quanta s) (rr_view s)" "quanta (snd (tick s)) = quanta s"
    "fst (tick s) = current (snd (tick s))" "tick_count (snd (tick s)) = tick_count s + 1" by auto
qed

lemma tick_n_refines:
  assumes inv: "sched_inv s"
  shows "sched_inv (tick_n (int m) s) \<and> rr_view (tick_n (int m) s) = (rr_tick (quanta s) ^^ m) (rr_view s)
    \<and> quanta (tick_n (int m) s) = quanta s \<and> tick_count (tick_n (int m) s) = tick_count s + int m"
proof (induction m)
  case 0
  show ?case using inv by (simp add: tick_n_def)
next
  case (Suc m)
  have "tick_n (int (Suc m)) s = snd (tick (tick_n (int m) s))" by (simp add: tick_n_def del: of_nat_Suc)
  with Suc tick_refines [of "tick_n (int m) s"] sched_inv_tick [of "tick_n (int m) s"] show ?case by simp
qed

lemma view_current:
  assumes "sched_inv s" "rr_view s = (h # q, Some k, n)"
  shows "current s = Some h" "runqueue s = h # q" "t_remaining (obj s h) = k" "0 < k" "k \<le> quanta s h"
    "ctx_switches s = n"
proof -
  have q: "runqueue s = h # q" using assms(2) by (simp add: rr_view_def)
  have c: "current s = Some h \<and> t_remaining (obj s h) = k \<and> ctx_switches s = n"
    using assms(2) unfolding view_stay [OF assms(1) q] by (auto split: if_splits)
  then have "0 < k \<and> k \<le> quanta s h" using inv_current [OF assms(1), of h] q by (simp add: quanta_def)
  with c q show "current s = Some h" "runqueue s = h # q" "t_remaining (obj s h) = k" "0 < k" "k \<le> quanta s h"
    "ctx_switches s = n" by auto
qed

lemma rr_tick_queue:
  "queue \<noteq> [] \<Longrightarrow> \<exists>h q k m. rr_tick ts (queue, c, n) = (h # q, Some k, m) \<and> mset (h # q) = mset queue"
proof (cases queue)
  case (Cons x xs)
  then show ?thesis by (cases xs) (auto simp: Let_def)
qed simp

section \<open>Properties\<close>

text \<open>C19: In every scheduler state the clients reach, the run queue and the blocked list hold
  each thread at most once between them, blocked threads are asleep, a queued thread that is RUNNING
  is the current one, and a current thread that is queued is at its head with between one tick and
  a full quantum left.\<close>
theorem scheduler_queues_consistent:
  assumes "reaches sched_step sched_boot s"
  shows "distinct (runqueue s @ blocked s)
    \<and> (\<forall>r \<in> set (blocked s). t_state (obj s r) = SLEEP_INT)
    \<and> (\<forall>r \<in> set (runqueue s). t_state (obj s r) = RUNNABLE \<or> t_state (obj s r) = RUNNING \<and> current s = Some r)
    \<and> (\<forall>c \<in> set (runqueue s). current s = Some c \<longrightarrow> c = hd (runqueue s)
         \<and> 1 \<le> t_remaining (obj s c) \<and> t_remaining (obj s c) \<le> t_timeslice (obj s c))"
proof -
  have inv: "sched_inv s" by (rule sch.inv_reachable [OF assms])
  then have "distinct (runqueue s @ blocked s)" "\<forall>r \<in> set (blocked s). t_state (obj s r) = SLEEP_INT"
    unfolding sched_inv_def by blast+
  moreover have "\<forall>c \<in> set (runqueue s). current s = Some c \<longrightarrow> c = hd (runqueue s)
      \<and> 1 \<le> t_remaining (obj s c) \<and> t_remaining (obj s c) \<le> t_timeslice (obj s c)"
    using inv_current [OF inv] by (simp add: int_one_le_iff_zero_less)
  ultimately show ?thesis using inv_state [OF inv] by blast
qed

theorem scheduler_queues_consistent_witness:
  "distinct (runqueue (fold sched_step [SSpawn 0 ''a'' 2 True, SSpawn 0 ''b'' 3 True, STick, SBlock 2 ''io''] sched_boot)
    @ blocked (fold sched_step [SSpawn 0 ''a'' 2 True, SSpawn 0 ''b'' 3 True, STick, SBlock 2 ''io''] sched_boot))"
  using scheduler_queues_consistent
    [OF reaches_fold, of "[SSpawn 0 ''a'' 2 True, SSpawn 0 ''b'' 3 True, STick, SBlock 2 ''io'']"] by blast

text \<open>C2: On every reachable state, one tick is one step of the abstract round-robin queue: the
  head of the queue loses one tick of its quantum (a fresh one when it was not running), and a head
  whose quantum is used up goes to the tail while its successor is dispatched with a full quantum
  and a context switch is counted; the tick returns the thread it leaves running and never changes a
  thread's quantum.\<close>
theorem tick_is_round_robin:
  assumes "reaches sched_step sched_boot s"
  shows "rr_view (snd (tick s)) = rr_tick (quanta s) (rr_view s) \<and> quanta (snd (tick s)) = quanta s
    \<and> fst (tick s) = current (snd (tick s)) \<and> tick_count (snd (tick s)) = tick_count s + 1"
  using tick_refines [OF sch.inv_reachable [OF assms]] by blast

theorem tick_is_round_robin_witness:
  "rr_view (snd (tick (fold sched_step [SSpawn 0 ''a'' 1 True, SSpawn 0 ''b'' 3 True] sched_boot)))
     = ([2, 1], Some 3, 1)"
proof -
  let ?s = "fold sched_step [SSpawn 0 ''a'' 1 True, SSpawn 0 ''b'' 3 True] sched_boot"
  have v: "rr_view ?s = ([1, 2], None, 0)" and q: "quanta ?s 1 = 1" "quanta ?s 2 = 3" by code_simp+
  have "rr_view (snd (tick ?s)) = rr_tick (quanta ?s) (rr_view ?s)"
    using tick_is_round_robin [OF reaches_fold] by blast
  then show ?thesis unfolding v using q by simp
qed

text \<open>C20: A full turn of the round robin is exact: from a state whose head has just been
  dispatched, after as many ticks as the quanta of the queue add up to, the queue is in the same
  order with the same head freshly dispatched, and one context switch per queued thread was made.\<close>
theorem round_robin_period:
  assumes "sched_inv s" and "runqueue s = h # q" and "current s = Some h"
    and "t_remaining (obj s h) = t_timeslice (obj s h)"
  defines "s' \<equiv> tick_n (\<Sum>r \<leftarrow> runqueue s. t_timeslice (obj s r)) s"
  shows "runqueue s' = runqueue s \<and> current s' = Some h \<and> t_remaining (obj s' h) = t_timeslice (obj s h)
    \<and> ctx_switches s' = ctx_switches s + int (length (runqueue s))"
proof -
  have pos: "\<forall>r \<in> set (runqueue s). 0 < quanta s r"
    using inv_live(3) [OF assms(1) live_memI(1)] by (simp add: quanta_def)
  have view: "rr_view s = (runqueue s, Some (quanta s (hd (runqueue s))), ctx_switches s)"
    using view_stay [OF assms(1,2)] assms(2-4) by (simp add: quanta_def)
  have total: "(\<Sum>r \<leftarrow> runqueue s. t_timeslice (obj s r)) = int (\<Sum>r \<leftarrow> runqueue s. nat (quanta s r))"
    using pos by (induction "runqueue s") (auto simp: quanta_def sum_list_of_nat [symmetric] o_def
      intro!: arg_cong [where f = sum_list] map_cong)
  note run = tick_n_refines [OF assms(1), of "\<Sum>r \<leftarrow> runqueue s. nat (quanta s r)", folded total, folded s'_def]
  have "rr_view s' = (runqueue s, Some (quanta s (hd (runqueue s))), ctx_switches s + int (length (runqueue s)))"
    using run rr_turns [of "runqueue s" "quanta s" "[]" "ctx_switches s"] pos view by simp
  then have v: "rr_view s' = (h # q, Some (quanta s h), ctx_switches s + int (length (runqueue s)))"
    using assms(2) by simp
  have "sched_inv s'" using run by blast
  from view_current [OF this v] assms(2) show ?thesis by (simp add: quanta_def)
qed

theorem round_robin_period_witness:
  "runqueue (tick_n 5 (tick_n 3 (fold sched_step [SSpawn 0 ''a'' 3 True, SSpawn 0 ''b'' 2 True] sched_boot))) = [2, 1]"
proof -
  let ?s = "fold sched_step [SSpawn 0 ''a'' 3 True, SSpawn 0 ''b'' 2 True, STick, STick, STick] sched_boot"
  have "runqueue ?s = [2, 1]" "current ?s = Some 2" "t_remaining (obj ?s 2) = t_timeslice (obj ?s 2)"
    "(\<Sum>r \<leftarrow> runqueue ?s. t_timeslice (obj ?s r)) = 5" by code_simp+
  moreover have "sched_inv ?s" by (rule sch.inv_run) simp
  moreover have "?s = tick_n 3 (fold sched_step [SSpawn 0 ''a'' 3 True, SSpawn 0 ''b'' 2 True] sched_boot)"
    by (simp add: tick_n_def numeral_3_eq_3)
  ultimately show ?thesis using round_robin_period [of ?s 2 "[1]"] by metis
qed

text \<open>C1: No queued thread starves: while nothing blocks or wakes, every thread of the run queue is
  the running one after at most one tick more than the quanta of the queue add up to.\<close>
theorem no_starvation:
  assumes inv: "sched_inv s" and r: "r \<in> set (runqueue s)"
  shows "\<exists>n. 1 \<le> n \<and> n \<le> 1 + (\<Sum>x \<leftarrow> runqueue s. t_timeslice (obj s x)) \<and> current (tick_n n s) = Some r"
proof -
  let ?ts = "quanta s" and ?s1 = "snd (tick s)"
  have i1: "sched_inv ?s1" by (rule sched_inv_tick [OF inv])
  obtain h q k m where v: "rr_view ?s1 = (h # q, Some k, m)" and ms: "mset (h # q) = mset (runqueue s)"
    using rr_tick_queue [of "runqueue s" ?ts] r tick_refines(1) [OF inv] by (fastforce simp: rr_view_def)
  note c = view_current [OF i1 v]
  have pos: "\<forall>x \<in> set (h # q). 0 < ?ts x"
    using inv_live(3) [OF inv live_memI(1)] mset_eq_setD [OF ms] by (auto simp: quanta_def)
  have total: "(\<Sum>x \<leftarrow> runqueue s. ?ts x) = ?ts h + (\<Sum>x \<leftarrow> q. ?ts x)"
    using ms by (metis (no_types) list.simps(9) mset_map sum_list.Cons sum_mset_sum_list)
  show ?thesis
  proof (cases "r = h")
    case True
    have "current (tick_n 1 s) = Some r" using c(1) True by (simp add: tick_n_def)
    moreover have "0 \<le> (\<Sum>x \<leftarrow> q. ?ts x)" using pos by (intro sum_list_nonneg) auto
    ultimately show ?thesis using total pos by (intro exI [of _ 1]) (simp add: quanta_def)
  next
    case False
    then obtain xs ys where q: "q = xs @ r # ys"
      using r mset_eq_setD [OF ms] by (metis set_ConsD split_list)
    let ?n = "nat k + (\<Sum>x \<leftarrow> xs. nat (?ts x))"
    have sum: "int (\<Sum>x \<leftarrow> xs. nat (?ts x)) = (\<Sum>x \<leftarrow> xs. ?ts x)"
      using pos q by (induction xs arbitrary: q) auto
    have "\<exists>n'. rr_view (tick_n (int ?n) ?s1) = (r # ys @ h # xs, Some (?ts r), n')"
      using tick_n_refines [OF i1, of ?n] rr_reaches [of h xs ?ts r k ys m] pos c(4) v q
        tick_refines(2) [OF inv] by auto
    then have "current (tick_n (int ?n) ?s1) = Some r"
      using view_current(1) tick_n_refines [OF i1, of ?n] by blast
    moreover have "tick_n (int ?n) ?s1 = tick_n (int ?n + 1) s"
      using c(4) funpow_swap1 [of "\<lambda>s. snd (tick s)" ?n s] by (simp add: tick_n_def nat_add_distrib)
    moreover have "0 \<le> (\<Sum>x \<leftarrow> ys. ?ts x)" using pos q by (intro sum_list_nonneg) (auto intro: less_imp_le)
    moreover have "0 < ?ts r" using pos q by simp
    moreover have "k \<le> ?ts h" using c(5) tick_refines(2) [OF inv] by simp
    ultimately show ?thesis
      using total q sum c(4) by (intro exI [of _ "int ?n + 1"]) (simp add: quanta_def)
  qed
qed

theorem no_starvation_witness:
  "\<exists>n \<le> 6. current (tick_n n (fold sched_step [SSpawn 0 ''a'' 3 True, SSpawn 0 ''b'' 2 True] sched_boot)) = Some 2"
proof -
  let ?s = "fold sched_step [SSpawn 0 ''a'' 3 True, SSpawn 0 ''b'' 2 True] sched_boot"
  have "2 \<in> set (runqueue ?s)" "(\<Sum>r \<leftarrow> runqueue ?s. t_timeslice (obj ?s r)) = 5" by code_simp+
  moreover have "sched_inv ?s" by (rule sch.inv_run) simp
  ultimately show ?thesis using no_starvation [of ?s 2] by auto
qed

text \<open>Blocking a queued thread puts it to sleep with the reason given, off the queue and off the
  CPU; waking it afterwards makes it runnable at the tail of the queue, with the reason cleared, and
  restores the blocked list. Neither touches any other thread.\<close>
theorem block_then_wake:
  fixes reason :: string
  assumes inv: "sched_inv s" and r: "r \<in> set (runqueue s)" "t_tid (obj s r) = tid"
  defines "b \<equiv> block_thread tid reason s"
  defines "w \<equiv> wake_thread tid b"
  shows "runqueue b = remove1 r (runqueue s) \<and> blocked b = blocked s @ [r] \<and> current b \<noteq> Some r
    \<and> t_state (obj b r) = SLEEP_INT \<and> t_wait_reason (obj b r) = reason
    \<and> runqueue w = remove1 r (runqueue s) @ [r] \<and> blocked w = blocked s \<and> current w = current b
    \<and> t_state (obj w r) = RUNNABLE \<and> t_wait_reason (obj w r) = []
    \<and> (\<forall>x. x \<noteq> r \<longrightarrow> obj w x = obj s x)"
proof -
  have len: "r < length (tt_objs s)" by (rule inv_live(2) [OF inv live_memI(1) [OF r(1)]])
  note b = block_thread_known [OF inv r, of reason, folded b_def]
  have ib: "sched_inv b" unfolding b_def by (rule sched_inv_block [OF inv])
  have "r \<in> set (blocked b)" "t_tid (obj b r) = tid" using len r by (simp_all add: b)
  note w = wake_thread_known [OF ib this, folded w_def]
  have "r \<notin> set (blocked s)" using inv r by (auto simp: sched_inv_def)
  then show ?thesis using len by (simp add: w b remove1_append)
qed

theorem block_then_wake_witness:
  "runqueue (wake_thread 2 (block_thread 2 ''disk'' (fold sched_step [SSpawn 0 ''a'' 3 True, SSpawn 0 ''b'' 2 True] sched_boot)))
   = [2, 1]"
proof -
  let ?s = "fold sched_step [SSpawn 0 ''a'' 3 True, SSpawn 0 ''b'' 2 True] sched_boot"
  have "1 \<in> set (runqueue ?s)" "t_tid (obj ?s 1) = 2" "remove1 1 (runqueue ?s) = [2]" by code_simp+
  moreover have "sched_inv ?s" by (rule sch.inv_run) simp
  ultimately show ?thesis using block_then_wake [of ?s 1 2 "''disk''"] by simp
qed

text \<open>Queueing a blocked thread does not take it off the blocked list, so waking it afterwards
  queues it a second time.\<close>
theorem add_blocked_thread_queues_twice:
  assumes inv: "sched_inv s" and r: "r \<in> set (blocked s)" "t_tid (obj s r) = tid"
  defines "a \<equiv> add_thread r s"
  shows "runqueue a = runqueue s @ [r] \<and> blocked a = blocked s
    \<and> runqueue (wake_thread tid a) = runqueue s @ [r, r]"
proof -
  have k: "known s r" by (rule inv_live(1) [OF inv live_memI(2) [OF r(1)]])
  have nq: "r \<notin> set (runqueue s)" using inv r by (auto simp: sched_inv_def)
  have a: "a = (tt_modify r (\<lambda>t. t\<lparr>t_state := RUNNABLE\<rparr>) s)\<lparr>runqueue := runqueue s @ [r]\<rparr>"
    using nq by (simp add: a_def add_thread_known [OF inv k])
  have len: "r < length (tt_objs s)" using k by (simp add: known_def)
  have bl: "\<forall>x \<in> set (blocked a). known a x" and ka: "known a r"
    using inv_live(1) [OF inv live_memI(2)] k len by (simp_all add: a modify_keeps)
  obtain x where x: "find (\<lambda>r. t_tid (obj a r) = tid) (blocked a) = Some x"
    using r len by (cases "find (\<lambda>r. t_tid (obj a r) = tid) (blocked a)") (auto simp: find_None_iff a)
  have "x = r"
    using find_known [OF bl x] ka r len known_inj [of a x r] by (simp add: a)
  with x show ?thesis by (simp add: wake_thread_def Let_def a)
qed

theorem add_blocked_thread_queues_twice_witness:
  "runqueue (wake_thread 2 (add_thread 1 (fold sched_step [SSpawn 0 ''a'' 3 True, SBlock 2 ''io''] sched_boot))) = [1, 1]"
proof -
  let ?s = "fold sched_step [SSpawn 0 ''a'' 3 True, SBlock 2 ''io''] sched_boot"
  have "1 \<in> set (blocked ?s)" "t_tid (obj ?s 1) = 2" "runqueue ?s = []" by code_simp+
  moreover have "sched_inv ?s" by (rule sch.inv_run) simp
  ultimately show ?thesis using add_blocked_thread_queues_twice [of ?s 1 2] by simp
qed

end
