(* ===== verification/Kmalloc.thy ===== *)
theory Kmalloc
  imports Physical_Memory
begin

text \<open>
  \<^verbatim>\<open>memory.py\<close>, the kernel allocator \<^verbatim>\<open>KmallocAllocator\<close>: a bump allocator over fake
  addresses that remembers the size of every live allocation. Its invariant is that live blocks
  are disjoint, aligned and inside the part of the kernel area handed out so far.
\<close>

unbundle bit_operations_syntax

section \<open>State and operations\<close>

record kmalloc =
  allocations :: "(int, int) dict"
  next_addr :: int

definition KMALLOC_START :: int where "KMALLOC_START = KERNEL_BASE + 0x1000000"

definition kmalloc_init :: kmalloc where
  "kmalloc_init = \<lparr>allocations = [], next_addr = KMALLOC_START\<rparr>"

definition km_alloc :: "int \<Rightarrow> kmalloc \<Rightarrow> int result \<times> kmalloc" where
  "km_alloc sz k =
     (if sz \<le> 0 then (Inl ValueError, k)
      else (let addr = next_addr k in
        (Inr addr, k\<lparr>next_addr := next_addr k + ((sz + 15) AND NOT 15),
                    allocations := AList.update addr sz (allocations k)\<rparr>)))"

definition km_free :: "int \<Rightarrow> kmalloc \<Rightarrow> kmalloc" where
  "km_free addr k =
     (if map_of (allocations k) addr \<noteq> None
      then k\<lparr>allocations := AList.delete addr (allocations k)\<rparr> else k)"

record km_usage =
  us_allocations :: int
  us_bytes :: int
  us_next_addr :: string

definition usage :: "kmalloc \<Rightarrow> km_usage" where
  "usage k = \<lparr>us_allocations = int (length (allocations k)),
     us_bytes = sum_list (map snd (allocations k)), us_next_addr = py_hex (next_addr k)\<rparr>"

section \<open>Alignment\<close>

lemma and_not_15: "(a::int) AND NOT 15 = 16 * (a div 16)"
proof -
  have m: "(15::int) = mask 4" by (simp add: mask_eq_exp_minus_1)
  have "a = (a AND mask 4) OR (a AND NOT (mask 4))"
    by (auto intro!: bit_eqI simp: bit_simps)
  also have "\<dots> = (a AND mask 4) + (a AND NOT (mask 4))"
    by (rule disjunctive_add [symmetric]) (simp add: bit_simps)
  finally have "a = take_bit 4 a + (a AND NOT 15)"
    by (simp add: take_bit_eq_mask m)
  moreover have "take_bit 4 a = a mod 16" by (simp add: take_bit_eq_mod)
  ultimately show ?thesis
    using div_mult_mod_eq [of a 16] by linarith
qed

definition aligned_size :: "int \<Rightarrow> int" where
  "aligned_size sz = (sz + 15) AND NOT 15"

lemma aligned_size_bounds: "sz \<le> aligned_size sz" "aligned_size sz \<le> sz + 15"
  unfolding aligned_size_def and_not_15 by presburger+

lemma aligned_size_dvd: "16 dvd aligned_size sz"
  unfolding aligned_size_def and_not_15 by simp

section \<open>Invariant\<close>

definition km_inv :: "kmalloc \<Rightarrow> bool" where
  "km_inv k \<longleftrightarrow> dict_ok (allocations k) \<and> 16 dvd next_addr k \<and> KMALLOC_START \<le> next_addr k
     \<and> (\<forall>a s. map_of (allocations k) a = Some s \<longrightarrow>
          0 < s \<and> 16 dvd a \<and> KMALLOC_START \<le> a \<and> a + s \<le> next_addr k)
     \<and> (\<forall>a s b t. map_of (allocations k) a = Some s \<longrightarrow> map_of (allocations k) b = Some t \<longrightarrow>
          a < b \<longrightarrow> a + s \<le> b)"

declare km_inv_def [wf_defs]

lemma km_inv_init: "km_inv kmalloc_init"
  by (simp add: km_inv_def kmalloc_init_def KMALLOC_START_def KERNEL_BASE_def)

lemma km_inv_alloc:
  assumes "km_inv k"
  shows "km_inv (snd (km_alloc sz k))"
proof (cases "sz \<le> 0")
  case False
  have "snd (km_alloc sz k) = k\<lparr>next_addr := next_addr k + aligned_size sz,
      allocations := AList.update (next_addr k) sz (allocations k)\<rparr>"
    using False by (simp add: km_alloc_def aligned_size_def Let_def)
  with assms False aligned_size_bounds(1) [of sz] aligned_size_dvd [of sz] show ?thesis
    unfolding km_inv_def by (auto 0 3 split: if_splits)
qed (use assms in \<open>simp add: km_alloc_def\<close>)

lemma km_inv_free: "km_inv k \<Longrightarrow> km_inv (km_free addr k)"
  by (auto simp: km_inv_def km_free_def split: if_splits)

section \<open>Properties\<close>

datatype km_op = KAlloc int | KFree int

fun km_step :: "km_op \<Rightarrow> kmalloc \<Rightarrow> kmalloc" where
  "km_step (KAlloc sz) k = snd (km_alloc sz k)"
| "km_step (KFree addr) k = km_free addr k"

interpretation km: machine kmalloc_init km_step km_inv
proof unfold_locales
  show "km_inv kmalloc_init" by (rule km_inv_init)
  show "km_inv (km_step e k)" if "km_inv k" for k e
    using that by (cases e) (auto intro: km_inv_alloc km_inv_free)
qed

lemma next_addr_mono_step: "next_addr k \<le> next_addr (km_step e k)"
  using aligned_size_bounds(1)
  by (cases e) (auto simp: km_alloc_def km_free_def Let_def simp flip: aligned_size_def
      intro: order_trans [OF less_imp_le])

lemma next_addr_mono: "reaches km_step k k' \<Longrightarrow> next_addr k \<le> next_addr k'"
  by (induction rule: reaches.induct) (auto intro: order_trans [OF _ next_addr_mono_step])

text \<open>C29: In every state reached from a fresh allocator, each live block has a positive size, starts
  at a multiple of 16 at or above the start of the kmalloc area, ends at or below the next address
  to hand out, and two different live blocks never overlap.\<close>
theorem kmalloc_blocks_disjoint:
  assumes "reaches km_step kmalloc_init k"
    and "map_of (allocations k) a = Some s" and "map_of (allocations k) b = Some t" and "a \<noteq> b"
  shows "{a..<a + s} \<inter> {b..<b + t} = {} \<and> 0 < s \<and> 16 dvd a
    \<and> KMALLOC_START \<le> a \<and> a + s \<le> next_addr k"
proof -
  have inv: "km_inv k" by (rule km.inv_reachable [OF assms(1)])
  then have "0 < s \<and> 16 dvd a \<and> KMALLOC_START \<le> a \<and> a + s \<le> next_addr k"
    using assms(2) unfolding km_inv_def by blast
  moreover have "a + s \<le> b \<or> b + t \<le> a"
    using inv assms(2-4) unfolding km_inv_def by (metis linorder_neqE)
  ultimately show ?thesis by auto
qed

theorem kmalloc_blocks_disjoint_witness:
  "{KMALLOC_START..<KMALLOC_START + 20} \<inter> {KMALLOC_START + 32..<KMALLOC_START + 32 + 8} = {}"
proof -
  let ?k = "fold km_step [KAlloc 20, KAlloc 8, KAlloc 0] kmalloc_init"
  have "map_of (allocations ?k) KMALLOC_START = Some 20"
    "map_of (allocations ?k) (KMALLOC_START + 32) = Some 8"
    by (simp_all add: km_alloc_def kmalloc_init_def Let_def)
  from kmalloc_blocks_disjoint [OF reaches_fold this] show ?thesis by simp
qed

text \<open>An allocation of a positive size returns an address that is not live and whose whole block
  lies outside every live block, and records the size under it; a size that is not positive raises
  ValueError and changes nothing. Addresses are never handed out twice, however many blocks are
  freed in between: a later allocation always returns a higher address.\<close>
theorem km_alloc_never_reuses:
  assumes "km_inv k" and "reaches km_step (snd (km_alloc sz k)) k'"
  shows "(sz \<le> 0 \<longrightarrow> km_alloc sz k = (Inl ValueError, k))
    \<and> (0 < sz \<longrightarrow> (\<exists>a. fst (km_alloc sz k) = Inr a
          \<and> map_of (allocations k) a = None
          \<and> (\<forall>b t. map_of (allocations k) b = Some t \<longrightarrow> {a..<a + sz} \<inter> {b..<b + t} = {})
          \<and> map_of (allocations (snd (km_alloc sz k))) = (map_of (allocations k))(a \<mapsto> sz)
          \<and> (\<forall>n b. fst (km_alloc n k') = Inr b \<longrightarrow> a + sz \<le> b)))"
proof (cases "sz \<le> 0")
  case False
  have later: "next_addr (snd (km_alloc sz k)) \<le> next_addr k'"
    using assms(2) by (rule next_addr_mono)
  have "next_addr k + sz \<le> next_addr (snd (km_alloc sz k))"
    using False aligned_size_bounds(1) [of sz] by (simp add: km_alloc_def aligned_size_def Let_def)
  with later have up: "fst (km_alloc n k') = Inr b \<Longrightarrow> next_addr k + sz \<le> b" for n b
    by (auto simp: km_alloc_def Let_def split: if_splits)
  have bounds: "map_of (allocations k) b = Some t \<Longrightarrow> b + t \<le> next_addr k \<and> 0 < t" for b t
    using assms(1) unfolding km_inv_def by blast
  have "map_of (allocations k) (next_addr k) = None"
    using bounds [of "next_addr k"] by (cases "map_of (allocations k) (next_addr k)") auto
  moreover have "\<forall>b t. map_of (allocations k) b = Some t \<longrightarrow>
      {next_addr k..<next_addr k + sz} \<inter> {b..<b + t} = {}"
    using bounds by fastforce
  ultimately show ?thesis
    using False up by (auto simp: km_alloc_def Let_def)
qed (simp add: km_alloc_def)

theorem km_alloc_never_reuses_witness:
  "\<exists>a. fst (km_alloc 10 kmalloc_init) = Inr a
     \<and> (\<forall>n b. fst (km_alloc n (km_free a (snd (km_alloc 10 kmalloc_init)))) = Inr b \<longrightarrow> a + 10 \<le> b)"
proof -
  have "reaches km_step (snd (km_alloc 10 kmalloc_init))
      (fold km_step [KFree KMALLOC_START] (snd (km_alloc 10 kmalloc_init)))"
    by (rule reaches_fold)
  moreover have "fst (km_alloc 10 kmalloc_init) = Inr KMALLOC_START"
    by (simp add: km_alloc_def kmalloc_init_def)
  ultimately show ?thesis
    using km_alloc_never_reuses [OF km_inv_init, of 10] by fastforce
qed

lemma km_free_spec:
  assumes "km_inv k"
  shows "map_of (allocations (km_free addr k)) = (map_of (allocations k))(addr := None)"
    and "next_addr (km_free addr k) = next_addr k"
    and "km_free addr (km_free addr k) = km_free addr k"
  by (auto simp: km_free_def fun_eq_iff)

lemma usage_alloc:
  assumes "km_inv k" "0 < sz"
  shows "us_bytes (usage (snd (km_alloc sz k))) = us_bytes (usage k) + sz"
    and "us_allocations (usage (snd (km_alloc sz k))) = us_allocations (usage k) + 1"
proof -
  have "map_of (allocations k) (next_addr k) = None"
    using assms(1) unfolding km_inv_def
    by (cases "map_of (allocations k) (next_addr k)") (auto, fastforce)
  then show "us_bytes (usage (snd (km_alloc sz k))) = us_bytes (usage k) + sz"
    "us_allocations (usage (snd (km_alloc sz k))) = us_allocations (usage k) + 1"
    using assms(2) by (simp_all add: usage_def km_alloc_def Let_def update_fresh)
qed

end
