(* ===== verification/Devices.thy ===== *)
theory Devices
  imports Interfaces
begin

text \<open>
  \<^verbatim>\<open>device.py\<close> and \<^verbatim>\<open>driver.py\<close>: the device registry, the driver registry and the binding of one to
  the other. A device or driver object is kept by value under its name, by which every operation finds
  it. The probe callback of a driver is a value of the model: a function that answers or raises.
\<close>

section \<open>Devices\<close>

datatype device_class = CHAR_DEV | BLOCK_DEV | NETWORK | BUS | PLATFORM | VIRTUAL | INPUT | TIMER

record device =
  dv_name :: string
  dv_class :: device_class
  dv_major :: int
  dv_minor :: int
  dv_description :: string
  dv_virtual :: bool
  dv_bound :: string
  dv_properties :: "(string, string) dict"

definition new_device :: "string \<Rightarrow> device_class \<Rightarrow> int \<Rightarrow> int \<Rightarrow> string \<Rightarrow> device" where
  "new_device name cls major minor description = \<lparr>dv_name = name, dv_class = cls, dv_major = major,
     dv_minor = minor, dv_description = description, dv_virtual = False, dv_bound = [], dv_properties = []\<rparr>"

type_synonym dev_registry = "(string, device) dict"

definition dev_register :: "device \<Rightarrow> dev_registry \<Rightarrow> dev_registry" where
  "dev_register d r = (if map_of r (dv_name d) \<noteq> None then r else AList.update (dv_name d) d r)"

definition dev_unregister :: "string \<Rightarrow> dev_registry \<Rightarrow> bool \<times> dev_registry" where
  "dev_unregister name r = (case map_of r name of
     Some d \<Rightarrow> (True, AList.delete name r)
   | None \<Rightarrow> (False, r))"

definition dev_get :: "string \<Rightarrow> dev_registry \<Rightarrow> device option" where
  "dev_get name r = map_of r name"

definition dev_list_all :: "dev_registry \<Rightarrow> device list" where
  "dev_list_all r = map snd r"

definition dev_by_class :: "device_class \<Rightarrow> dev_registry \<Rightarrow> device list" where
  "dev_by_class c r = filter (\<lambda>d. dv_class d = c) (map snd r)"

definition dev_bind :: "string \<Rightarrow> string \<Rightarrow> dev_registry \<Rightarrow> bool \<times> dev_registry" where
  "dev_bind device_name driver_name r = (case map_of r device_name of
     None \<Rightarrow> (False, r)
   | Some d \<Rightarrow> (True, dict_modify device_name (\<lambda>d. d\<lparr>dv_bound := driver_name\<rparr>) r))"

section \<open>Drivers\<close>

record driver =
  dr_name :: string
  dr_description :: string
  dr_supported :: "string list"
  dr_probe :: "(device \<Rightarrow> bool result) option"
  dr_loaded :: bool
  dr_bound :: "string list"

definition new_driver :: "string \<Rightarrow> string \<Rightarrow> string list \<Rightarrow> driver" where
  "new_driver name description supported = \<lparr>dr_name = name, dr_description = description,
     dr_supported = supported, dr_probe = None, dr_loaded = False, dr_bound = []\<rparr>"

definition default_probe :: "driver \<Rightarrow> device \<Rightarrow> bool" where
  "default_probe drv d \<longleftrightarrow> dv_name d \<in> set (dr_supported drv)"

type_synonym drv_registry = "(string, driver) dict"

definition drv_register :: "driver \<Rightarrow> drv_registry \<Rightarrow> drv_registry" where
  "drv_register drv r =
     (if map_of r (dr_name drv) \<noteq> None then r else AList.update (dr_name drv) (drv\<lparr>dr_loaded := True\<rparr>) r)"

definition drv_unregister :: "string \<Rightarrow> drv_registry \<Rightarrow> bool \<times> drv_registry" where
  "drv_unregister name r = (case map_of r name of
     Some d \<Rightarrow> (True, AList.delete name r)
   | None \<Rightarrow> (False, r))"

text \<open>A probe that raises is logged and skipped.\<close>

definition claims :: "driver \<Rightarrow> device \<Rightarrow> bool" where
  "claims drv d = (case dr_probe drv of
     Some f \<Rightarrow> (case f d of Inr b \<Rightarrow> b | Inl e \<Rightarrow> False)
   | None \<Rightarrow> default_probe drv d)"

fun probe_loop :: "driver list \<Rightarrow> device \<Rightarrow> driver option" where
  "probe_loop [] d = None"
| "probe_loop (drv # ds) d = (if claims drv d then Some drv else probe_loop ds d)"

definition probe_device :: "device \<Rightarrow> drv_registry \<Rightarrow> driver option" where
  "probe_device d r = probe_loop (map snd r) d"

definition drv_bind :: "string \<Rightarrow> device \<Rightarrow> drv_registry \<times> dev_registry \<Rightarrow> bool \<times> drv_registry \<times> dev_registry" where
  "drv_bind driver_name d = (\<lambda>(drvs, devs). (case map_of drvs driver_name of
     None \<Rightarrow> (False, drvs, devs)
   | Some drv \<Rightarrow>
       (let drvs1 = (if dv_name d \<notin> set (dr_bound drv)
                     then dict_modify driver_name (\<lambda>x. x\<lparr>dr_bound := dr_bound x @ [dv_name d]\<rparr>) drvs else drvs)
        in (True, drvs1, snd (dev_bind (dv_name d) driver_name devs)))))"

definition drv_remove :: "string \<Rightarrow> string \<Rightarrow> drv_registry \<times> dev_registry \<Rightarrow> bool \<times> drv_registry \<times> dev_registry" where
  "drv_remove driver_name device_name = (\<lambda>(drvs, devs). (case map_of drvs driver_name of
     None \<Rightarrow> (False, drvs, devs)
   | Some drv \<Rightarrow>
       (let drvs1 = (if device_name \<in> set (dr_bound drv)
                     then dict_modify driver_name (\<lambda>x. x\<lparr>dr_bound := remove1 device_name (dr_bound x)\<rparr>) drvs else drvs)
        in (True, drvs1, dict_modify device_name (\<lambda>x. x\<lparr>dv_bound := []\<rparr>) devs))))"

definition drv_get :: "string \<Rightarrow> drv_registry \<Rightarrow> driver option" where
  "drv_get name r = map_of r name"

definition drv_list_all :: "drv_registry \<Rightarrow> driver list" where
  "drv_list_all r = map snd r"

text \<open>The loop over the registered devices reads each device when it comes to it.\<close>

fun probe_all_loop :: "string list \<Rightarrow> drv_registry \<times> dev_registry \<Rightarrow> drv_registry \<times> dev_registry" where
  "probe_all_loop [] s = s"
| "probe_all_loop (n # ns) (drvs, devs) =
     (case map_of devs n of
        None \<Rightarrow> probe_all_loop ns (drvs, devs)
      | Some d \<Rightarrow>
          if dv_bound d = []
          then (case probe_device d drvs of
                  None \<Rightarrow> probe_all_loop ns (drvs, devs)
                | Some drv \<Rightarrow> probe_all_loop ns (snd (drv_bind (dr_name drv) d (drvs, devs))))
          else probe_all_loop ns (drvs, devs))"

definition probe_all :: "drv_registry \<times> dev_registry \<Rightarrow> drv_registry \<times> dev_registry" where
  "probe_all s = probe_all_loop (map fst (snd s)) s"

section \<open>Invariant\<close>

definition devices_ok :: "drv_registry \<times> dev_registry \<Rightarrow> bool" where
  "devices_ok = (\<lambda>(drvs, devs). dict_ok drvs \<and> dict_ok devs
     \<and> (\<forall>n d. map_of devs n = Some d \<longrightarrow> dv_name d = n)
     \<and> (\<forall>n d. map_of drvs n = Some d \<longrightarrow> dr_name d = n \<and> dr_loaded d \<and> distinct (dr_bound d))
     \<and> (\<forall>n d drv. map_of devs n = Some d \<longrightarrow> map_of drvs (dv_bound d) = Some drv \<longrightarrow>
          dv_bound d \<noteq> [] \<longrightarrow> n \<in> set (dr_bound drv)))"

declare devices_ok_def [wf_defs]

lemma devices_okD:
  assumes "devices_ok (drvs, devs)"
  shows "dict_ok drvs" "dict_ok devs" "map_of devs n = Some d \<Longrightarrow> dv_name d = n"
    "map_of drvs m = Some drv \<Longrightarrow> dr_name drv = m"
  using assms by (auto simp: devices_ok_def)

text \<open>Binding changes nothing of the drivers but their lists of devices.\<close>

definition same_drivers :: "drv_registry \<Rightarrow> drv_registry \<Rightarrow> bool" where
  "same_drivers a b \<longleftrightarrow> map (map_prod id (\<lambda>x. x\<lparr>dr_bound := []\<rparr>)) a = map (map_prod id (\<lambda>x. x\<lparr>dr_bound := []\<rparr>)) b"

lemma same_drivers_refl [intro, simp]: "same_drivers a a"
  by (simp add: same_drivers_def)

lemma same_drivers_trans: "same_drivers a b \<Longrightarrow> same_drivers b c \<Longrightarrow> same_drivers a c"
  by (simp add: same_drivers_def)

lemma same_drivers_modify: "same_drivers (dict_modify k (\<lambda>x. x\<lparr>dr_bound := f x\<rparr>) drvs) drvs"
  unfolding same_drivers_def by (rule map_dict_modify) simp

definition claimant :: "drv_registry \<Rightarrow> device \<Rightarrow> string option" where
  "claimant drvs d = map_option dr_name (probe_device d drvs)"

lemma same_claimant: "same_drivers a b \<Longrightarrow> claimant a d = claimant b d"
proof -
  let ?strip = "\<lambda>x. x\<lparr>dr_bound := []\<rparr>"
  have "claims (?strip x) d = claims x d" for x :: driver
    by (cases "dr_probe x") (simp_all add: claims_def default_probe_def)
  then have "map_option dr_name (probe_loop (map ?strip xs) d) = map_option dr_name (probe_loop xs d)" for xs
    by (induction xs) auto
  then have "map_option dr_name (probe_loop (map ?strip (map snd a)) d) = claimant a d" for a
    by (simp only: claimant_def probe_device_def)
  moreover have "map ?strip (map snd a) = map snd (map (map_prod id ?strip) a)" for a by simp
  ultimately have "claimant a d = map_option dr_name (probe_loop (map snd (map (map_prod id ?strip) a)) d)" for a
    by metis
  then show "same_drivers a b \<Longrightarrow> claimant a d = claimant b d" by (simp only: same_drivers_def)
qed

lemma probe_device_registered:
  assumes "devices_ok (drvs, devs)" "probe_device d drvs = Some drv"
  shows "map_of drvs (dr_name drv) = Some drv" "claims drv d" "claimant drvs d = Some (dr_name drv)"
proof -
  have "probe_loop xs d = Some drv \<Longrightarrow> drv \<in> set xs \<and> claims drv d" for xs
    by (induction xs) (auto split: if_splits)
  from this [of "map snd drvs"] assms(2) have "drv \<in> set (map snd drvs)" and c: "claims drv d"
    by (auto simp: probe_device_def)
  then obtain m where "map_of drvs m = Some drv" using dict_value_iff devices_okD(1) [OF assms(1)] by metis
  with devices_okD(4) [OF assms(1) this] show "map_of drvs (dr_name drv) = Some drv" by simp
  show "claims drv d" by (rule c)
  show "claimant drvs d = Some (dr_name drv)" using assms(2) by (simp add: claimant_def)
qed

lemma drv_bind_spec:
  assumes ok: "devices_ok (drvs, devs)" and drv: "map_of drvs b = Some drv" and d: "map_of devs (dv_name d) = Some d"
    and r: "drv_bind b d (drvs, devs) = (res, drvs', devs')"
  shows "res" "devices_ok (drvs', devs')" "same_drivers drvs' drvs"
    "devs' = dict_modify (dv_name d) (\<lambda>d. d\<lparr>dv_bound := b\<rparr>) devs"
proof -
  have v: "drvs' = (if dv_name d \<notin> set (dr_bound drv)
      then dict_modify b (\<lambda>x. x\<lparr>dr_bound := dr_bound x @ [dv_name d]\<rparr>) drvs else drvs)"
    and w: "devs' = dict_modify (dv_name d) (\<lambda>d. d\<lparr>dv_bound := b\<rparr>) devs" and res
    using r drv d by (simp_all add: drv_bind_def dev_bind_def Let_def)
  show "res" by fact
  show "same_drivers drvs' drvs" by (simp add: v same_drivers_modify)
  show "devs' = dict_modify (dv_name d) (\<lambda>d. d\<lparr>dv_bound := b\<rparr>) devs" by (rule w)
  show "devices_ok (drvs', devs')"
    unfolding devices_ok_def prod.case
  proof (intro conjI allI impI)
    show "dict_ok drvs'" "dict_ok devs'" using ok by (simp_all add: v w devices_ok_def)
  next
    fix n x
    assume "map_of devs' n = Some x"
    then show "dv_name x = n" using ok by (auto simp: w devices_ok_def split: if_splits)
  next
    fix n q
    assume "map_of drvs' n = Some q"
    then show "dr_name q = n" "dr_loaded q" "distinct (dr_bound q)"
      using ok drv by (auto simp: v devices_ok_def split: if_splits)
  next
    fix n x q
    assume x: "map_of devs' n = Some x" and q: "map_of drvs' (dv_bound x) = Some q" and nb: "dv_bound x \<noteq> []"
    have old: "set (dr_bound p) \<subseteq> set (dr_bound q)" if "map_of drvs (dv_bound x) = Some p" for p
      using q that by (auto simp: v split: if_splits)
    show "n \<in> set (dr_bound q)"
    proof (cases "n = dv_name d")
      case True
      with x d have "dv_bound x = b" by (auto simp: w)
      with q drv True show ?thesis by (auto simp: v split: if_splits)
    next
      case False
      with x have x': "map_of devs n = Some x" by (simp add: w)
      have "map_of drvs (dv_bound x) \<noteq> None" using q by (auto simp: v split: if_splits)
      then obtain p where p: "map_of drvs (dv_bound x) = Some p" by blast
      then have "n \<in> set (dr_bound p)" using ok x' nb unfolding devices_ok_def by blast
      with old [OF p] show ?thesis by blast
    qed
  qed
qed

definition bound_by :: "drv_registry \<Rightarrow> device \<Rightarrow> device" where
  "bound_by drvs d = (if dv_bound d \<noteq> [] then d
     else case claimant drvs d of None \<Rightarrow> d | Some b \<Rightarrow> d\<lparr>dv_bound := b\<rparr>)"

lemma bound_by_same: "same_drivers a b \<Longrightarrow> bound_by a = bound_by b"
  by (auto simp: bound_by_def same_claimant fun_eq_iff)

lemma probe_all_loop_spec:
  assumes "devices_ok (drvs, devs)" "distinct ns" "probe_all_loop ns (drvs, devs) = (drvs', devs')"
  shows "devices_ok (drvs', devs') \<and> same_drivers drvs' drvs \<and> map fst devs' = map fst devs
    \<and> (\<forall>n. map_of devs' n = (if n \<in> set ns then map_option (bound_by drvs) (map_of devs n) else map_of devs n))"
  using assms
proof (induction ns arbitrary: drvs devs)
  case (Cons n ns)
  show ?case
  proof (cases "map_of devs n")
    case None
    then have "probe_all_loop ns (drvs, devs) = (drvs', devs')" using Cons.prems(3) by simp
    with Cons.IH [OF Cons.prems(1)] Cons.prems(2) None show ?thesis by auto
  next
    case (Some d)
    have n: "dv_name d = n" by (rule devices_okD(3) [OF Cons.prems(1) Some])
    show ?thesis
    proof (cases "dv_bound d = [] \<and> probe_device d drvs \<noteq> None")
      case False
      then have "probe_all_loop ns (drvs, devs) = (drvs', devs')" using Some Cons.prems(3) by (cases "probe_device d drvs") (auto split: if_splits)
      moreover have "bound_by drvs d = d" using False by (auto simp: bound_by_def claimant_def)
      ultimately show ?thesis using Cons.IH [OF Cons.prems(1)] Cons.prems(2) Some by auto
    next
      case True
      then obtain drv where drv: "probe_device d drvs = Some drv" by blast
      note reg = probe_device_registered [OF Cons.prems(1) drv]
      obtain res drvs1 devs1 where b: "drv_bind (dr_name drv) d (drvs, devs) = (res, drvs1, devs1)"
        by (metis prod_cases3)
      note bs = drv_bind_spec [OF Cons.prems(1) reg(1) Some [folded n] b]
      have rest: "probe_all_loop ns (drvs1, devs1) = (drvs', devs')" using Some True drv b Cons.prems(3) by simp
      have bd: "bound_by drvs d = d\<lparr>dv_bound := dr_name drv\<rparr>" using True reg(3) by (simp add: bound_by_def)
      have "distinct ns" "n \<notin> set ns" using Cons.prems(2) by auto
      with Cons.IH [OF bs(2) _ rest] same_drivers_trans [OF _ bs(3)] bound_by_same [OF bs(3)] bs(4) Some bd n
      show ?thesis by (auto split: if_splits)
    qed
  qed
qed auto

section \<open>Operation sequences\<close>

datatype dev_op =
    DRegister device
  | DUnregister string
  | DvRegister driver
  | DvUnregister string
  | DvBind string string
  | DvRemove string string
  | DvProbeAll

text \<open>Objects are registered as they are constructed, not yet bound, and a driver is not registered again
  while a device still carries its name from before.\<close>

fun dev_step :: "dev_op \<Rightarrow> drv_registry \<times> dev_registry \<Rightarrow> drv_registry \<times> dev_registry" where
  "dev_step (DRegister d) (drvs, devs) = (if dv_bound d = [] then (drvs, dev_register d devs) else (drvs, devs))"
| "dev_step (DUnregister n) (drvs, devs) = (drvs, snd (dev_unregister n devs))"
| "dev_step (DvRegister drv) (drvs, devs) =
     (if dr_bound drv = [] \<and> list_all (\<lambda>d. dv_bound d \<noteq> dr_name drv) (map snd devs)
      then (drv_register drv drvs, devs) else (drvs, devs))"
| "dev_step (DvUnregister n) (drvs, devs) = (snd (drv_unregister n drvs), devs)"
| "dev_step (DvBind b n) (drvs, devs) =
     (case map_of devs n of None \<Rightarrow> (drvs, devs) | Some d \<Rightarrow> snd (drv_bind b d (drvs, devs)))"
| "dev_step (DvRemove b n) s = snd (drv_remove b n s)"
| "dev_step DvProbeAll s = probe_all s"

interpretation devm: machine "([], [])" dev_step devices_ok
proof unfold_locales
  show "devices_ok ([], [])" by (simp add: devices_ok_def)
  fix e s
  assume inv: "devices_ok s"
  obtain drvs devs where s: "s = (drvs, devs)" by fastforce
  note inv = inv [unfolded s]
  show "devices_ok (dev_step e s)"
  proof (cases e)
    case (DvRegister drv)
    have "dv_bound d \<noteq> dr_name drv" if "list_all (\<lambda>d. dv_bound d \<noteq> dr_name drv) (map snd devs)" "map_of devs n = Some d" for n d
      using that by (force simp: list_all_iff dest: map_of_SomeD)
    with DvRegister inv show ?thesis by (auto simp: s devices_ok_def drv_register_def)
  next
    case (DvBind b n)
    show ?thesis
    proof (cases "map_of devs n")
      case (Some d)
      have n: "dv_name d = n" by (rule devices_okD(3) [OF inv Some])
      show ?thesis
      proof (cases "map_of drvs b")
        case None
        with DvBind Some inv show ?thesis by (simp add: s drv_bind_def)
      next
        case (Some drv)
        obtain res drvs1 devs1 where "drv_bind b d (drvs, devs) = (res, drvs1, devs1)" by (metis prod_cases3)
        with drv_bind_spec(2) [OF inv Some _ this] DvBind \<open>map_of devs n = Some d\<close> n show ?thesis by (simp add: s)
      qed
    qed (use DvBind inv in \<open>simp add: s\<close>)
  next
    case DvProbeAll
    obtain drvs1 devs1 where r: "probe_all_loop (map fst devs) (drvs, devs) = (drvs1, devs1)" by fastforce
    from probe_all_loop_spec [OF inv devices_okD(2) [OF inv] r] DvProbeAll r show ?thesis
      by (simp add: s probe_all_def)
  next
    case (DvRemove b n)
    show ?thesis
    proof (cases "map_of drvs b")
      case None
      with DvRemove inv show ?thesis by (simp add: s drv_remove_def)
    next
      case (Some drv)
      with DvRemove inv show ?thesis
        by (auto simp: s drv_remove_def devices_ok_def Let_def set_remove1_eq)
    qed
  qed (use inv in \<open>auto simp: s devices_ok_def dev_register_def dev_unregister_def drv_unregister_def split: option.splits\<close>)
qed

section \<open>Agreement of devices and drivers\<close>

text \<open>
  What keeps both sides of a binding in step: objects are registered unbound and drivers under a name, a
  device is bound only when it is free or already bound to that driver, and unbound only from its own driver, and
  nothing is unregistered while it is bound. The registries do not ask for any of this, but the boot, which
  registers and probes, does no other.
\<close>

fun orderly :: "dev_op \<Rightarrow> drv_registry \<times> dev_registry \<Rightarrow> bool" where
  "orderly (DRegister d) (drvs, devs) \<longleftrightarrow> dv_bound d = []"
| "orderly (DUnregister n) (drvs, devs) \<longleftrightarrow> (case map_of devs n of None \<Rightarrow> True | Some d \<Rightarrow> dv_bound d = [])"
| "orderly (DvRegister drv) (drvs, devs) \<longleftrightarrow> dr_name drv \<noteq> [] \<and> dr_bound drv = []"
| "orderly (DvUnregister b) (drvs, devs) \<longleftrightarrow> (case map_of drvs b of None \<Rightarrow> True | Some drv \<Rightarrow> dr_bound drv = [])"
| "orderly (DvBind b n) (drvs, devs) \<longleftrightarrow> (case map_of devs n of None \<Rightarrow> True | Some d \<Rightarrow> dv_bound d \<in> {[], b})"
| "orderly (DvRemove b n) (drvs, devs) \<longleftrightarrow> (case map_of devs n of None \<Rightarrow> True | Some d \<Rightarrow> dv_bound d \<in> {[], b})"
| "orderly DvProbeAll s \<longleftrightarrow> True"

definition agree :: "drv_registry \<times> dev_registry \<Rightarrow> bool" where
  "agree = (\<lambda>(drvs, devs). map_of drvs [] = None
     \<and> (\<forall>n d. map_of devs n = Some d \<longrightarrow> dv_bound d \<noteq> [] \<longrightarrow> map_of drvs (dv_bound d) \<noteq> None)
     \<and> (\<forall>b drv n. map_of drvs b = Some drv \<longrightarrow>
          n \<in> set (dr_bound drv) \<longleftrightarrow> (\<exists>d. map_of devs n = Some d \<and> dv_bound d = b)))"

lemma agreeD:
  assumes "agree (drvs, devs)"
  shows "map_of drvs [] = None" "map_of devs n = Some d \<Longrightarrow> dv_bound d \<noteq> [] \<Longrightarrow> map_of drvs (dv_bound d) \<noteq> None"
    "map_of drvs b = Some drv \<Longrightarrow> n \<in> set (dr_bound drv) \<longleftrightarrow> (\<exists>d. map_of devs n = Some d \<and> dv_bound d = b)"
  using assms by (auto simp: agree_def)

lemma agree_bind:
  assumes ag: "agree (drvs, devs)" and drv: "map_of drvs b = Some drv" and d: "map_of devs (dv_name d) = Some d"
    and free: "dv_bound d \<in> {[], b}"
  shows "agree (snd (drv_bind b d (drvs, devs)))"
proof -
  let ?n = "dv_name d"
  define drvs' where "drvs' = (if ?n \<notin> set (dr_bound drv) then dict_modify b (\<lambda>x. x\<lparr>dr_bound := dr_bound x @ [?n]\<rparr>) drvs else drvs)"
  define devs' where "devs' = dict_modify ?n (\<lambda>x. x\<lparr>dv_bound := b\<rparr>) devs"
  have r: "snd (drv_bind b d (drvs, devs)) = (drvs', devs')"
    using drv d by (simp add: drv_bind_def dev_bind_def drvs'_def devs'_def Let_def)
  note ad = agreeD [OF ag]
  have b: "b \<noteq> []" using ad(1) drv by auto
  have keys: "map_of drvs' c = None \<longleftrightarrow> map_of drvs c = None" for c by (simp add: drvs'_def)
  have bound: "set (dr_bound q) = (if c = b then insert ?n (set (dr_bound p)) else set (dr_bound p))"
    if "map_of drvs' c = Some q" "map_of drvs c = Some p" for c p q
    using that drv by (auto simp: drvs'_def split: if_splits)
  have dev: "(\<exists>x. map_of devs' m = Some x \<and> dv_bound x = c) \<longleftrightarrow>
      (if m = ?n then c = b else \<exists>x. map_of devs m = Some x \<and> dv_bound x = c)" for m c
    using d by (auto simp: devs'_def)
  have "m \<in> set (dr_bound q) \<longleftrightarrow> (\<exists>x. map_of devs' m = Some x \<and> dv_bound x = c)" if q: "map_of drvs' c = Some q" for c q m
  proof -
    obtain p where p: "map_of drvs c = Some p" using q keys [of c] by (cases "map_of drvs c") auto
    have "c \<noteq> []" using p ad(1) by auto
    then show ?thesis using bound [OF q p] ad(3) [OF p, of m] dev [of m c] d free by (cases "c = b") auto
  qed
  moreover have "map_of drvs' (dv_bound x) \<noteq> None" if "map_of devs' m = Some x" "dv_bound x \<noteq> []" for m x
  proof -
    have "map_of drvs (dv_bound x) \<noteq> None" using that ad(2) [of m x] drv by (cases "m = ?n") (auto simp: devs'_def d)
    then show ?thesis by (simp add: keys)
  qed
  ultimately show ?thesis unfolding r agree_def prod.case using ad(1) keys by blast
qed

lemma agree_probe:
  "devices_ok s \<Longrightarrow> agree s \<Longrightarrow> agree (probe_all_loop ns s)"
proof (induction ns s rule: probe_all_loop.induct)
  case (2 n ns drvs devs)
  show ?case
  proof (cases "map_of devs n")
    case None
    with 2 show ?thesis by simp
  next
    case (Some d)
    have n: "dv_name d = n" by (rule devices_okD(3) [OF "2.prems"(1) Some])
    show ?thesis
    proof (cases "dv_bound d = [] \<and> probe_device d drvs \<noteq> None")
      case False
      then have "probe_all_loop (n # ns) (drvs, devs) = probe_all_loop ns (drvs, devs)"
        using Some by (cases "probe_device d drvs") auto
      with False "2.IH"(2,4) [OF Some] "2.prems" show ?thesis by (cases "dv_bound d = []") auto
    next
      case True
      then obtain drv where drv: "probe_device d drvs = Some drv" by blast
      note reg = probe_device_registered(1) [OF "2.prems"(1) drv]
      let ?s = "snd (drv_bind (dr_name drv) d (drvs, devs))"
      have "devices_ok ?s"
        using drv_bind_spec(2) [OF "2.prems"(1) reg Some [folded n]] by (metis prod_cases3 snd_conv)
      moreover have "agree ?s" using agree_bind [OF "2.prems"(2) reg Some [folded n]] True by simp
      ultimately have "agree (probe_all_loop ns ?s)" using "2.IH"(3) [OF Some _ drv] True by blast
      with True Some drv show ?thesis by simp
    qed
  qed
qed simp

lemma agree_step:
  assumes ok: "devices_ok s" "agree s" and may: "orderly e s"
  shows "agree (dev_step e s)"
proof -
  obtain drvs devs where s: "s = (drvs, devs)" by fastforce
  note ok = ok [unfolded s] and ad = agreeD [OF ok(2) [unfolded s]]
  show ?thesis
  proof (cases e)
    case (DvBind b n)
    show ?thesis
    proof (cases "map_of devs n")
      case (Some d)
      have n: "dv_name d = n" by (rule devices_okD(3) [OF ok(1) Some])
      show ?thesis
      proof (cases "map_of drvs b")
        case None
        with DvBind Some ok(2) show ?thesis by (simp add: s drv_bind_def)
      next
        case drv: (Some drv)
        from agree_bind [OF ok(2) drv Some [folded n]] DvBind Some may show ?thesis by (simp add: s)
      qed
    qed (use DvBind ok in \<open>simp add: s\<close>)
  next
    case DvProbeAll
    with agree_probe [OF ok] show ?thesis by (simp add: s probe_all_def)
  next
    case (DvRemove b n)
    show ?thesis
    proof (cases "map_of drvs b")
      case (Some drv)
      have dist: "distinct (dr_bound drv)" using ok(1) Some by (auto simp: devices_ok_def)
      show ?thesis using DvRemove Some may dist ad by (auto simp: s drv_remove_def agree_def Let_def split: option.splits)
    qed (use DvRemove ok in \<open>simp add: s drv_remove_def\<close>)
  next
    case (DRegister d)
    with may ad show ?thesis
      by (auto simp: s dev_register_def agree_def)
  next
    case (DUnregister n)
    with may ad show ?thesis by (auto simp: s dev_unregister_def agree_def split: option.splits)
  next
    case (DvRegister drv)
    have "dv_bound d \<noteq> dr_name drv" if "list_all (\<lambda>d. dv_bound d \<noteq> dr_name drv) (map snd devs)" "map_of devs n = Some d" for n d
      using that by (force simp: list_all_iff dest: map_of_SomeD)
    with DvRegister may ad show ?thesis by (auto simp: s drv_register_def agree_def)
  next
    case (DvUnregister b)
    show ?thesis
    proof (cases "map_of drvs b")
      case (Some drv)
      then have "dr_bound drv = []" using DvUnregister may by (simp add: s)
      then have "\<forall>n d. map_of devs n = Some d \<longrightarrow> dv_bound d \<noteq> b" using ad(3) [OF Some] by auto
      with ok(2) show ?thesis by (auto simp: DvUnregister s drv_unregister_def Some agree_def)
    qed (use DvUnregister ok in \<open>simp add: s drv_unregister_def\<close>)
  qed
qed

section \<open>Properties\<close>

text \<open>Registering and unregistering under the guards of an ordinary use, binding, unbinding and probing in any order: a
  device bound to a registered driver is on that driver's list.\<close>
theorem bound_device_listed:
  assumes "reaches dev_step ([], []) (drvs, devs)" and "dev_get n devs = Some d"
  shows "dv_name d = n \<and> (\<forall>drv. drv_get (dv_bound d) drvs = Some drv \<longrightarrow> dv_bound d \<noteq> [] \<longrightarrow>
    n \<in> set (dr_bound drv) \<and> distinct (dr_bound drv) \<and> dr_loaded drv \<and> dr_name drv = dv_bound d)"
  using devm.inv_reachable [OF assms(1)] assms(2) unfolding devices_ok_def dev_get_def drv_get_def by blast

text \<open>The converse fails when a bound device is bound to another driver: it stays on the list of the first.\<close>
theorem rebinding_leaves_stale_entry:
  "let (drvs, devs) = fold dev_step [DRegister (new_device ''sda'' BLOCK_DEV 8 0 []), DvRegister (new_driver ''ahci'' [] [''sda'']),
        DvRegister (new_driver ''nvme'' [] [''sda'']), DvBind ''ahci'' ''sda'', DvBind ''nvme'' ''sda''] ([], [])
   in map_option dv_bound (dev_get ''sda'' devs) = Some ''nvme'' \<and> map_option dr_bound (drv_get ''ahci'' drvs) = Some [''sda'']"
  by code_simp


text \<open>C26: Probing everything binds each unbound device to the first registered driver that claims it (a probe
  that raises claims nothing), leaves bound and unclaimed devices as they are, registers and removes
  nothing, and when every driver has a name is finished: a second round changes nothing.\<close>
theorem probe_all_binds_first_claim:
  assumes ok: "devices_ok (drvs, devs)" and named: "drv_get [] drvs = None"
    and r: "probe_all (drvs, devs) = (drvs', devs')"
  shows "(\<forall>n. dev_get n devs' = (case dev_get n devs of None \<Rightarrow> None
        | Some d \<Rightarrow> Some (if dv_bound d \<noteq> [] then d else (case probe_device d drvs of None \<Rightarrow> d
            | Some drv \<Rightarrow> d\<lparr>dv_bound := dr_name drv\<rparr>))))
    \<and> map fst devs' = map fst devs \<and> map fst drvs' = map fst drvs
    \<and> devices_ok (drvs', devs') \<and> probe_all (drvs', devs') = (drvs', devs')"
proof -
  have r': "probe_all_loop (map fst devs) (drvs, devs) = (drvs', devs')" using r by (simp add: probe_all_def)
  note sp = probe_all_loop_spec [OF ok devices_okD(2) [OF ok] r']
  have bb: "bound_by drvs d = (if dv_bound d \<noteq> [] then d else (case probe_device d drvs of None \<Rightarrow> d
      | Some drv \<Rightarrow> d\<lparr>dv_bound := dr_name drv\<rparr>))" for d
    by (simp add: bound_by_def claimant_def split: option.splits)
  have look: "map_of devs' n = map_option (bound_by drvs) (map_of devs n)" for n
    using sp key_iff_map_of [of n devs] by (cases "map_of devs n") auto
  have keys: "map fst drvs' = map fst drvs"
  proof -
    have "map fst (map (map_prod id f) xs) = map fst xs" for f :: "driver \<Rightarrow> driver" and xs :: drv_registry by simp
    with sp show ?thesis unfolding same_drivers_def by metis
  qed
  have fin: "dv_bound d \<noteq> [] \<or> probe_device d drvs' = None" if x: "map_of devs' n = Some d" for n d
  proof -
    obtain d0 where d0: "map_of devs n = Some d0" "d = bound_by drvs d0" using x look [of n] by auto
    have nm: "b \<noteq> []" if c: "claimant drvs x = Some b" for x b
    proof -
      from c obtain drv where drv: "probe_device x drvs = Some drv" "b = dr_name drv" by (auto simp: claimant_def)
      from probe_device_registered(1) [OF ok drv(1)] named drv(2) show ?thesis by (auto simp: drv_get_def)
    qed
    have "claimant drvs' d = claimant drvs d" using same_claimant sp by blast
    with d0 nm [of d0] show ?thesis
      by (cases "claimant drvs d0") (auto simp: bound_by_def claimant_def)
  qed
  have stable: "probe_all_loop ns (drvs', devs') = (drvs', devs')" for ns
  proof (induction ns)
    case (Cons n ns)
    then show ?case using fin [of n] by (auto split: option.splits)
  qed simp
  have look': "dev_get n devs' = (case dev_get n devs of None \<Rightarrow> None
        | Some d \<Rightarrow> Some (if dv_bound d \<noteq> [] then d else (case probe_device d drvs of None \<Rightarrow> d
            | Some drv \<Rightarrow> d\<lparr>dv_bound := dr_name drv\<rparr>)))" for n
    unfolding dev_get_def look bb [symmetric] by (cases "map_of devs n") simp_all
  from sp keys stable [of "map fst devs'"] look' show ?thesis by (simp add: probe_all_def)
qed

definition sample_registries :: "drv_registry \<times> dev_registry" where
  "sample_registries = fold dev_step
     [DRegister (new_device ''null'' CHAR_DEV 1 3 []), DRegister (new_device ''sda'' BLOCK_DEV 8 0 []),
      DRegister (new_device ''timer0'' TIMER 0 0 []), DvRegister (new_driver ''mem_dev'' [] [''null'']),
      DvRegister (new_driver ''ahci'' [] [''sda'', ''null''])] ([], [])"


theorem probe_all_binds_first_claim_witness:
  "map_option dv_bound (dev_get ''null'' (snd (probe_all sample_registries))) = Some ''mem_dev''
    \<and> probe_all (probe_all sample_registries) = probe_all sample_registries"
proof -
  obtain drvs devs where s: "sample_registries = (drvs, devs)" by fastforce
  obtain drvs' devs' where p: "probe_all (drvs, devs) = (drvs', devs')" by fastforce
  have ok: "devices_ok (drvs, devs)"
    using devm.inv_run [OF devm.inv_init] unfolding s [symmetric] sample_registries_def by blast
  have "drv_get [] (fst sample_registries) = None" by code_simp
  then have n: "drv_get [] drvs = None" by (simp add: s)
  have c: "map_option dv_bound (dev_get ''null'' (snd (probe_all sample_registries))) = Some ''mem_dev''" by code_simp
  from probe_all_binds_first_claim [OF ok n p] c show ?thesis by (simp add: s p)
qed

end
