(* ===== verification/Text_Tools.thy ===== *)
theory Text_Tools
  imports Prelude
begin

text \<open>
  \<^verbatim>\<open>utils.py\<close>: addresses, sizes, tables and colours as text; and the parts of Python's string
  library that the shell parses its arguments with: \<^verbatim>\<open>strip\<close>, \<^verbatim>\<open>split\<close>, \<^verbatim>\<open>lower\<close>, \<^verbatim>\<open>upper\<close> and
  \<^verbatim>\<open>int(s, base)\<close>, on the code points a HOL character carries.
\<close>

section \<open>White space, case and numbers\<close>

definition py_space :: "char \<Rightarrow> bool" where
  "py_space c = (let n = (of_char c :: nat) in 9 \<le> n \<and> n \<le> 13 \<or> 28 \<le> n \<and> n \<le> 32 \<or> n = 133 \<or> n = 160)"

definition py_lstrip :: "string \<Rightarrow> string" where
  "py_lstrip s = dropWhile py_space s"

definition py_strip :: "string \<Rightarrow> string" where
  "py_strip s = rev (dropWhile py_space (rev (py_lstrip s)))"

text \<open>\<^verbatim>\<open>s.split()\<close>; the first argument collects the current word.\<close>

fun words_loop :: "string \<Rightarrow> string \<Rightarrow> string list" where
  "words_loop w [] = (if w = [] then [] else [rev w])"
| "words_loop w (c # cs) =
     (if py_space c then (if w = [] then words_loop [] cs else rev w # words_loop [] cs)
      else words_loop (c # w) cs)"

definition py_words :: "string \<Rightarrow> string list" where
  "py_words s = words_loop [] s"

text \<open>\<^verbatim>\<open>s.split(None, 1)\<close>\<close>

definition py_split_first :: "string \<Rightarrow> string list" where
  "py_split_first s =
     (let t = py_lstrip s; w = takeWhile (\<lambda>c. \<not> py_space c) t; r = py_lstrip (dropWhile (\<lambda>c. \<not> py_space c) t)
      in if t = [] then [] else if r = [] then [w] else [w, r])"

text \<open>\<^verbatim>\<open>s.split(c, 1)\<close>\<close>

definition split_once :: "char \<Rightarrow> string \<Rightarrow> string list" where
  "split_once c s = (if c \<in> set s then [takeWhile (\<lambda>x. x \<noteq> c) s, tl (dropWhile (\<lambda>x. x \<noteq> c) s)] else [s])"

definition lower_char :: "char \<Rightarrow> char" where
  "lower_char c = (let n = (of_char c :: nat) in
     if 65 \<le> n \<and> n \<le> 90 \<or> 192 \<le> n \<and> n \<le> 222 \<and> n \<noteq> 215 then char_of (n + 32) else c)"

definition py_lower :: "string \<Rightarrow> string" where
  "py_lower s = map lower_char s"

text \<open>The capitals of three characters lie outside the modelled range; they are left alone, and no
  string the sources compare with contains any of the six.\<close>

definition upper_char :: "char \<Rightarrow> char" where
  "upper_char c = (let n = (of_char c :: nat) in
     if 97 \<le> n \<and> n \<le> 122 \<or> 224 \<le> n \<and> n \<le> 254 \<and> n \<noteq> 247 then char_of (n - 32) else c)"

definition py_upper :: "string \<Rightarrow> string" where
  "py_upper s = map upper_char s"

text \<open>\<^verbatim>\<open>int(s, base)\<close> for base 10 and 16: optional white space around, a sign, for base 16 an optional
  prefix, and digits with single underscores between them.\<close>

definition digit_value :: "char \<Rightarrow> nat option" where
  "digit_value c = (let n = (of_char c :: nat) in
     if 48 \<le> n \<and> n \<le> 57 then Some (n - 48)
     else if 97 \<le> n \<and> n \<le> 122 then Some (n - 87)
     else if 65 \<le> n \<and> n \<le> 90 then Some (n - 55) else None)"

fun digits_loop :: "nat \<Rightarrow> nat \<Rightarrow> string \<Rightarrow> nat option" where
  "digits_loop b acc [] = Some acc"
| "digits_loop b acc (c # cs) =
     (case digit_value c of
        None \<Rightarrow> None
      | Some d \<Rightarrow> if d < b then digits_loop b (acc * b + d) cs else None)"

definition parse_digits :: "nat \<Rightarrow> string \<Rightarrow> nat option" where
  "parse_digits b s =
     (if [] \<in> set (py_split CHR ''_'' s) then None else digits_loop b 0 (filter (\<lambda>c. c \<noteq> CHR ''_'') s))"

definition drop_hex_prefix :: "nat \<Rightarrow> string \<Rightarrow> string" where
  "drop_hex_prefix b s =
     (if b = 16 \<and> py_startswith (py_lower s) ''0x''
      then (let t = drop 2 s in if py_startswith t ''_'' then tl t else t) else s)"

definition parse_int :: "nat \<Rightarrow> string \<Rightarrow> int option" where
  "parse_int b s =
     (let t = py_strip s in
      if py_startswith t ''-'' then map_option (\<lambda>n. - int n) (parse_digits b (drop_hex_prefix b (tl t)))
      else if py_startswith t ''+'' then map_option int (parse_digits b (drop_hex_prefix b (tl t)))
      else map_option int (parse_digits b (drop_hex_prefix b t)))"

section \<open>Addresses and sizes\<close>

text \<open>\<^verbatim>\<open>f"{i:0wx}"\<close>: zero padding counts a sign.\<close>

definition hex_pad :: "nat \<Rightarrow> int \<Rightarrow> string" where
  "hex_pad w i =
     (let d = nat_digits 16 (nat \<bar>i\<bar>); sign = (if i < 0 then ''-'' else [])
      in sign @ replicate (w - length sign - length d) CHR ''0'' @ d)"

definition hex_addr :: "int \<Rightarrow> string" where
  "hex_addr addr = ''0x'' @ hex_pad 16 addr"

definition hex_short :: "int \<Rightarrow> string" where
  "hex_short addr = ''0x'' @ hex_pad 8 addr"

text \<open>\<^verbatim>\<open>f"{n:.1f} {unit}"\<close> of an integer below 1024 in absolute value prints it with one zero decimal;
  the loop divides by integer division.\<close>

fun size_loop :: "string list \<Rightarrow> int \<Rightarrow> string" where
  "size_loop [] n = py_str_int n @ '' PB''"
| "size_loop (unit # units) n =
     (if n < 1024 then py_str_int n @ ''.0 '' @ unit else size_loop units (n div 1024))"

definition size_units :: "string list" where
  "size_units = [''B'', ''KB'', ''MB'', ''GB'', ''TB'']"

definition size_fmt :: "int \<Rightarrow> string" where
  "size_fmt n = size_loop size_units n"

definition validate_addr :: "int \<Rightarrow> bool" where
  "validate_addr addr \<longleftrightarrow> (0 < addr \<and> addr \<le> 0x00007FFFFFFFFFFF)
     \<or> (0xFFFF800000000000 \<le> addr \<and> addr \<le> 0xFFFFFFFFFFFFFFFF)"

section \<open>Tables\<close>

text \<open>\<^verbatim>\<open>f"{s:<w}"\<close>\<close>

definition ljust :: "nat \<Rightarrow> string \<Rightarrow> string" where
  "ljust w s = s @ replicate (w - length s) CHR '' ''"

definition rjust :: "nat \<Rightarrow> string \<Rightarrow> string" where
  "rjust w s = replicate (w - length s) CHR '' '' @ s"

definition col_width :: "string list \<Rightarrow> string list list \<Rightarrow> nat \<Rightarrow> nat" where
  "col_width headers rows i = fold max (map (\<lambda>r. length (r ! i)) rows) (length (headers ! i))"

definition auto_widths :: "string list \<Rightarrow> string list list \<Rightarrow> nat list result" where
  "auto_widths headers rows =
     (if list_ex (\<lambda>r. length r < length headers) rows then Inl IndexError
      else Inr (map (col_width headers rows) [0..<length headers]))"

definition fmt_row :: "nat list \<Rightarrow> string list \<Rightarrow> string" where
  "fmt_row ws row = ''|'' @ py_join CHR ''|'' (map2 (\<lambda>w v. '' '' @ ljust w v @ '' '') ws row) @ ''|''"

definition sep_line :: "nat list \<Rightarrow> string" where
  "sep_line ws = ''+'' @ py_join CHR ''+'' (map (\<lambda>w. replicate (w + 2) CHR ''-'') ws) @ ''+''"

definition NL :: char where "NL = CHR 0x0A"

text \<open>The cells arrive as the strings \<^verbatim>\<open>str(v)\<close>; a row longer than the widths raises when it is formatted.\<close>

definition table :: "string list \<Rightarrow> string list list \<Rightarrow> nat list option \<Rightarrow> string result" where
  "table headers rows col_widths =
     (case (if col_widths = None \<or> col_widths = Some [] then auto_widths headers rows else Inr (the col_widths)) of
        Inl e \<Rightarrow> Inl e
      | Inr ws \<Rightarrow>
          if list_ex (\<lambda>r. length ws < length r) (headers # rows) then Inl IndexError
          else Inr (py_join NL ([sep_line ws, fmt_row ws headers, sep_line ws] @ map (fmt_row ws) rows @ [sep_line ws])))"

section \<open>Colours\<close>

definition ESC :: char where "ESC = CHR 0x1B"

definition ansi :: "string \<Rightarrow> string \<Rightarrow> string" where
  "ansi code t = ESC # ''['' @ code @ ''m'' @ t @ ESC # ''[0m''"

definition green :: "string \<Rightarrow> string" where "green = ansi ''32''"
definition red :: "string \<Rightarrow> string" where "red = ansi ''31''"
definition yellow :: "string \<Rightarrow> string" where "yellow = ansi ''33''"
definition cyan :: "string \<Rightarrow> string" where "cyan = ansi ''36''"
definition bold :: "string \<Rightarrow> string" where "bold = ansi ''1''"
definition dim :: "string \<Rightarrow> string" where "dim = ansi ''2''"

section \<open>Lemmas\<close>

lemma nat_digits_eq:
  "nat_digits b n = (if b < 2 \<or> n < b then [digit_char n] else nat_digits b (n div b) @ [digit_char (n mod b)])"
  by (subst nat_digits.simps) (rule refl)

lemma of_digit_char: "d < 16 \<Longrightarrow> (of_char (digit_char d) :: nat) = (if d < 10 then 48 + d else 87 + d)"
  by (simp add: digit_char_def)

lemma digit_char_value:
  assumes "d < 16"
  shows "digit_value (digit_char d) = Some d" "digit_char d \<noteq> CHR ''_''" "\<not> py_space (digit_char d)"
proof -
  note of = of_digit_char [OF assms]
  show "digit_value (digit_char d) = Some d"
    using assms by (simp add: digit_value_def Let_def of)
  show "\<not> py_space (digit_char d)"
    using assms by (simp add: py_space_def Let_def of)
  have "(of_char CHR ''_'' :: nat) = 95" by simp
  then show "digit_char d \<noteq> CHR ''_''"
    using of assms by (auto split: if_splits)
qed

lemma nat_digits_chars:
  "2 \<le> b \<Longrightarrow> b \<le> 16 \<Longrightarrow> \<forall>c \<in> set (nat_digits b n). \<exists>d < b. c = digit_char d"
proof (induction n rule: less_induct)
  case (less n)
  show ?case
  proof (cases "n < b")
    case False
    then have "\<forall>c \<in> set (nat_digits b (n div b)). \<exists>d < b. c = digit_char d"
      using less by (intro less.IH) auto
    with False less.prems show ?thesis
      by (subst nat_digits_eq) (auto intro!: exI [of _ "n mod b"])
  qed (subst nat_digits_eq, auto)
qed

lemma digits_loop_append:
  "digits_loop b acc (xs @ ys) = (case digits_loop b acc xs of None \<Rightarrow> None | Some a \<Rightarrow> digits_loop b a ys)"
  by (induction xs arbitrary: acc) (auto split: option.splits)

lemma digits_loop_digits:
  "2 \<le> b \<Longrightarrow> b \<le> 16 \<Longrightarrow> digits_loop b 0 (nat_digits b n) = Some n"
proof (induction n rule: less_induct)
  case (less n)
  show ?case
  proof (cases "n < b")
    case True
    with less.prems show ?thesis by (subst nat_digits_eq) (simp add: digit_char_value)
  next
    case False
    then have "digits_loop b 0 (nat_digits b (n div b)) = Some (n div b)"
      using less by (intro less.IH) auto
    moreover have "n mod b < 16" using less.prems mod_less_divisor [of b n] by linarith
    ultimately show ?thesis
      using False less.prems
      by (subst nat_digits_eq) (simp add: digits_loop_append digit_char_value)
  qed
qed

lemma digits_loop_zeros: "2 \<le> b \<Longrightarrow> digits_loop b 0 (replicate k CHR ''0'' @ s) = digits_loop b 0 s"
proof (induction k)
  case (Suc k)
  moreover have "digit_value CHR ''0'' = Some 0" by code_simp
  ultimately show ?case by simp
qed simp

lemma hex_pad_nonneg: "0 \<le> i \<Longrightarrow> hex_pad w i = replicate (w - length (nat_digits 16 (nat i))) CHR ''0'' @ nat_digits 16 (nat i)"
  by (simp add: hex_pad_def Let_def)

lemma strip_id: "\<forall>c \<in> set s. \<not> py_space c \<Longrightarrow> py_strip s = s"
proof -
  assume s: "\<forall>c \<in> set s. \<not> py_space c"
  have "dropWhile py_space t = t" if "\<forall>c \<in> set t. \<not> py_space c" for t
    using that by (cases t) auto
  from this [of s] this [of "rev s"] s show ?thesis by (simp add: py_strip_def py_lstrip_def)
qed

lemma py_split_none: "c \<notin> set s \<Longrightarrow> py_split c s = [s]"
  by (rule split_single)

lemma parse_digits_plain:
  assumes "s \<noteq> []" "CHR ''_'' \<notin> set s"
  shows "parse_digits b s = digits_loop b 0 s"
proof -
  have "filter (\<lambda>c. c \<noteq> CHR ''_'') s = s" using assms(2) by (auto simp: filter_id_conv)
  with assms show ?thesis by (simp add: parse_digits_def split_single)
qed

lemma join_map_length:
  "(\<And>x. x \<in> set xs \<Longrightarrow> length (f x) = length (g x)) \<Longrightarrow>
   length (py_join c (map f xs)) = length (py_join c (map g xs))"
proof (induction xs rule: induct_list012)
  case (3 x y zs)
  then show ?case by (simp add: join_Cons)
qed simp_all

lemma join_length_char: "length (py_join c xs) = length (py_join d xs)"
  by (induction xs rule: induct_list012) auto

lemma set_py_join: "set (py_join c xs) \<subseteq> insert c (\<Union> (set ` set xs))"
  by (induction c xs rule: py_join.induct) auto

lemma col_width_le:
  "length (headers ! i) \<le> col_width headers rows i"
  "r \<in> set rows \<Longrightarrow> length (r ! i) \<le> col_width headers rows i"
proof -
  have m: "(m::nat) \<le> fold max xs m" for xs m
    by (induction xs arbitrary: m) (auto intro: order_trans [OF max.cobounded2])
  have x: "(x::nat) \<in> set xs \<Longrightarrow> x \<le> fold max xs m" for xs m x
    by (induction xs arbitrary: m) (auto intro: order_trans [OF max.cobounded1 m])
  show "length (headers ! i) \<le> col_width headers rows i" by (simp add: col_width_def m)
  show "length (r ! i) \<le> col_width headers rows i" if "r \<in> set rows"
    using that by (auto simp: col_width_def intro!: x)
qed

section \<open>Properties\<close>

text \<open>C39: An address printed by hex_addr is read back by int(s, 16) as the same address, whatever its
  size, and from sixteen digits on it is never truncated.\<close>
theorem hex_addr_parse:
  assumes "0 \<le> addr"
  shows "parse_int 16 (hex_addr addr) = Some addr \<and> parse_int 16 (hex_short addr) = Some addr
    \<and> 18 \<le> length (hex_addr addr) \<and> 10 \<le> length (hex_short addr)"
proof -
  let ?d = "nat_digits 16 (nat addr)"
  have chars: "c \<noteq> CHR ''_''" "\<not> py_space c" if "c \<in> set (hex_pad w addr)" for c w
  proof -
    have "CHR ''0'' = digit_char 0" by (simp add: digit_char_def) code_simp
    then have "\<exists>d < 16. c = digit_char d"
      using that nat_digits_chars [of 16 "nat addr"]
      by (auto simp: hex_pad_nonneg [OF assms] set_replicate_conv_if split: if_splits intro: exI [of _ "0 :: nat"])
    then show "c \<noteq> CHR ''_''" "\<not> py_space c" using digit_char_value(2,3) by auto
  qed
  have ne: "hex_pad w addr \<noteq> []" for w by (simp add: hex_pad_nonneg [OF assms])
  have "parse_digits 16 (hex_pad w addr) = Some (nat addr)" for w
    using chars(1) by (subst parse_digits_plain [OF ne])
      (auto simp: hex_pad_nonneg [OF assms] digits_loop_zeros digits_loop_digits)
  moreover have "drop_hex_prefix 16 (''0x'' @ hex_pad w addr) = hex_pad w addr" for w
  proof -
    have "py_startswith (hex_pad w addr) ''_'' = False"
      using chars(1) [of "hd (hex_pad w addr)" w] ne [of w] by (cases "hex_pad w addr") (auto simp: py_startswith_def)
    moreover have "py_startswith (py_lower (''0x'' @ s)) ''0x''" for s
      unfolding py_lower_def map_append startswith_iff by (intro exI [of _ "map lower_char s"]) (simp, code_simp)
    ultimately show ?thesis by (simp add: drop_hex_prefix_def Let_def)
  qed
  moreover have "py_strip (''0x'' @ hex_pad w addr) = ''0x'' @ hex_pad w addr" for w
  proof (rule strip_id)
    have "\<not> py_space CHR ''0''" "\<not> py_space CHR ''x''" by code_simp+
    then show "\<forall>c \<in> set (''0x'' @ hex_pad w addr). \<not> py_space c" using chars(2) by auto
  qed
  ultimately have "parse_int 16 (''0x'' @ hex_pad w addr) = Some addr" for w
    using assms by (simp add: parse_int_def Let_def py_startswith_def)
  then show ?thesis
    using assms by (simp add: hex_addr_def hex_short_def hex_pad_nonneg) linarith
qed

theorem hex_addr_parse_witness: "parse_int 16 (hex_addr 0x7fff00000000) = Some 0x7fff00000000"
  using hex_addr_parse [of "0x7fff00000000"] by simp

text \<open>A size is printed in the largest unit it fills: with a quotient below 1024 and one zero decimal
  up to terabytes, and in petabytes without a bound beyond. The remainders of the divisions are lost.\<close>
theorem size_fmt_spec:
  assumes "0 \<le> n"
  shows "if n < 1024 ^ 5
    then \<exists>k < 5. size_fmt n = py_str_int (n div 1024 ^ k) @ ''.0 '' @ size_units ! k \<and> n div 1024 ^ k < 1024
           \<and> (0 < k \<longrightarrow> 1 \<le> n div 1024 ^ k)
    else size_fmt n = py_str_int (n div 1024 ^ 5) @ '' PB''"
proof -
  have loop: "0 \<le> n \<Longrightarrow> us = [] \<longrightarrow> 1 \<le> n \<Longrightarrow> if n < 1024 ^ length us
      then \<exists>k < length us. size_loop us n = py_str_int (n div 1024 ^ k) @ ''.0 '' @ us ! k \<and> n div 1024 ^ k < 1024
           \<and> (0 < k \<longrightarrow> 1 \<le> n div 1024 ^ k)
      else size_loop us n = py_str_int (n div 1024 ^ length us) @ '' PB''" for us n
  proof (induction us n rule: size_loop.induct)
    case (2 unit units n)
    show ?case
    proof (cases "n < 1024")
      case True
      moreover have "n < 1024 ^ length (unit # units)"
        using True by (simp add: less_le_trans [OF True] )
      ultimately show ?thesis by (auto intro!: exI [of _ "0 :: nat"])
    next
      case False
      have step: "n div 1024 div 1024 ^ k = n div 1024 ^ Suc k" for k
        by (simp add: zdiv_zmult2_eq)
      have lt: "n div 1024 < 1024 ^ length units \<longleftrightarrow> n < 1024 ^ length (unit # units)"
        using False by (auto simp: div_less_iff_less_mult mult.commute)
      have "size_loop (unit # units) n = size_loop units (n div 1024)" using False by simp
      note IH = "2.IH" [OF False, unfolded lt step, folded this]
      have pos: "0 \<le> n div 1024" "units = [] \<longrightarrow> 1 \<le> n div 1024" using "2.prems" False by auto
      show ?thesis
      proof (cases "n < 1024 ^ length (unit # units)")
        case True
        then obtain k where k: "k < length units"
          "size_loop (unit # units) n = py_str_int (n div 1024 ^ Suc k) @ ''.0 '' @ units ! k" "n div 1024 ^ Suc k < 1024"
          "0 < k \<longrightarrow> 1 \<le> n div 1024 ^ Suc k"
          using IH [OF pos] True by (simp only: if_True) blast
        have "1 \<le> n div 1024 ^ Suc k" using k(4) False by (cases k) auto
        with k True show ?thesis by (auto intro!: exI [of _ "Suc k"] simp del: power_Suc)
      qed (use IH [OF pos] False in \<open>simp del: power_Suc\<close>)
    qed
  qed simp
  have "length size_units = 5" by (simp add: size_units_def)
  moreover from this have "size_units = [] \<longrightarrow> 1 \<le> n" by auto
  ultimately show ?thesis using loop [OF assms, of size_units] by (simp only: size_fmt_def)
qed

theorem size_fmt_spec_witness: "size_fmt 6291455 = py_str_int 5 @ ''.0 MB''"
proof -
  have "size_loop size_units 6291455 = py_str_int 5 @ ''.0 MB''" by (simp add: size_units_def)
  then show ?thesis using size_fmt_spec [of 6291455] by (simp add: size_fmt_def)
qed

text \<open>A table is printed exactly when every row has as many cells as there are headers, and raises
  IndexError otherwise. With cells free of line breaks it has one line per row and four more, all of
  the same length, so that the columns line up.\<close>
theorem table_rectangular:
  assumes "\<forall>r \<in> set (headers # rows). \<forall>v \<in> set r. NL \<notin> set v"
  shows "if \<forall>r \<in> set rows. length r = length headers
    then \<exists>s ws. table headers rows None = Inr s \<and> auto_widths headers rows = Inr ws
      \<and> py_split NL s = [sep_line ws, fmt_row ws headers, sep_line ws] @ map (fmt_row ws) rows @ [sep_line ws]
      \<and> (\<forall>l \<in> set (py_split NL s). length l = length (sep_line ws))
    else table headers rows None = Inl IndexError"
proof (cases "\<forall>r \<in> set rows. length r = length headers")
  case False
  then obtain r where r: "r \<in> set rows" "length r \<noteq> length headers" by blast
  show ?thesis
  proof (cases "\<exists>r \<in> set rows. length r < length headers")
    case True
    then have "auto_widths headers rows = Inl IndexError" by (auto simp: auto_widths_def list_ex_iff)
    with False show ?thesis by (simp add: table_def)
  next
    case short: False
    then have "length headers < length r" using r by (meson linorder_neqE_nat)
    with r(1) short False show ?thesis by (auto simp: table_def auto_widths_def list_ex_iff)
  qed
next
  case True
  define ws where "ws = map (col_width headers rows) [0..<length headers]"
  have ws: "auto_widths headers rows = Inr ws" using True by (auto simp: auto_widths_def ws_def list_ex_iff)
  let ?ls = "[sep_line ws, fmt_row ws headers, sep_line ws] @ map (fmt_row ws) rows @ [sep_line ws]"
  have s: "table headers rows None = Inr (py_join NL ?ls)"
    using True ws by (auto simp: table_def list_ex_iff ws_def)
  have row: "length (fmt_row ws r) = length (sep_line ws)" if r: "r \<in> set (headers # rows)" for r
  proof -
    have len: "length r = length ws" using r True by (auto simp: ws_def)
    have w: "length (r ! i) \<le> ws ! i" if "i < length ws" for i
      using r that col_width_le [where headers = headers and rows = rows] by (auto simp: ws_def)
    have z: "map2 (\<lambda>w v. '' '' @ ljust w v @ '' '') ws r = map (\<lambda>i. '' '' @ ljust (ws ! i) (r ! i) @ '' '') [0..<length ws]"
      using len by (auto intro: nth_equalityI)
    have m: "map (\<lambda>w. replicate (w + 2) CHR ''-'') ws = map (\<lambda>i. replicate (ws ! i + 2) CHR ''-'') [0..<length ws]"
      by (auto intro: nth_equalityI)
    have "length (py_join c (map (\<lambda>i. '' '' @ ljust (ws ! i) (r ! i) @ '' '') [0..<length ws]))
        = length (py_join c (map (\<lambda>i. replicate (ws ! i + 2) CHR ''-'') [0..<length ws]))" for c
      using w by (intro join_map_length) (simp add: ljust_def)
    then show ?thesis
      unfolding fmt_row_def sep_line_def z m length_append
      using join_length_char [of "CHR ''|''" _ "CHR ''+''"] by (metis list.size(3) length_Cons)
  qed
  have chars: "NL \<notin> set l" if "l \<in> set ?ls" for l
  proof -
    have sep: "NL \<notin> set (sep_line ws)" by (auto simp: sep_line_def NL_def dest!: set_py_join [THEN subsetD])
    have rw: "NL \<notin> set (fmt_row ws r)" if "r \<in> set (headers # rows)" for r
      using assms that by (auto simp: fmt_row_def NL_def ljust_def dest!: set_py_join [THEN subsetD] set_zip_rightD split: if_splits)
    have "l = sep_line ws \<or> (\<exists>r \<in> set (headers # rows). l = fmt_row ws r)" using that by auto
    with sep rw show ?thesis by blast
  qed
  have split: "py_split NL (py_join NL ?ls) = ?ls" using chars by (intro split_join) auto
  have all: "\<forall>l \<in> set (py_split NL (py_join NL ?ls)). length l = length (sep_line ws)"
    unfolding split using row by auto
  show ?thesis
    unfolding if_P [OF True]
    by (rule exI [of _ "py_join NL ?ls"], rule exI [of _ ws], intro conjI s ws split all)
qed

theorem table_rectangular_witness:
  "\<exists>s. table [''K'', ''Value''] [[''booted'', ''True'']] None = Inr s \<and> length (py_split NL s) = 5"
proof -
  let ?h = "[''K'', ''Value'']" and ?r = "[[''booted'', ''True'']]"
  have "\<forall>r \<in> set (?h # ?r). \<forall>v \<in> set r. NL \<notin> set v" by (simp add: NL_def)
  note t = table_rectangular [OF this]
  have "\<forall>r \<in> set ?r. length r = length ?h" by simp
  note t = t [unfolded if_P [OF this]]
  then obtain s ws where s: "table ?h ?r None = Inr s"
    "py_split NL s = [sep_line ws, fmt_row ws ?h, sep_line ws] @ map (fmt_row ws) ?r @ [sep_line ws]" by blast
  have "length (py_split NL s) = 5" unfolding s(2) by simp
  with s(1) show ?thesis by blast
qed

end
