(* ===== verification/Arch.thy ===== *)
theory Arch
  imports Text_Tools
begin

text \<open>
  \<^verbatim>\<open>arch.py\<close>: CPU features, descriptor tables and the summary of the processor. The set-up operations
  build the tables they return; only the detected features are kept.
\<close>

unbundle bit_operations_syntax

section \<open>Descriptors\<close>

record cpu_features =
  has_nx :: bool
  has_sse2 :: bool
  has_avx2 :: bool
  has_rdrand :: bool
  has_pae :: bool
  has_smep :: bool
  has_smap :: bool
  has_pcid :: bool
  cores :: int
  threads_per_core :: int

definition default_features :: cpu_features where
  "default_features = \<lparr>has_nx = True, has_sse2 = True, has_avx2 = True, has_rdrand = True, has_pae = True,
     has_smep = True, has_smap = True, has_pcid = True, cores = 4, threads_per_core = 2\<rparr>"

datatype privilege_ring = RING0 | RING1 | RING2 | RING3

fun ring_value :: "privilege_ring \<Rightarrow> nat" where
  "ring_value RING0 = 0"
| "ring_value RING1 = 1"
| "ring_value RING2 = 2"
| "ring_value RING3 = 3"

fun ring_name :: "privilege_ring \<Rightarrow> string" where
  "ring_name RING0 = ''RING0''"
| "ring_name RING1 = ''RING1''"
| "ring_name RING2 = ''RING2''"
| "ring_name RING3 = ''RING3''"

lemma ring_value_inj: "ring_value a = ring_value b \<Longrightarrow> a = b"
  by (cases a; cases b) simp_all

instantiation privilege_ring :: linorder
begin

definition less_eq_privilege_ring :: "privilege_ring \<Rightarrow> privilege_ring \<Rightarrow> bool" where
  "a \<le> b \<longleftrightarrow> ring_value a \<le> ring_value b"

definition less_privilege_ring :: "privilege_ring \<Rightarrow> privilege_ring \<Rightarrow> bool" where
  "a < b \<longleftrightarrow> ring_value a < ring_value b"

instance
  by standard (auto simp: less_eq_privilege_ring_def less_privilege_ring_def intro: ring_value_inj)

end

definition KERNEL_RING :: privilege_ring where "KERNEL_RING = RING0"
definition USER_RING :: privilege_ring where "USER_RING = RING3"

record gdt_entry =
  gd_base :: int
  gd_limit :: int
  gd_access :: int
  gd_flags :: int
  gd_description :: string

record tss_descriptor =
  ts_base :: int
  ts_limit :: int
  ts_rsp0 :: int
  ts_description :: string

record idt_entry =
  id_offset :: int
  id_selector :: int
  id_gate_type :: int
  id_dpl :: int
  id_vector :: int
  id_description :: string

record page_table_entry =
  pte_present :: bool
  pte_writable :: bool
  pte_user :: bool
  pte_nx :: bool
  pte_pfn :: int

record per_cpu_state =
  pc_cpu_id :: int
  pc_current_pid :: int
  pc_current_tid :: int
  pc_in_interrupt :: bool
  pc_irq_depth :: int

section \<open>Set-up\<close>

record arch =
  ar_features :: "cpu_features option"
  ar_per_cpu :: "per_cpu_state list"

definition arch_new :: arch where
  "arch_new = \<lparr>ar_features = None, ar_per_cpu = []\<rparr>"

definition detect_cpu_features :: "arch \<Rightarrow> cpu_features \<times> arch" where
  "detect_cpu_features a = (default_features, a\<lparr>ar_features := Some default_features\<rparr>)"

definition gdt_of :: "int \<Rightarrow> int \<Rightarrow> int \<Rightarrow> int \<Rightarrow> string \<Rightarrow> gdt_entry" where
  "gdt_of base limit access flags description = \<lparr>gd_base = base, gd_limit = limit, gd_access = access,
     gd_flags = flags, gd_description = description\<rparr>"

definition setup_gdt :: "gdt_entry list" where
  "setup_gdt =
     [gdt_of 0 0 0x00 0x0 ''null descriptor'',
      gdt_of 0 0xFFFFF 0x9A 0xA ''kernel CS64 (ring-0 code, 64-bit)'',
      gdt_of 0 0xFFFFF 0x92 0xC ''kernel DS/SS (ring-0 data)'',
      gdt_of 0 0xFFFFF 0xFA 0xA ''user CS32 (ring-3 compat code)'',
      gdt_of 0 0xFFFFF 0xF2 0xC ''user DS (ring-3 data)'',
      gdt_of 0 0xFFFFF 0xFA 0xA ''user CS64 (ring-3 code, 64-bit)'']"

definition setup_tss :: tss_descriptor where
  "setup_tss = \<lparr>ts_base = 0xFFFF800000008000, ts_limit = 0x67, ts_rsp0 = 0xFFFF800000010000,
     ts_description = ''CPU0 TSS (ring-0 stack=0xFFFF800000010000)''\<rparr>"

definition exception_names :: "string list" where
  "exception_names =
     [''#DE Divide Error'', ''#DB Debug'', ''NMI'', ''#BP Breakpoint'',
      ''#OF Overflow'', ''#BR Bound Range'', ''#UD Invalid Opcode'', ''#NM No Math'',
      ''#DF Double Fault'', ''Reserved'', ''#TS Invalid TSS'', ''#NP Segment Not Present'',
      ''#SS Stack Fault'', ''#GP General Protection'', ''#PF Page Fault'', ''Reserved'',
      ''#MF x87 FP'', ''#AC Alignment Check'', ''#MC Machine Check'', ''#XF SIMD FP'']"

definition idt_gate :: "nat \<Rightarrow> idt_entry" where
  "idt_gate v =
     (let (desc, dpl) =
        (if v < length exception_names then (exception_names ! v, if v = 3 then 3 else 0)
         else if 32 \<le> v \<and> v \<le> 47 then (''IRQ'' @ py_str_int (int v - 32), 0)
         else if v = 0x80 then (''legacy syscall (INT 0x80)'', 3)
         else (''vector 0x'' @ hex_pad 2 (int v), 0))
      in \<lparr>id_offset = 0xFFFF800000100000 + int v * 0x20, id_selector = 0x08, id_gate_type = 0xE,
          id_dpl = dpl, id_vector = int v, id_description = desc\<rparr>)"

definition setup_idt :: "idt_entry list" where
  "setup_idt = map idt_gate [0..<256]"

definition setup_paging :: string where
  "setup_paging = ''paging_initialized_simulated''"

definition setup_syscall_entry :: string where
  "setup_syscall_entry = ''syscall_msr_configured_simulated''"

record cpu_info =
  ci_arch :: string
  ci_cores :: int
  ci_threads :: int
  ci_features :: "(string \<times> bool) list"
  ci_rings :: "string list"
  ci_kernel_ring :: string
  ci_user_ring :: string
  ci_long_mode :: bool
  ci_levels :: int

definition get_cpu_info :: "arch \<Rightarrow> cpu_info" where
  "get_cpu_info a =
     (let f = (case ar_features a of Some f \<Rightarrow> f | None \<Rightarrow> default_features) in
      \<lparr>ci_arch = ''x86_64'', ci_cores = cores f, ci_threads = cores f * threads_per_core f,
       ci_features = [(''NX'', has_nx f), (''SSE2'', has_sse2 f), (''AVX2'', has_avx2 f), (''RDRAND'', has_rdrand f),
         (''SMEP'', has_smep f), (''SMAP'', has_smap f), (''PCID'', has_pcid f)],
       ci_rings = map ring_name [RING0, RING1, RING2, RING3], ci_kernel_ring = ring_name KERNEL_RING,
       ci_user_ring = ring_name USER_RING, ci_long_mode = True, ci_levels = 4\<rparr>)"

section \<open>Properties\<close>

text \<open>The descriptor privilege level is bits 5 and 6 of the access byte, the present bit is bit 7.\<close>

definition gdt_dpl :: "gdt_entry \<Rightarrow> int" where
  "gdt_dpl g = (gd_access g div 32) mod 4"

definition gdt_present :: "gdt_entry \<Rightarrow> bool" where
  "gdt_present g \<longleftrightarrow> (gd_access g div 128) mod 2 = 1"

text \<open>The interrupt table has a gate for each of the 256 vectors, filed under its own number, all in the
  kernel code segment with handlers 32 bytes apart in the kernel half; of all gates exactly breakpoint
  and the legacy system call can be raised from user mode. In the segment table the kernel segments
  are the only ones of level 0 that are present, and the user segments have level 3.\<close>
theorem user_callable_gates:
  assumes "v < 256"
  shows "length setup_idt = 256 \<and> id_vector (setup_idt ! v) = int v \<and> id_selector (setup_idt ! v) = 8
    \<and> (id_dpl (setup_idt ! v) = int (ring_value USER_RING) \<longleftrightarrow> v = 3 \<or> v = 0x80)
    \<and> (id_dpl (setup_idt ! v) = int (ring_value KERNEL_RING) \<longleftrightarrow> v \<noteq> 3 \<and> v \<noteq> 0x80)
    \<and> (\<forall>w < 256. v < w \<longrightarrow> id_offset (setup_idt ! v) + 32 \<le> id_offset (setup_idt ! w))
    \<and> 0xFFFF800000000000 \<le> id_offset (setup_idt ! v) \<and> id_offset (setup_idt ! v) \<le> 0xFFFFFFFFFFFFFFFF
    \<and> (\<forall>i < length setup_gdt. gdt_present (setup_gdt ! i) \<longrightarrow>
         gdt_dpl (setup_gdt ! i) = int (ring_value (if i \<le> 2 then KERNEL_RING else USER_RING)))"
proof -
  have g: "setup_idt ! w = idt_gate w" if "w < 256" for w using that by (simp add: setup_idt_def)
  have f: "id_vector (idt_gate w) = int w" "id_selector (idt_gate w) = 8"
    "id_offset (idt_gate w) = 0xFFFF800000100000 + int w * 0x20"
    "id_dpl (idt_gate w) = (if w = 3 \<or> w = 0x80 then 3 else 0)" for w
    by (simp_all add: idt_gate_def Let_def exception_names_def split: prod.splits)
  have "\<forall>i \<in> set [0, 1, 2, 3, 4, 5]. gdt_present (setup_gdt ! i) \<longrightarrow>
      gdt_dpl (setup_gdt ! i) = int (ring_value (if i \<le> 2 then KERNEL_RING else USER_RING))"
    by (simp add: setup_gdt_def gdt_of_def gdt_present_def gdt_dpl_def KERNEL_RING_def USER_RING_def)
  moreover have "i \<in> set [0, 1, 2, 3, 4, 5]" if "i < 6" for i :: nat
    using that unfolding list.set insert_iff empty_iff by linarith
  ultimately have "\<forall>i < 6. gdt_present (setup_gdt ! i) \<longrightarrow>
      gdt_dpl (setup_gdt ! i) = int (ring_value (if i \<le> 2 then KERNEL_RING else USER_RING))" by blast
  moreover have "length setup_gdt = 6" by (simp add: setup_gdt_def)
  ultimately show ?thesis
    using assms by (simp add: g f USER_RING_def KERNEL_RING_def) (simp add: setup_idt_def)
qed

theorem user_callable_gates_witness: "id_dpl (setup_idt ! 14) = 0"
  using user_callable_gates [of 14] by (simp add: KERNEL_RING_def)

end
