(* ===== verification/Boot.thy ===== *)
theory Boot
  imports Syscalls Scheduling Kmalloc Devices Arch
begin

text \<open>
  \<^verbatim>\<open>boot.py\<close>: the boot pipeline, which takes the subsystems through eight stages, all at once or step
  by step. A stage that raises is recorded as failed with the exception; the time a stage takes is
  left out.
\<close>

section \<open>State\<close>

datatype boot_stage =
    FIRMWARE_HANDOFF | BOOTLOADER_HANDOFF | ARCH_EARLY_INIT | MEMORY_BRINGUP
  | INTERRUPT_TIMER_SETUP | SCHEDULER_START | VFS_DEVICE_INIT | USERSPACE_INIT

definition all_stages :: "boot_stage list" where
  "all_stages = [FIRMWARE_HANDOFF, BOOTLOADER_HANDOFF, ARCH_EARLY_INIT, MEMORY_BRINGUP,
     INTERRUPT_TIMER_SETUP, SCHEDULER_START, VFS_DEVICE_INIT, USERSPACE_INIT]"

text \<open>The message of a failed stage is the text of the exception, which stands for it here.\<close>

record boot_result =
  br_stage :: boot_stage
  br_success :: bool
  br_message :: "string result"

record boot_state =
  b_arch :: arch
  b_sys :: sys
  b_kmalloc :: kmalloc
  b_sched :: sched
  b_devices :: "drv_registry \<times> dev_registry"
  b_index :: nat
  b_results :: "boot_result list"
  b_booted :: bool

definition boot_new :: "int \<Rightarrow> boot_state" where
  "boot_new frames = \<lparr>b_arch = arch_new, b_sys = sys_init frames, b_kmalloc = kmalloc_init, b_sched = sched_new,
     b_devices = ([], []), b_index = 0, b_results = [], b_booted = False\<rparr>"

definition current_stage :: "boot_state \<Rightarrow> boot_stage option" where
  "current_stage s = (if b_index s < length all_stages then Some (all_stages ! b_index s) else None)"

section \<open>The stages\<close>

type_synonym stage_handler = "boot_state \<Rightarrow> string result \<times> boot_state"

definition stage_firmware_handoff :: stage_handler where
  "stage_firmware_handoff s = (Inr ''Firmware handoff simulated (no real hardware)'', s)"

definition stage_bootloader_handoff :: stage_handler where
  "stage_bootloader_handoff s = (Inr ''Bootloader handoff simulated'', s)"

definition stage_arch_early_init :: stage_handler where
  "stage_arch_early_init s =
     (let (features, a) = detect_cpu_features (b_arch s)
      in (Inr (''Arch init: '' @ py_str_int (cores features) @ '' cores, '' @ py_str_int (int (length setup_gdt))
                @ '' GDT entries, '' @ py_str_int (int (length setup_idt)) @ '' IDT vectors''), s\<lparr>b_arch := a\<rparr>))"

definition stage_memory_bringup :: stage_handler where
  "stage_memory_bringup s =
     (let s1 = s\<lparr>b_sys := (b_sys s)\<lparr>sys_vmm := create_address_space 0 (sys_vmm (b_sys s))\<rparr>\<rparr> in
      case km_alloc 512 (b_kmalloc s1) of
        (Inl e, k1) \<Rightarrow> (Inl e, s1\<lparr>b_kmalloc := k1\<rparr>)
      | (Inr addr1, k1) \<Rightarrow>
         (case km_alloc 256 k1 of
            (Inl e, k2) \<Rightarrow> (Inl e, s1\<lparr>b_kmalloc := k2\<rparr>)
          | (Inr addr2, k2) \<Rightarrow>
             (let st = stats (vmm_pmm (sys_vmm (b_sys s1)))
              in (Inr (''PMM: '' @ py_str_int (st_total_pages st) @ '' pages, '' @ py_str_int (st_free_pages st) @ '' free''),
                  s1\<lparr>b_kmalloc := km_free addr2 (km_free addr1 k2)\<rparr>))))"

definition stage_interrupt_timer_setup :: stage_handler where
  "stage_interrupt_timer_setup s = (Inr ''Timer/IRQ subsystem simulated (no real APIC)'', s)"

definition start_threads :: "sched \<Rightarrow> sched" where
  "start_threads s =
     (let s1 = sched_init s;
          (kworker, s2) = tt_spawn 0 ''kworker/0:0'' 10 True s1;
          (ksoftirqd, s3) = tt_spawn 0 ''ksoftirqd/0'' 10 True s2;
          (kswapd, s4) = tt_spawn 0 ''kswapd0'' 10 True s3
      in tick_n 5 (add_thread kswapd (add_thread ksoftirqd (add_thread kworker s4))))"

definition stage_scheduler_start :: stage_handler where
  "stage_scheduler_start s =
     (let t = start_threads (b_sched s)
      in (Inr (''Scheduler running, '' @ py_str_int (int (length (runqueue t))) @ '' threads in runqueue''), s\<lparr>b_sched := t\<rparr>))"

definition root_directories :: "string list" where
  "root_directories = [''dev'', ''proc'', ''sys'', ''tmp'', ''etc'', ''bin'', ''usr'', ''var'', ''home'']"

definition version_text :: string where
  "version_text = ''ComputeKERNEL-Edu v0.1.0 (educational simulator)'' @ [NL]"

definition hostname_text :: string where
  "hostname_text = ''computekernel-edu'' @ [NL]"

definition mount_rootfs :: "vfs \<Rightarrow> vfs" where
  "mount_rootfs v =
     (let (rootfs, v1) = vfs_new_fs (TmpFS tm_init) v;
          v2 = vfs_mount ''/'' rootfs ''tmpfs'' v1;
          v3 = fold (\<lambda>d v. snd (vfs_mkdir (''/'' @ d) v)) root_directories v2;
          v4 = snd (create_file ''/etc/version'' (py_encode version_text) v3)
      in snd (create_file ''/etc/hostname'' (py_encode hostname_text) v4))"

definition boot_devices :: "device list" where
  "boot_devices =
     [new_device ''console'' CHAR_DEV 5 1 ''System console'', new_device ''tty0'' CHAR_DEV 4 0 ''Virtual terminal 0'',
      new_device ''null'' CHAR_DEV 1 3 ''Null device'', new_device ''zero'' CHAR_DEV 1 5 ''Zero device'',
      new_device ''random'' CHAR_DEV 1 8 ''Random device'', new_device ''timer0'' TIMER 0 0 ''System timer'',
      new_device ''sda'' BLOCK_DEV 8 0 ''Simulated SATA disk'', new_device ''keyboard0'' INPUT 13 0 ''PS/2 keyboard'']"

definition boot_drivers :: "driver list" where
  "boot_drivers =
     [new_driver ''uart16550'' ''16550A UART serial driver'' [''console'', ''tty0''],
      new_driver ''mem_dev'' ''Memory character devices (null, zero, random)'' [''null'', ''zero'', ''random''],
      new_driver ''ahci'' ''AHCI SATA controller driver'' [''sda''],
      new_driver ''ps2kbd'' ''PS/2 keyboard driver'' [''keyboard0'']]"

definition start_devices :: "drv_registry \<times> dev_registry \<Rightarrow> drv_registry \<times> dev_registry" where
  "start_devices = (\<lambda>(drvs, devs). probe_all (fold drv_register boot_drivers drvs, fold dev_register boot_devices devs))"

definition stage_vfs_device_init :: stage_handler where
  "stage_vfs_device_init s =
     (let s1 = s\<lparr>b_sys := (b_sys s)\<lparr>sys_vfs := mount_rootfs (sys_vfs (b_sys s))\<rparr>, b_devices := start_devices (b_devices s)\<rparr>
      in (Inr (''tmpfs mounted, '' @ py_str_int (int (length boot_devices)) @ '' devices, drivers bound''), s1))"

definition stage_userspace_init :: stage_handler where
  "stage_userspace_init s =
     (let (pid, t) = pt_spawn ''init'' 0 0 0 (VStr ''/sbin/init'') (sys_pt (b_sys s));
          y = mod_proc pid (\<lambda>p. p\<lparr>p_cwd := ''/''\<rparr>) (mod_proc pid (\<lambda>p. p\<lparr>p_state := RUNNABLE\<rparr>) ((b_sys s)\<lparr>sys_pt := t\<rparr>));
          (r, q) = tt_spawn pid ''init'' 10 False (b_sched s);
          q1 = add_thread r q
      in (Inr (''init spawned as pid='' @ py_str_int pid @ '', runqueue='' @ py_str_int (ss_runqueue_length (sched_status q1)) @ '' threads''),
          s\<lparr>b_sys := y\<lparr>sys_vmm := create_address_space pid (sys_vmm y)\<rparr>, b_sched := q1\<rparr>))"

section \<open>The pipeline\<close>

fun stage_action :: "boot_stage \<Rightarrow> stage_handler" where
  "stage_action FIRMWARE_HANDOFF = stage_firmware_handoff"
| "stage_action BOOTLOADER_HANDOFF = stage_bootloader_handoff"
| "stage_action ARCH_EARLY_INIT = stage_arch_early_init"
| "stage_action MEMORY_BRINGUP = stage_memory_bringup"
| "stage_action INTERRUPT_TIMER_SETUP = stage_interrupt_timer_setup"
| "stage_action SCHEDULER_START = stage_scheduler_start"
| "stage_action VFS_DEVICE_INIT = stage_vfs_device_init"
| "stage_action USERSPACE_INIT = stage_userspace_init"

definition run_stage :: "boot_stage \<Rightarrow> boot_state \<Rightarrow> boot_result \<times> boot_state" where
  "run_stage stage s =
     (let (m, s1) = stage_action stage s
      in (\<lparr>br_stage = stage, br_success = (case m of Inr _ \<Rightarrow> True | Inl _ \<Rightarrow> False), br_message = m\<rparr>, s1))"

definition run_next :: "boot_state \<Rightarrow> boot_result \<times> boot_state" where
  "run_next s =
     (let stage = all_stages ! b_index s;
          (r, s1) = run_stage stage (s\<lparr>b_index := b_index s + 1\<rparr>)
      in (r, s1\<lparr>b_results := b_results s1 @ [r]\<rparr>))"

lemma stage_index: "b_index (snd (stage_action stage s)) = b_index s" "b_results (snd (stage_action stage s)) = b_results s"
  "b_booted (snd (stage_action stage s)) = b_booted s"
  by (cases stage; auto simp: stage_firmware_handoff_def stage_bootloader_handoff_def stage_arch_early_init_def
      stage_memory_bringup_def stage_interrupt_timer_setup_def stage_scheduler_start_def stage_vfs_device_init_def
      stage_userspace_init_def Let_def detect_cpu_features_def split: prod.splits sum.splits)+

lemma run_next_index: "b_index (snd (run_next s)) = b_index s + 1"
  by (simp add: run_next_def run_stage_def Let_def stage_index split: prod.splits) (metis boot_state.select_convs(6)
      boot_state.surjective boot_state.update_convs(6) snd_conv stage_index(1))

function run_loop :: "boot_state \<Rightarrow> bool \<times> boot_state" where
  "run_loop s =
     (if b_index s < length all_stages
      then (let (r, s1) = run_next s in if \<not> br_success r then (False, s1) else run_loop s1)
      else (True, s\<lparr>b_booted := True\<rparr>))"
  by auto
termination
proof (relation "measure (\<lambda>s. length all_stages - b_index s)")
  fix s x r s1
  assume "b_index s < length all_stages" "x = run_next s" "(r, s1) = x"
  then show "(s1, s) \<in> measure (\<lambda>s. length all_stages - b_index s)"
    using run_next_index [of s] by (simp flip: \<open>x = run_next s\<close>) (metis diff_less_mono2 lessI snd_conv)
qed simp

declare run_loop.simps [simp del]

definition run_all :: "boot_state \<Rightarrow> bool \<times> boot_state" where
  "run_all s = run_loop s"

definition boot_step :: "boot_state \<Rightarrow> boot_result option \<times> boot_state" where
  "boot_step s =
     (if length all_stages \<le> b_index s then (None, s)
      else (let (r, s1) = run_next s in (Some r, s1)))"

definition get_log :: "boot_state \<Rightarrow> boot_result list" where
  "get_log s = b_results s"

section \<open>Success of every stage\<close>

lemmas stage_action_defs = stage_firmware_handoff_def stage_bootloader_handoff_def stage_arch_early_init_def
  stage_memory_bringup_def stage_interrupt_timer_setup_def stage_scheduler_start_def stage_vfs_device_init_def stage_userspace_init_def

lemma stage_cases: "k < 8 \<Longrightarrow> k \<in> {0, Suc 0, 2, 3, 4, 5, 6, 7 :: nat}"
  by auto

lemma stage_succeeds: "\<exists>m. fst (stage_action stage s) = Inr m"
  by (cases stage) (auto simp: stage_firmware_handoff_def stage_bootloader_handoff_def stage_arch_early_init_def
      stage_memory_bringup_def stage_interrupt_timer_setup_def stage_scheduler_start_def stage_vfs_device_init_def
      stage_userspace_init_def Let_def km_alloc_def split: prod.splits)

lemma run_next_result:
  "br_success (fst (run_next s))" "br_stage (fst (run_next s)) = all_stages ! b_index s"
  "b_results (snd (run_next s)) = b_results s @ [fst (run_next s)]" "b_booted (snd (run_next s)) = b_booted s"
proof -
  define t where "t = s\<lparr>b_index := Suc (b_index s)\<rparr>"
  obtain m s1 where a: "stage_action (all_stages ! b_index s) t = (Inr m, s1)"
    using stage_succeeds [of "all_stages ! b_index s" t] by (metis prod.collapse)
  have "b_results s1 = b_results s" "b_booted s1 = b_booted s"
    using stage_index(2,3) [of "all_stages ! b_index s" t] a by (simp_all add: t_def)
  with a show "br_success (fst (run_next s))" "br_stage (fst (run_next s)) = all_stages ! b_index s"
    "b_results (snd (run_next s)) = b_results s @ [fst (run_next s)]" "b_booted (snd (run_next s)) = b_booted s"
    by (simp_all add: run_next_def run_stage_def Let_def flip: t_def)
qed

lemma run_all_step:
  "b_index s < length all_stages \<Longrightarrow> run_all s = run_all (snd (run_next s))"
  "length all_stages \<le> b_index s \<Longrightarrow> run_all s = (True, s\<lparr>b_booted := True\<rparr>)"
  using run_next_result(1) [of s] by (auto simp: run_all_def run_loop.simps [of s] Let_def split: prod.splits)

lemma length_all_stages [simp]: "length all_stages = 8"
  by (simp add: all_stages_def)

text \<open>A property of the state that every stage keeps holds after the boot.\<close>

lemma run_all_induct:
  assumes "P s" and "\<And>s. P s \<Longrightarrow> b_index s < 8 \<Longrightarrow> P (snd (run_next s))" and "\<And>s. P s \<Longrightarrow> P (s\<lparr>b_booted := True\<rparr>)"
  shows "P (snd (run_all s))"
  using assms(1)
proof (induction "8 - b_index s" arbitrary: s rule: less_induct)
  case less
  show ?case
  proof (cases "b_index s < 8")
    case True
    have "8 - b_index (snd (run_next s)) < 8 - b_index s" using True by (simp add: run_next_index)
    from less.hyps [OF this assms(2) [OF less.prems True]] True show ?thesis by (simp add: run_all_step(1))
  qed (use less.prems assms(3) run_all_step(2) in auto)
qed

lemma run_all_log:
  "fst (run_all s) \<and> b_booted (snd (run_all s)) \<and> (\<exists>rs. b_results (snd (run_all s)) = b_results s @ rs
     \<and> map br_stage rs = drop (b_index s) all_stages \<and> list_all br_success rs)
   \<and> (b_index s \<le> 8 \<longrightarrow> b_index (snd (run_all s)) = 8)"
proof (induction "8 - b_index s" arbitrary: s rule: less_induct)
  case less
  show ?case
  proof (cases "b_index s < 8")
    case True
    let ?s = "snd (run_next s)"
    have "8 - b_index ?s < 8 - b_index s" using True by (simp add: run_next_index)
    from less.hyps [OF this] obtain rs where rs: "b_results (snd (run_all ?s)) = b_results ?s @ rs"
      "map br_stage rs = drop (b_index ?s) all_stages" "list_all br_success rs"
      and ok: "fst (run_all ?s)" "b_booted (snd (run_all ?s))" "b_index (snd (run_all ?s)) = 8"
      using True by (auto simp: run_next_index)
    have "drop (b_index s) all_stages = all_stages ! b_index s # drop (b_index ?s) all_stages"
      using True by (simp add: Cons_nth_drop_Suc run_next_index)
    with rs ok True show ?thesis
      by (auto simp: run_all_step(1) run_next_result intro!: exI [of _ "fst (run_next s) # rs"])
  qed (use run_all_step(2) [of s] in auto)
qed

section \<open>Invariant\<close>

definition boot_inv :: "boot_state \<Rightarrow> bool" where
  "boot_inv s \<longleftrightarrow> sys_inv (b_sys s) \<and> km_inv (b_kmalloc s) \<and> sched_inv (b_sched s) \<and> devices_ok (b_devices s)
     \<and> b_index s \<le> 8 \<and> length (b_results s) = b_index s \<and> (b_index s \<le> 6 \<longrightarrow> b_devices s = ([], []))"

declare boot_inv_def [wf_defs]

lemma sched_inv_new [intro, simp]: "sched_inv sched_new"
  by (simp add: sched_inv_def sched_new_def live_def tt_inv_def ta_inv_def ta_init_def)

lemma sched_inv_init:
  assumes inv: "sched_inv s"
  shows "sched_inv (sched_init s)"
proof -
  define r where "r = length (tt_objs s)"
  define u where "u = snd (tt_spawn 0 ''[idle]'' 1 True s)"
  define f where "f = (\<lambda>t :: thread. t\<lparr>t_state := RUNNABLE\<rparr>)"
  define t where "t = tt_modify r f u"
  have i: "sched_inv u" unfolding u_def by (rule sched_inv_spawn [OF inv])
  have q: "runqueue u = runqueue s" "blocked u = blocked s" "current u = current s" "idle u = idle s" by (simp_all add: u_def)
  have "r \<notin> live s" using inv_live(2) [OF inv] unfolding r_def by blast
  then have out: "r \<notin> set (runqueue u)" "r \<notin> set (blocked u)" "current u \<noteq> Some r"
    using live_memI unfolding q by blast+
  have len: "r < length (tt_objs u)" and kr: "known u r" "0 < t_timeslice (obj u r)"
    by (simp_all add: u_def r_def known_def)
  have f: "keeps_thread f" by (simp add: f_def)
  note m = modify_keeps [OF f len, folded t_def]
  have o: "obj t x = obj u x" if "x \<noteq> r" for x unfolding t_def by (rule modify_fields(5) [OF that])
  have t: "runqueue t = runqueue u" "blocked t = blocked u" "current t = current u" by (simp_all add: t_def)
  have lv: "x = r \<or> x \<in> live u" if "x \<in> live (t\<lparr>idle := Some r\<rparr>)" for x using that t by (auto simp: live_def)
  have "known t x \<and> 0 < t_timeslice (obj t x)" if "x \<in> live (t\<lparr>idle := Some r\<rparr>)" for x
    using lv [OF that] kr inv_live(1,3) [OF i, of x] by (auto simp: m)
  moreover have "tt_inv t"
    using tt_inv_modify [OF _ f len] i unfolding t_def sched_inv_def by blast
  moreover have "obj t x = obj u x" if "x \<in> set (runqueue u) \<or> x \<in> set (blocked u) \<or> current u = Some x" for x
    using that out by (intro o) auto
  ultimately have "sched_inv (t\<lparr>idle := Some r\<rparr>)"
    using i out unfolding sched_inv_def by (simp add: t)
  then show ?thesis by (simp add: sched_init_def case_prod_beta t_def u_def r_def f_def)
qed

lemma add_thread_fresh:
  assumes inv: "sched_inv s" and r: "known s r" "0 < t_timeslice (obj s r)" "r \<notin> live s"
  shows "sched_inv (add_thread r s)" "live (add_thread r s) \<subseteq> insert r (live s)"
    "known (add_thread r s) x = known s x" "t_timeslice (obj (add_thread r s) x) = t_timeslice (obj s x)"
proof -
  have out: "r \<notin> set (blocked s)" "idle s \<noteq> Some r" "current s \<noteq> Some r" using r(3) live_memI by blast+
  then show "sched_inv (add_thread r s)" using sched_inv_add [OF inv r(1,2)] by blast
  have len: "r < length (tt_objs s)" using r(1) by (simp add: known_def)
  note m = modify_keeps [OF keeps_thread_upd(1) len, of RUNNABLE]
  show "known (add_thread r s) x = known s x" "t_timeslice (obj (add_thread r s) x) = t_timeslice (obj s x)"
    by (simp_all add: add_thread_def Let_def m)
  show "live (add_thread r s) \<subseteq> insert r (live s)"
    by (auto simp: add_thread_def Let_def live_def split: if_splits)
qed

lemma sched_inv_tick_n: "sched_inv s \<Longrightarrow> sched_inv (tick_n n s)"
proof -
  assume inv: "sched_inv s"
  have "sched_inv (((\<lambda>s. snd (tick s)) ^^ k) s)" for k
    using inv by (induction k) (auto intro: sched_inv_tick)
  then show ?thesis by (simp add: tick_n_def)
qed

lemma sched_inv_start_threads:
  assumes inv: "sched_inv s"
  shows "sched_inv (start_threads s)"
proof -
  define s1 where "s1 = sched_init s"
  define s2 where "s2 = snd (tt_spawn 0 ''kworker/0:0'' 10 True s1)"
  define s3 where "s3 = snd (tt_spawn 0 ''ksoftirqd/0'' 10 True s2)"
  define s4 where "s4 = snd (tt_spawn 0 ''kswapd0'' 10 True s3)"
  let ?a = "length (tt_objs s1)" and ?b = "length (tt_objs s2)" and ?c = "length (tt_objs s3)"
  have i1: "sched_inv s1" unfolding s1_def by (rule sched_inv_init [OF inv])
  have i2: "sched_inv s2" unfolding s2_def by (rule sched_inv_spawn [OF i1])
  have i3: "sched_inv s3" unfolding s3_def by (rule sched_inv_spawn [OF i2])
  have i4: "sched_inv s4" unfolding s4_def by (rule sched_inv_spawn [OF i3])
  have tt: "tt_inv s1" "tt_inv s2" "tt_inv s3" using i1 i2 i3 by (simp_all add: sched_inv_def)
  have a2: "known s2 ?a" "t_timeslice (obj s2 ?a) = 10" by (simp_all add: known_def s2_def)
  have b3: "known s3 ?b" "t_timeslice (obj s3 ?b) = 10" by (simp_all add: known_def s3_def)
  have c4: "known s4 ?c" "t_timeslice (obj s4 ?c) = 10" by (simp_all add: known_def s4_def)
  note k3 = spawn_known [OF tt(2), of _ 0 "''ksoftirqd/0''" 10 True, folded s3_def]
  note k4 = spawn_known [OF tt(3), of _ 0 "''kswapd0''" 10 True, folded s4_def]
  have kn: "known s4 ?a" "known s4 ?b" "known s4 ?c"
    using a2(1) b3(1) c4(1) k3(1) k4(1) by blast+
  have ts: "t_timeslice (obj s4 ?a) = 10" "t_timeslice (obj s4 ?b) = 10" "t_timeslice (obj s4 ?c) = 10"
    using a2 b3 c4 k3 k4 by simp_all
  have lv: "live s4 = live s1" by (simp add: live_def s4_def s3_def s2_def)
  have ne: "?a < ?b" "?b < ?c" by (simp_all add: s2_def s3_def)
  have out: "?a \<notin> live s4" "?b \<notin> live s4" "?c \<notin> live s4"
    using inv_live(2) [OF i1] ne unfolding lv by force+
  note f1 = add_thread_fresh [OF i4 kn(1) _ out(1)]
  have f1: "sched_inv (add_thread ?a s4)" "live (add_thread ?a s4) \<subseteq> insert ?a (live s4)"
    "known (add_thread ?a s4) x = known s4 x" "t_timeslice (obj (add_thread ?a s4) x) = t_timeslice (obj s4 x)" for x
    using f1 ts by auto
  have "?b \<notin> live (add_thread ?a s4)" using f1(2) out ne by auto
  from add_thread_fresh [OF f1(1) _ _ this] kn ts
  have f2: "sched_inv (add_thread ?b (add_thread ?a s4))" "live (add_thread ?b (add_thread ?a s4)) \<subseteq> insert ?b (live (add_thread ?a s4))"
    "known (add_thread ?b (add_thread ?a s4)) x = known s4 x"
    "t_timeslice (obj (add_thread ?b (add_thread ?a s4)) x) = t_timeslice (obj s4 x)" for x
    by (auto simp: f1(3,4))
  have "?c \<notin> live (add_thread ?b (add_thread ?a s4))"
  proof
    assume "?c \<in> live (add_thread ?b (add_thread ?a s4))"
    then have "?c \<in> insert ?b (insert ?a (live s4))" using f1(2) f2(2) by blast
    then show False using out(3) ne by simp
  qed
  from add_thread_fresh(1) [OF f2(1) _ _ this] kn ts
  have "sched_inv (add_thread ?c (add_thread ?b (add_thread ?a s4)))" by (simp add: f2(3,4))
  then show ?thesis
    by (simp add: start_threads_def case_prod_beta Let_def sched_inv_tick_n s1_def s2_def s3_def s4_def)
qed

lemma sys_inv_vfs_ops:
  "sys_inv s \<Longrightarrow> list_all (\<lambda>e. \<not> closes e) es \<Longrightarrow> sys_inv (s\<lparr>sys_vfs := fold vfs_step es (sys_vfs s)\<rparr>)"
proof (induction es arbitrary: s)
  case (Cons e es)
  have "sys_inv (sys_step (KVfs e) s)" using Cons.prems(1) by (rule sysm.inv_step)
  then have "sys_inv (s\<lparr>sys_vfs := vfs_step e (sys_vfs s)\<rparr>)" using Cons.prems(2) by simp
  from Cons.IH [OF this] Cons.prems(2) show ?case by simp
qed simp

definition rootfs_ops :: "nat \<Rightarrow> vfs_op list" where
  "rootfs_ops r = [VNewTmpfs, VMount ''/'' r ''tmpfs''] @ map (\<lambda>d. VMkdir (''/'' @ d)) root_directories
     @ [VCreate ''/etc/version'' (py_encode version_text), VCreate ''/etc/hostname'' (py_encode hostname_text)]"

lemma mount_rootfs_ops: "mount_rootfs v = fold vfs_step (rootfs_ops (length (vfs_stores v))) v"
  by (simp add: mount_rootfs_def rootfs_ops_def root_directories_def vfs_new_fs_def norm_path_def)

lemma sys_inv_rootfs: "sys_inv s \<Longrightarrow> sys_inv (s\<lparr>sys_vfs := mount_rootfs (sys_vfs s)\<rparr>)"
  unfolding mount_rootfs_ops by (rule sys_inv_vfs_ops) (auto simp: rootfs_ops_def root_directories_def)

lemma start_devices_ops:
  "start_devices ([], []) = fold dev_step (map DRegister boot_devices @ map DvRegister boot_drivers @ [DvProbeAll]) ([], [])"
proof -
  have devs: "fold dev_step (map DRegister ds) (drvs, devs) = (drvs, fold dev_register ds devs)"
    if "list_all (\<lambda>d. dv_bound d = []) ds" for ds drvs devs
    using that by (induction ds arbitrary: devs) auto
  have drvs: "fold dev_step (map DvRegister rs) (drvs, devs) = (fold drv_register rs drvs, devs)"
    if "list_all (\<lambda>r. dr_bound r = []) rs" "list_all (\<lambda>r. dr_name r \<noteq> []) rs" "list_all (\<lambda>d. dv_bound d = []) (map snd devs)"
    for rs drvs devs
    using that by (induction rs arbitrary: drvs) (auto simp: list_all_iff)
  have u: "list_all (\<lambda>d. dv_bound d = []) (map snd (fold dev_register ds devs))"
    if "list_all (\<lambda>d. dv_bound d = []) ds" "list_all (\<lambda>d. dv_bound d = []) (map snd devs)" for ds devs
    using that
  proof (induction ds arbitrary: devs)
    case (Cons d ds)
    have "list_all (\<lambda>d. dv_bound d = []) (map snd (AList.update (dv_name d) d devs))"
      using Cons.prems(2,1) by (induction devs) auto
    then have "list_all (\<lambda>d. dv_bound d = []) (map snd (dev_register d devs))"
      using Cons.prems(2) by (cases "map_of devs (dv_name d)") (simp_all add: dev_register_def)
    from Cons.IH [OF _ this] Cons.prems(1) show ?case by simp
  qed simp
  have b: "list_all (\<lambda>d. dv_bound d = []) boot_devices" "list_all (\<lambda>r. dr_bound r = []) boot_drivers"
    "list_all (\<lambda>r. dr_name r \<noteq> []) boot_drivers"
    by (simp_all add: boot_devices_def new_device_def boot_drivers_def new_driver_def)
  have u: "list_all (\<lambda>d. dv_bound d = []) (map snd (fold dev_register boot_devices []))"
    by (rule u [OF b(1)]) simp
  show ?thesis
    by (simp only: start_devices_def fold_append o_def case_prod_conv devs [OF b(1)] drvs [OF b(2,3) u] fold.simps id_def dev_step.simps)
qed

lemma devices_ok_start: "devices_ok (start_devices ([], []))"
  unfolding start_devices_ops by (rule devm.inv_run [OF devm.inv_init])

lemma sys_inv_userspace:
  assumes inv: "sys_inv s" and sp: "pt_spawn name ppid uid gid cmd (sys_pt s) = (pid, t)"
  shows "sys_inv (mod_proc pid (\<lambda>p. p\<lparr>p_cwd := d\<rparr>) (mod_proc pid (\<lambda>p. p\<lparr>p_state := st\<rparr>) (s\<lparr>sys_pt := t\<rparr>)))"
proof -
  have "sys_inv (sys_step (KSpawn name ppid uid gid cmd) s)" by (rule sysm.inv_step [OF inv])
  then have "sys_inv (s\<lparr>sys_pt := t\<rparr>)" by (simp add: sp)
  then show ?thesis by (intro inv_mod_proc) (auto simp: keeps_identity_def)
qed

lemma sys_inv_userspace_space:
  assumes inv: "sys_inv s" and sp: "pt_spawn name ppid uid gid cmd (sys_pt s) = (pid, t)"
    and u: "u = mod_proc pid (\<lambda>p. p\<lparr>p_cwd := d\<rparr>) (mod_proc pid (\<lambda>p. p\<lparr>p_state := st\<rparr>) (s\<lparr>sys_pt := t\<rparr>))"
  shows "sys_inv (u\<lparr>sys_vmm := create_address_space pid (sys_vmm u)\<rparr>)"
proof -
  have inv_u: "sys_inv u" unfolding u by (rule sys_inv_userspace [OF inv sp])
  show ?thesis by (rule inv_vmm [OF inv_u vmm_wf_create [OF sys_invD(3) [OF inv_u]]])
qed

lemma boot_inv_next:
  assumes inv: "boot_inv s" and idx: "b_index s < 8"
  shows "boot_inv (snd (run_next s))"
proof -
  define t where "t = s\<lparr>b_index := Suc (b_index s)\<rparr>"
  define st where "st = all_stages ! b_index s"
  have f: "b_sys t = b_sys s" "b_kmalloc t = b_kmalloc s" "b_sched t = b_sched s" "b_devices t = b_devices s"
    "b_index t = Suc (b_index s)" "b_results t = b_results s" by (simp_all add: t_def)
  note i = inv [unfolded boot_inv_def]
  have six: "b_index s = 6 \<longleftrightarrow> st = VFS_DEVICE_INIT"
  proof -
    have "b_index s \<in> {0, 1, 2, 3, 4, 5, 6, 7}" using idx by auto
    then show ?thesis unfolding st_def by (elim insertE emptyE) (simp_all add: all_stages_def)
  qed
  let ?s = "snd (stage_action st t)"
  have sys: "sys_inv (b_sys ?s)"
    using i by (cases st) (auto simp: f stage_firmware_handoff_def stage_bootloader_handoff_def stage_arch_early_init_def
        stage_memory_bringup_def stage_interrupt_timer_setup_def stage_scheduler_start_def stage_vfs_device_init_def
        stage_userspace_init_def Let_def inv_vmm sys_invD vmm_wf_create sys_inv_rootfs
        split: prod.splits sum.splits intro!: sys_inv_userspace_space [OF _ _ refl])
  have km: "km_inv (b_kmalloc ?s)"
    using i km_inv_alloc km_inv_free by (cases st; auto simp: f stage_firmware_handoff_def stage_bootloader_handoff_def
        stage_arch_early_init_def stage_memory_bringup_def stage_interrupt_timer_setup_def stage_scheduler_start_def
        stage_vfs_device_init_def stage_userspace_init_def Let_def split: prod.splits sum.splits; metis snd_conv)
  have sc: "sched_inv (b_sched ?s)"
    using i sched_inv_spawn_add [of "b_sched s" 10] by (cases st; auto simp: f stage_firmware_handoff_def stage_bootloader_handoff_def
        stage_arch_early_init_def stage_memory_bringup_def stage_interrupt_timer_setup_def stage_scheduler_start_def
        stage_vfs_device_init_def stage_userspace_init_def Let_def sched_inv_start_threads split: prod.splits sum.splits;
      metis fst_conv snd_conv tt_spawn_fields(1))
  have dv: "devices_ok (b_devices ?s) \<and> (b_index s < 6 \<longrightarrow> b_devices ?s = ([], []))"
    using i six devices_ok_start by (cases st) (auto simp: f stage_firmware_handoff_def stage_bootloader_handoff_def
        stage_arch_early_init_def stage_memory_bringup_def stage_interrupt_timer_setup_def stage_scheduler_start_def
        stage_vfs_device_init_def stage_userspace_init_def Let_def split: prod.splits sum.splits)
  have "snd (run_next s) = ?s\<lparr>b_results := b_results ?s @ [fst (run_next s)]\<rparr>"
    by (simp add: run_next_def run_stage_def Let_def t_def st_def split: prod.splits)
  then show ?thesis
    using sys km sc dv i idx stage_index(1,2) [of st t] by (simp add: boot_inv_def f)
qed

section \<open>Stage by stage\<close>

text \<open>What each stage changes, component by component.\<close>

lemma run_next_state:
  "snd (run_next s) = (let t = snd (stage_action (all_stages ! b_index s) (s\<lparr>b_index := Suc (b_index s)\<rparr>))
     in t\<lparr>b_results := b_results t @ [fst (run_next s)]\<rparr>)"
  by (simp add: run_next_def run_stage_def Let_def case_prod_beta)

lemma all_stages_nth: "all_stages ! 0 = FIRMWARE_HANDOFF" "all_stages ! Suc 0 = BOOTLOADER_HANDOFF"
  "all_stages ! 2 = ARCH_EARLY_INIT" "all_stages ! 3 = MEMORY_BRINGUP" "all_stages ! 4 = INTERRUPT_TIMER_SETUP"
  "all_stages ! 5 = SCHEDULER_START" "all_stages ! 6 = VFS_DEVICE_INIT" "all_stages ! 7 = USERSPACE_INIT"
  by (simp_all add: all_stages_def)

definition user_pid :: "boot_state \<Rightarrow> int" where
  "user_pid s = fst (pt_spawn ''init'' 0 0 0 (VStr ''/sbin/init'') (sys_pt (b_sys s)))"

lemma run_next_parts:
  assumes "b_index s < 8"
  shows "b_sched (snd (run_next s)) =
      (if b_index s = 5 then start_threads (b_sched s)
       else if b_index s = 7 then (let (r, q) = tt_spawn (user_pid s) ''init'' 10 False (b_sched s) in add_thread r q)
       else b_sched s)"
    and "b_devices (snd (run_next s)) = (if b_index s = 6 then start_devices (b_devices s) else b_devices s)"
    and "sys_vfs (b_sys (snd (run_next s))) = (if b_index s = 6 then mount_rootfs (sys_vfs (b_sys s)) else sys_vfs (b_sys s))"
    and "sys_vmm (b_sys (snd (run_next s))) =
      (if b_index s = 3 then create_address_space 0 (sys_vmm (b_sys s))
       else if b_index s = 7 then create_address_space (user_pid s) (sys_vmm (b_sys s)) else sys_vmm (b_sys s))"
    and "sys_pt (b_sys (snd (run_next s))) =
      (if b_index s = 7 then sys_pt (mod_proc (user_pid s) (\<lambda>p. p\<lparr>p_cwd := ''/''\<rparr>) (mod_proc (user_pid s) (\<lambda>p. p\<lparr>p_state := RUNNABLE\<rparr>)
          ((b_sys s)\<lparr>sys_pt := snd (pt_spawn ''init'' 0 0 0 (VStr ''/sbin/init'') (sys_pt (b_sys s)))\<rparr>)))
       else sys_pt (b_sys s))"
    and "b_kmalloc (snd (run_next s)) =
      (if b_index s = 3 then (let (r1, k1) = km_alloc 512 (b_kmalloc s); (r2, k2) = km_alloc 256 k1
         in km_free (projr r2) (km_free (projr r1) k2)) else b_kmalloc s)"
  using stage_cases [OF assms]
  by (elim insertE emptyE; simp add: run_next_state all_stages_nth Let_def case_prod_beta user_pid_def mod_proc_def km_alloc_def
      stage_action_defs; fail)+

lemma run_all_iterates: "8 - b_index s \<le> k \<Longrightarrow> run_all s = (True, (((\<lambda>s. snd (boot_step s)) ^^ k) s)\<lparr>b_booted := True\<rparr>)"
proof (induction k arbitrary: s)
  case 0
  then show ?case by (simp add: run_all_step(2))
next
  case (Suc k)
  let ?s = "snd (boot_step s)"
  have "run_all s = run_all ?s" "8 - b_index ?s \<le> k"
    using Suc.prems by (auto simp: boot_step_def case_prod_beta run_all_step run_next_index)
  then show ?case using Suc.IH [of ?s] by (simp add: funpow_Suc_right del: funpow.simps)
qed

lemma boot_step_booted: "b_booted (snd (boot_step s)) = b_booted s"
  using run_next_result(4) [of s] by (simp add: boot_step_def case_prod_beta)

text \<open>C10: Booting always succeeds and always ends. From any point of the pipeline, run_all returns True,
  having run exactly the stages that were left, in their order, each with success and each with
  one entry of the log.\<close>
theorem boot_always_succeeds:
  "let t = snd (run_all s) in fst (run_all s) \<and> b_booted t \<and> b_index t = max 8 (b_index s)
     \<and> (\<exists>rs. get_log t = get_log s @ rs \<and> map br_stage rs = drop (b_index s) all_stages \<and> list_all br_success rs)"
proof -
  have "b_index (snd (run_all s)) = b_index s" if "8 \<le> b_index s" using that by (simp add: run_all_step(2))
  then show ?thesis using run_all_log [of s] by (cases "b_index s \<le> 8") (auto simp: Let_def get_log_def max_def)
qed

text \<open>C12: Stepping through the boot reaches the state that booting at once reaches, from any point of the
  pipeline, except for the booted flag, which only run_all sets.\<close>
theorem stepping_equals_booting:
  "run_all s = (True, (((\<lambda>s. snd (boot_step s)) ^^ 8) s)\<lparr>b_booted := True\<rparr>)
   \<and> b_booted (((\<lambda>s. snd (boot_step s)) ^^ k) s) = b_booted s"
proof
  show "run_all s = (True, (((\<lambda>s. snd (boot_step s)) ^^ 8) s)\<lparr>b_booted := True\<rparr>)" by (rule run_all_iterates) simp
  show "b_booted (((\<lambda>s. snd (boot_step s)) ^^ k) s) = b_booted s"
    by (induction k) (simp_all add: boot_step_booted)
qed

end
