(* ===== verification/Booted.thy ===== *)
theory Booted
  imports Boot
begin

text \<open>
  The state a boot leaves (\<^verbatim>\<open>boot.py\<close>): the started scheduler, the root file system and the other
  components are evaluated once each, and the boot of a new kernel is shown to arrive at them.
\<close>

section \<open>The scheduler after its stage\<close>

lemmas sched_eval = sched_init_def sched_new_def tt_spawn_def tt_modify_def ta_alloc_def ta_init_def new_thread_def
  new_context_def add_thread_def obj_in_def

lemma tick_running:
  assumes "runqueue s = h # q" "current s = Some h" "h < length (tt_objs s)" "1 < t_remaining (obj s h)"
  shows "tick s = (Some h, s\<lparr>tick_count := tick_count s + 1, tt_objs := (tt_objs s)[h := (obj s h)\<lparr>t_remaining := t_remaining (obj s h) - 1\<rparr>]\<rparr>)"
  using assms by (simp add: tick_def Let_def obj_in_def tt_modify_def)

lemma tick_first:
  assumes "runqueue s = h # q" "current s = None" "h < length (tt_objs s)" "1 < t_timeslice (obj s h)"
  shows "tick s = (Some h, s\<lparr>tick_count := tick_count s + 1, current := Some h,
    tt_objs := (tt_objs s)[h := (obj s h)\<lparr>t_state := RUNNING, t_remaining := t_timeslice (obj s h) - 1\<rparr>]\<rparr>)"
  using assms by (simp add: tick_def Let_def dispatch_thread_def tt_modify_def)

lemma tick5: "tick_n 5 s = snd (tick (snd (tick (snd (tick (snd (tick (snd (tick s)))))))))" by (simp add: tick_n_def eval_nat_numeral)

lemma start_threads_value:
  defines "t k n r st tsl \<equiv> (new_thread k 0 n tsl True)\<lparr>t_state := st, t_remaining := r\<rparr>"
  shows "start_threads sched_new = sched_new\<lparr>
    tt_objs := [t 1 ''[idle]'' 1 RUNNABLE 1, t 2 ''kworker/0:0'' 5 RUNNING 10, t 3 ''ksoftirqd/0'' 10 RUNNABLE 10, t 4 ''kswapd0'' 10 RUNNABLE 10],
    tt_threads := [(1, 0), (2, 1), (3, 2), (4, 3)], tt_alloc := \<lparr>next_tid = 5, free_tids = []\<rparr>,
    runqueue := [1, 2, 3], current := Some 1, idle := Some 0, tick_count := 5\<rparr>"
proof -
  define u where "u = add_thread 3 (add_thread 2 (add_thread 1 (snd (tt_spawn 0 ''kswapd0'' 10 True (snd (tt_spawn 0 ''ksoftirqd/0'' 10 True
    (snd (tt_spawn 0 ''kworker/0:0'' 10 True (sched_init sched_new)))))))))"
  have r: "length (tt_objs (sched_init sched_new)) = 1" by (simp add: sched_eval)
  have "start_threads sched_new = tick_n 5 u"
    by (simp add: start_threads_def Let_def case_prod_beta r u_def numeral_3_eq_3 numeral_2_eq_2)
  moreover have "u = sched_new\<lparr>
    tt_objs := [t 1 ''[idle]'' 1 RUNNABLE 1, t 2 ''kworker/0:0'' 10 RUNNABLE 10, t 3 ''ksoftirqd/0'' 10 RUNNABLE 10, t 4 ''kswapd0'' 10 RUNNABLE 10],
    tt_threads := [(1, 0), (2, 1), (3, 2), (4, 3)], tt_alloc := \<lparr>next_tid = 5, free_tids = []\<rparr>,
    runqueue := [1, 2, 3], idle := Some 0\<rparr>"
    by (simp add: u_def t_def sched_eval Let_def numeral_2_eq_2 numeral_3_eq_3 del: tt_spawn_fields)
  ultimately show ?thesis
    by (simp add: tick5 tick_first tick_running sched_new_def t_def new_thread_def)
qed

section \<open>The root file system\<close>

lemma root_paths: "\<forall>d \<in> set root_directories. parent_path (''/'' @ d) = ''/'' \<and> base_name (''/'' @ d) = d" by code_simp
lemma root_resolves: "vfs_mounts v = [\<lparr>mp_path = ''/'', mp_fs = 0, mp_source = src\<rparr>] \<Longrightarrow> vfs_stores v = [TmpFS t] \<Longrightarrow> resolve_path ''/'' v = (Some 0, 1)"
  by (simp add: resolve_path_def mp_matches_def tm_root_ino_def)
lemma mkdir_root:
  assumes "vfs_mounts v = [\<lparr>mp_path = ''/'', mp_fs = 0, mp_source = src\<rparr>]" "vfs_stores v = [TmpFS t]"
    "map_of (tm_inodes t) 1 = Some i" "i_itype i = DIR" "map_of (i_children i) d = None" "d \<in> set root_directories"
  shows "snd (vfs_mkdir (''/'' @ d) v) = v\<lparr>vfs_stores := [TmpFS (snd (tm_create 1 d DIR t))]\<rparr>"
proof -
  show ?thesis using assms(1-6) root_paths root_resolves [OF assms(1,2)] by (auto simp add: vfs_mkdir_def tm_mkdir_def tm_create_def Let_def case_prod_beta set_store_def simp del: append.simps)
qed
lemma mkdirs_root:
  assumes "vfs_mounts v = [\<lparr>mp_path = ''/'', mp_fs = 0, mp_source = src\<rparr>]" "vfs_stores v = [TmpFS t]"
    "map_of (tm_inodes t) 1 = Some i" "i_itype i = DIR" "\<forall>d \<in> set ds. map_of (i_children i) d = None" "set ds \<subseteq> set root_directories" "distinct ds" "1 < tm_next_ino t"
  shows "fold (\<lambda>d v. snd (vfs_mkdir (''/'' @ d) v)) ds v = v\<lparr>vfs_stores := [TmpFS (fold (\<lambda>d t. snd (tm_create 1 d DIR t)) ds t)]\<rparr>"
  using assms
proof (induction ds arbitrary: v t i)
  case (Cons d ds)
  have s: "snd (vfs_mkdir (''/'' @ d) v) = v\<lparr>vfs_stores := [TmpFS (snd (tm_create 1 d DIR t))]\<rparr>"
    by (rule mkdir_root) (use Cons.prems in auto)
  have ch: "map_of (tm_inodes (snd (tm_create 1 d DIR t))) 1 = Some (i\<lparr>i_children := AList.update d (tm_next_ino t) (i_children i)\<rparr>)"
    "tm_next_ino (snd (tm_create 1 d DIR t)) = tm_next_ino t + 1"
    using Cons.prems by (simp_all add: tm_create_def tm_new_inode_def Let_def link_child_def new_inode_def case_prod_beta)
  have "fold (\<lambda>d v. snd (vfs_mkdir (''/'' @ d) v)) ds (v\<lparr>vfs_stores := [TmpFS (snd (tm_create 1 d DIR t))]\<rparr>)
     = v\<lparr>vfs_stores := [TmpFS (snd (tm_create 1 d DIR t))]\<rparr>\<lparr>vfs_stores := [TmpFS (fold (\<lambda>d t. snd (tm_create 1 d DIR t)) ds (snd (tm_create 1 d DIR t)))]\<rparr>"
    by (rule Cons.IH [OF _ _ ch(1)]) (use Cons.prems ch in auto)
  with s show ?case by (simp del: append.simps)
qed simp

lemma dirs_value: "tm_inodes (fold (\<lambda>d t. snd (tm_create 1 d DIR t)) root_directories tm_init)
   = (1, (new_inode 1 DIR 493)\<lparr>i_children := zip root_directories [2..10]\<rparr>) # map (\<lambda>k. (k, new_inode k DIR 420)) [2..10]"
  "tm_next_ino (fold (\<lambda>d t. snd (tm_create 1 d DIR t)) root_directories tm_init) = 11"
  by (simp_all add: root_directories_def tm_init_eq tm_create_def tm_new_inode_def link_child_def Let_def new_inode_def dict_modify_def upto_rec1)

lemma mkdirs_value:
  "\<exists>v. fold (\<lambda>d v. snd (vfs_mkdir (''/'' @ d) v)) root_directories
      (vfs_mount ''/'' 0 ''tmpfs'' (snd (vfs_new_fs (TmpFS tm_init) vfs_init))) = v
   \<and> vfs_mounts v = [\<lparr>mp_path = ''/'', mp_fs = 0, mp_source = ''tmpfs''\<rparr>] \<and> vfs_next_fd v = 3 \<and> vfs_open_files v = []
   \<and> vfs_stores v = [TmpFS \<lparr>tm_inodes = (1, (new_inode 1 DIR 493)\<lparr>i_children := zip root_directories [2..10]\<rparr>) # map (\<lambda>k. (k, new_inode k DIR 420)) [2..10], tm_next_ino = 11\<rparr>]"
proof -
  let ?v = "vfs_mount ''/'' 0 ''tmpfs'' (snd (vfs_new_fs (TmpFS tm_init) vfs_init))"
  have m: "vfs_mounts ?v = [\<lparr>mp_path = ''/'', mp_fs = 0, mp_source = ''tmpfs''\<rparr>]" "vfs_stores ?v = [TmpFS tm_init]" "vfs_next_fd ?v = 3" "vfs_open_files ?v = []"
    by (simp_all add: vfs_mount_def vfs_new_fs_def vfs_init_def)
  have f: "fold (\<lambda>d v. snd (vfs_mkdir (''/'' @ d) v)) root_directories ?v = ?v\<lparr>vfs_stores := [TmpFS (fold (\<lambda>d t. snd (tm_create 1 d DIR t)) root_directories tm_init)]\<rparr>"
    by (rule mkdirs_root [OF m(1,2), of "new_inode 1 DIR 493"]) (simp_all add: tm_init_eq new_inode_def root_directories_def)
  then show ?thesis unfolding f using dirs_value m(1,3,4) by (auto intro!: tmpfs.equality)
qed

lemma hostname_paths: "parent_path ''/etc/version'' = ''/etc''" "base_name ''/etc/version'' = ''version''"
  "parent_path ''/etc/hostname'' = ''/etc''" "base_name ''/etc/hostname'' = ''hostname''"
  "path_parts ''etc'' = [''etc'']" "path_parts ''etc/hostname'' = [''etc'', ''hostname'']"
  by (simp_all add: parent_path_def base_name_def py_rstrip_def path_parts_def Let_def)

lemma rootfs_content:
  "map fst (vfs_readdir ''/'' (mount_rootfs vfs_init)) = [''.'', ''..''] @ root_directories"
  "read_path ''/etc/hostname'' 4096 (mount_rootfs vfs_init) = Some (py_encode hostname_text)"
proof -
  obtain v where v: "fold (\<lambda>d v. snd (vfs_mkdir (''/'' @ d) v)) root_directories
      (vfs_mount ''/'' 0 ''tmpfs'' (snd (vfs_new_fs (TmpFS tm_init) vfs_init))) = v"
    "vfs_mounts v = [\<lparr>mp_path = ''/'', mp_fs = 0, mp_source = ''tmpfs''\<rparr>]" "vfs_next_fd v = 3" "vfs_open_files v = []"
    "vfs_stores v = [TmpFS \<lparr>tm_inodes = (1, (new_inode 1 DIR 493)\<lparr>i_children := zip root_directories [2..10]\<rparr>) # map (\<lambda>k. (k, new_inode k DIR 420)) [2..10], tm_next_ino = 11\<rparr>]"
    using mkdirs_value by blast
  have mr: "mount_rootfs vfs_init = snd (create_file ''/etc/hostname'' (py_encode hostname_text) (snd (create_file ''/etc/version'' (py_encode version_text) v)))"
    using v(1) by (simp add: mount_rootfs_def vfs_new_fs_def vfs_init_def Let_def)
  have ne: "py_encode hostname_text \<noteq> []" "py_encode version_text \<noteq> []" "length (py_encode hostname_text) \<le> 4096"
    by code_simp+
  define h where "h = py_encode hostname_text"
  define w where "w = py_encode version_text"
  have dirs: "zip root_directories [2..10] = [(''dev'', 2), (''proc'', 3), (''sys'', 4), (''tmp'', 5), (''etc'', 6), (''bin'', 7), (''usr'', 8), (''var'', 9), (''home'', 10)]"
    by (simp add: root_directories_def upto_rec1)
  have data: "splice 0 bs [] = bs" "length h \<le> 4096 \<Longrightarrow> py_slice h 0 4096 = h" for bs
    by (simp_all add: splice_def Let_def slice_to_nonneg slice_from_nonneg py_slice_nonneg [of 0 4096, simplified])
  note defs = create_file_def hostname_paths resolve_path_def mp_matches_def py_rstrip_def tm_root_ino_def
      tm_lookup_name_def tm_lookup_def tm_create_def tm_write_def tm_new_inode_def link_child_def Let_def new_inode_def dict_modify_def
      set_store_def upto_rec1 read_path_def vfs_readdir_def tm_readdir_def tm_read_def data
  show "map fst (vfs_readdir ''/'' (mount_rootfs vfs_init)) = [''.'', ''..''] @ root_directories"
    unfolding mr using ne v(2-) dirs by (simp add: defs flip: h_def w_def) (simp add: root_directories_def)
  show "read_path ''/etc/hostname'' 4096 (mount_rootfs vfs_init) = Some (py_encode hostname_text)"
    unfolding mr using ne v(2-) dirs by (simp add: defs flip: h_def w_def)
qed

section \<open>The boot as a whole\<close>

lemma booted_parts:
  defines "t n \<equiv> snd (run_all (boot_new n))"
  shows "b_sched (t n) = (let (r, q) = tt_spawn 2 ''init'' 10 False (start_threads sched_new) in add_thread r q)"
    "b_devices (t n) = start_devices ([], [])"
    "sys_vfs (b_sys (t n)) = mount_rootfs vfs_init"
    "sys_vmm (b_sys (t n)) = create_address_space 2 (create_address_space 0 (vmm_init (pmm_init n)))"
    "sys_pt (b_sys (t n)) = pt_modify 2 (\<lambda>p. p\<lparr>p_cwd := ''/''\<rparr>) (pt_modify 2 (\<lambda>p. p\<lparr>p_state := RUNNABLE\<rparr>)
        (snd (pt_spawn ''init'' 0 0 0 (VStr ''/sbin/init'') pt_init)))"
    "b_kmalloc (t n) = (let (r1, k1) = km_alloc 512 kmalloc_init; (r2, k2) = km_alloc 256 k1 in km_free (projr r2) (km_free (projr r1) k2))"
proof -
  have start: "b_index (boot_new n) = 0" "b_sched (boot_new n) = sched_new" "b_devices (boot_new n) = ([], [])"
    "b_kmalloc (boot_new n) = kmalloc_init" "b_sys (boot_new n) = sys_init n"
    by (simp_all add: boot_new_def)
  have init: "sys_pt (sys_init n) = pt_init" "sys_vfs (sys_init n) = vfs_init" "sys_vmm (sys_init n) = vmm_init (pmm_init n)"
    by (simp_all add: sys_init_def)
  have pid: "fst (pa_alloc (pt_alloc pt_init)) = 2" by code_simp
  have t: "t n = (snd (run_next (snd (run_next (snd (run_next (snd (run_next (snd (run_next (snd (run_next
      (snd (run_next (snd (run_next (boot_new n)))))))))))))))))\<lparr>b_booted := True\<rparr>"
    by (simp add: t_def run_all_step run_next_index start)
  note r = t run_next_parts run_next_index start init user_pid_def pid mod_proc_def
  show "b_devices (t n) = start_devices ([], [])" by (simp add: r)
  show "sys_vfs (b_sys (t n)) = mount_rootfs vfs_init" by (simp add: r)
  show "b_sched (t n) = (let (r, q) = tt_spawn 2 ''init'' 10 False (start_threads sched_new) in add_thread r q)"
    by (simp add: r)
  show "sys_vmm (b_sys (t n)) = create_address_space 2 (create_address_space 0 (vmm_init (pmm_init n)))"
    by (simp add: r)
  show "sys_pt (b_sys (t n)) = pt_modify 2 (\<lambda>p. p\<lparr>p_cwd := ''/''\<rparr>) (pt_modify 2 (\<lambda>p. p\<lparr>p_state := RUNNABLE\<rparr>)
        (snd (pt_spawn ''init'' 0 0 0 (VStr ''/sbin/init'') pt_init)))"
    by (simp add: r)
  show "b_kmalloc (t n) = (let (r1, k1) = km_alloc 512 kmalloc_init; (r2, k2) = km_alloc 256 k1 in km_free (projr r2) (km_free (projr r1) k2))"
    by (simp add: r)
qed


text \<open>C11: What a boot leaves, whatever the number of frames: the three kernel threads and init are queued in this order with
  the first one running and five ticks counted; init is the process 2, runnable, in "/"; the two address
  spaces hold the default areas and no frame is taken; the kernel heap is empty again; every device but
  the timer is bound to its driver; and the root file system has its nine directories and the hostname.\<close>
theorem boot_leaves_running_system:
  "let s = snd (run_all (boot_new n)); q = b_sched s; y = b_sys s in
     map (\<lambda>r. t_name (obj q r)) (runqueue q) = [''kworker/0:0'', ''ksoftirqd/0'', ''kswapd0'', ''init'']
     \<and> map_option (\<lambda>r. t_name (obj q r)) (current q) = Some ''kworker/0:0'' \<and> tick_count q = 5
     \<and> map_option (\<lambda>p. (p_name p, p_ppid p, p_state p, p_cwd p)) (pt_get 2 (sys_pt y)) = Some (''init'', 0, RUNNABLE, ''/'')
     \<and> address_spaces (sys_vmm y) = [(0, default_space 0), (2, default_space 2)] \<and> vmm_pmm (sys_vmm y) = pmm_init n
     \<and> allocations (b_kmalloc s) = []
     \<and> map (\<lambda>d. (dv_name d, dv_bound d)) (dev_list_all (snd (b_devices s))) =
         [(''console'', ''uart16550''), (''tty0'', ''uart16550''), (''null'', ''mem_dev''), (''zero'', ''mem_dev''),
          (''random'', ''mem_dev''), (''timer0'', []), (''sda'', ''ahci''), (''keyboard0'', ''ps2kbd'')]
     \<and> map fst (vfs_readdir ''/'' (sys_vfs y)) = [''.'', ''..''] @ root_directories
     \<and> read_path ''/etc/hostname'' 4096 (sys_vfs y) = Some (py_encode hostname_text)"
proof -
  have q: "(let q = (let (r, q) = tt_spawn 2 ''init'' 10 False (start_threads sched_new) in add_thread r q) in
      map (\<lambda>r. t_name (obj q r)) (runqueue q) = [''kworker/0:0'', ''ksoftirqd/0'', ''kswapd0'', ''init'']
      \<and> map_option (\<lambda>r. t_name (obj q r)) (current q) = Some ''kworker/0:0'' \<and> tick_count q = 5)"
    unfolding start_threads_value by (simp add: sched_eval Let_def del: tt_spawn_fields)
  have p: "map_option (\<lambda>p. (p_name p, p_ppid p, p_state p, p_cwd p)) (pt_get 2
      (pt_modify 2 (\<lambda>p. p\<lparr>p_cwd := ''/''\<rparr>) (pt_modify 2 (\<lambda>p. p\<lparr>p_state := RUNNABLE\<rparr>)
        (snd (pt_spawn ''init'' 0 0 0 (VStr ''/sbin/init'') pt_init))))) = Some (''init'', 0, RUNNABLE, ''/'')"
    by code_simp
  have d: "map (\<lambda>d. (dv_name d, dv_bound d)) (dev_list_all (snd (start_devices ([], [])))) =
         [(''console'', ''uart16550''), (''tty0'', ''uart16550''), (''null'', ''mem_dev''), (''zero'', ''mem_dev''),
          (''random'', ''mem_dev''), (''timer0'', []), (''sda'', ''ahci''), (''keyboard0'', ''ps2kbd'')]"
    by code_simp
  have m: "address_spaces (create_address_space 2 (create_address_space 0 (vmm_init (pmm_init n)))) = [(0, default_space 0), (2, default_space 2)]"
    "vmm_pmm (create_address_space 2 (create_address_space 0 (vmm_init (pmm_init n)))) = pmm_init n"
    by (simp_all add: create_address_space_def vmm_init_def)
  have k: "allocations (let (r1, k1) = km_alloc 512 kmalloc_init; (r2, k2) = km_alloc 256 k1
      in km_free (projr r2) (km_free (projr r1) k2)) = []"
    by (simp add: km_alloc_def km_free_def kmalloc_init_def Let_def)
  show ?thesis
    unfolding Let_def booted_parts
    using q p d rootfs_content m k unfolding Let_def by (intro conjI) blast+
qed

lemma boot_inv_new: "boot_inv (boot_new n)"
  using km_inv_init devm.inv_init by (auto simp: boot_inv_def boot_new_def)

lemma boot_inv_step: "boot_inv s \<Longrightarrow> boot_inv (snd (boot_step s))"
  using boot_inv_next [of s] by (simp add: boot_step_def case_prod_beta)

lemma boot_inv_all: "boot_inv s \<Longrightarrow> boot_inv (snd (run_all s))"
  by (rule run_all_induct [where P = boot_inv]) (auto simp: boot_inv_next, simp add: boot_inv_def)

text \<open>Every component invariant holds at every moment of the boot of a new kernel, however far it has been
  stepped, and after booting it at once: processes and descriptors, frames and address spaces, the file
  systems, the kernel heap, the scheduler's queues and the device bindings.\<close>
theorem boot_keeps_invariants:
  "boot_inv (((\<lambda>s. snd (boot_step s)) ^^ k) (boot_new n)) \<and> boot_inv (snd (run_all (boot_new n)))"
  using boot_inv_all [OF boot_inv_new] by (induction k) (simp_all add: boot_inv_new boot_inv_step)

end
