(* ===== verification/Profiles.thy ===== *)
theory Profiles
  imports Prelude
begin

text \<open>
  \<^verbatim>\<open>profiles.py\<close> and \<^verbatim>\<open>safe_mode.py\<close>: the three boot profiles and the restrictions of safe mode.
\<close>

section \<open>Boot profiles\<close>

record profile =
  pr_name :: string
  pr_description :: string
  pr_serial_log :: bool
  pr_debug_symbols :: bool
  pr_modules_enabled :: bool
  pr_non_essential_drivers :: bool
  pr_kmalloc_debug :: bool
  pr_scheduler_debug :: bool
  pr_mm_debug :: bool
  pr_max_log_level :: int
  pr_panic_on_oops :: bool
  pr_nx_enforcement :: bool
  pr_aslr :: bool
  pr_smep :: bool
  pr_smap :: bool

definition DEBUG_PROFILE :: profile where
  "DEBUG_PROFILE = \<lparr>pr_name = ''debug'',
     pr_description = ''Full debug build: verbose logging, all drivers, all modules, extra checks.'',
     pr_serial_log = True, pr_debug_symbols = True, pr_modules_enabled = True, pr_non_essential_drivers = True,
     pr_kmalloc_debug = True, pr_scheduler_debug = True, pr_mm_debug = True, pr_max_log_level = 0,
     pr_panic_on_oops = False, pr_nx_enforcement = True, pr_aslr = False, pr_smep = True, pr_smap = True\<rparr>"

definition RELEASE_PROFILE :: profile where
  "RELEASE_PROFILE = \<lparr>pr_name = ''release'',
     pr_description = ''Release build: minimal logging, optimized, ASLR enabled.'',
     pr_serial_log = False, pr_debug_symbols = False, pr_modules_enabled = True, pr_non_essential_drivers = True,
     pr_kmalloc_debug = False, pr_scheduler_debug = False, pr_mm_debug = False, pr_max_log_level = 1,
     pr_panic_on_oops = True, pr_nx_enforcement = True, pr_aslr = True, pr_smep = True, pr_smap = True\<rparr>"

definition SAFE_MODE_PROFILE :: profile where
  "SAFE_MODE_PROFILE = \<lparr>pr_name = ''safe_mode'',
     pr_description = ''Safe/recovery mode: minimal drivers, no modules, verbose logging.'',
     pr_serial_log = True, pr_debug_symbols = True, pr_modules_enabled = False, pr_non_essential_drivers = False,
     pr_kmalloc_debug = True, pr_scheduler_debug = False, pr_mm_debug = False, pr_max_log_level = 0,
     pr_panic_on_oops = False, pr_nx_enforcement = True, pr_aslr = False, pr_smep = True, pr_smap = False\<rparr>"

lemmas profile_defs = DEBUG_PROFILE_def RELEASE_PROFILE_def SAFE_MODE_PROFILE_def

definition PROFILES :: "(string, profile) dict" where
  "PROFILES = [(''debug'', DEBUG_PROFILE), (''release'', RELEASE_PROFILE), (''safe_mode'', SAFE_MODE_PROFILE)]"

section \<open>Safe mode\<close>

definition sm_active :: "profile \<Rightarrow> bool" where
  "sm_active p \<longleftrightarrow> pr_name p = ''safe_mode''"

definition check_module_load :: "profile \<Rightarrow> string \<Rightarrow> bool" where
  "check_module_load p module_name = (if sm_active p \<and> \<not> pr_modules_enabled p then False else True)"

definition check_driver_load :: "profile \<Rightarrow> string \<Rightarrow> bool \<Rightarrow> bool" where
  "check_driver_load p driver_name is_essential =
     (if sm_active p \<and> \<not> pr_non_essential_drivers p \<and> \<not> is_essential then False else True)"

record safe_mode_report =
  sr_active :: bool
  sr_profile :: string
  sr_modules_enabled :: bool
  sr_non_essential_drivers :: bool
  sr_description :: string

definition sm_report :: "profile \<Rightarrow> safe_mode_report" where
  "sm_report p = \<lparr>sr_active = sm_active p, sr_profile = pr_name p, sr_modules_enabled = pr_modules_enabled p,
     sr_non_essential_drivers = pr_non_essential_drivers p, sr_description = pr_description p\<rparr>"

section \<open>Properties\<close>

text \<open>Every shipped profile is filed under its own name, and of the three exactly safe mode refuses
  modules and non-essential drivers; essential drivers are never refused.\<close>
theorem safe_mode_restricts:
  assumes "map_of PROFILES key = Some p"
  shows "pr_name p = key \<and> (sm_active p \<longleftrightarrow> key = ''safe_mode'')
    \<and> (check_module_load p m \<longleftrightarrow> pr_modules_enabled p) \<and> (check_module_load p m \<longleftrightarrow> \<not> sm_active p)
    \<and> (check_driver_load p d essential \<longleftrightarrow> essential \<or> \<not> sm_active p)"
  using assms
  by (auto simp: PROFILES_def profile_defs sm_active_def check_module_load_def check_driver_load_def split: if_splits)

theorem safe_mode_restricts_witness: "\<not> check_module_load SAFE_MODE_PROFILE ''ext2''"
  using safe_mode_restricts [of "''safe_mode''" SAFE_MODE_PROFILE "''ext2''"]
  by (simp add: PROFILES_def SAFE_MODE_PROFILE_def)

end
