(* ===== verification/Module_Loader.thy ===== *)
theory Module_Loader
  imports Profiles Interfaces
begin

text \<open>
  \<^verbatim>\<open>module_loader.py\<close>: loadable modules with dependencies and exported symbols. Module objects are
  kept by value in the pool of available modules, by whose keys every operation finds them.
\<close>

section \<open>State and operations\<close>

record kmodule =
  m_name :: string
  m_version :: string
  m_description :: string
  m_deps :: "string list"
  m_exports :: "string list"
  m_loaded :: bool
  m_params :: "(string, string) dict"

record module_loader =
  ml_profile :: profile
  ml_available :: "(string, kmodule) dict"
  ml_symbols :: "(string, string) dict"

definition ml_new :: "profile \<Rightarrow> module_loader" where
  "ml_new p = \<lparr>ml_profile = p, ml_available = [], ml_symbols = []\<rparr>"

definition ml_register :: "kmodule \<Rightarrow> module_loader \<Rightarrow> module_loader" where
  "ml_register m l = l\<lparr>ml_available := AList.update (m_name m) m (ml_available l)\<rparr>"

definition ml_is_loaded :: "string \<Rightarrow> module_loader \<Rightarrow> bool" where
  "ml_is_loaded n l = (case map_of (ml_available l) n of None \<Rightarrow> False | Some m \<Rightarrow> m_loaded m)"

definition ml_load :: "string \<Rightarrow> module_loader \<Rightarrow> bool \<times> module_loader" where
  "ml_load name l =
     (if \<not> pr_modules_enabled (ml_profile l) then (False, l)
      else (case map_of (ml_available l) name of
         None \<Rightarrow> (False, l)
       | Some m \<Rightarrow>
           if m_loaded m then (True, l)
           else if \<not> list_all (\<lambda>dep. ml_is_loaded dep l) (m_deps m) then (False, l)
           else (True, l\<lparr>ml_available := dict_modify name (\<lambda>m. m\<lparr>m_loaded := True\<rparr>) (ml_available l),
                          ml_symbols := fold (\<lambda>s. AList.update s name) (m_exports m) (ml_symbols l)\<rparr>)))"

definition ml_unload :: "string \<Rightarrow> module_loader \<Rightarrow> bool \<times> module_loader" where
  "ml_unload name l =
     (case map_of (ml_available l) name of
        None \<Rightarrow> (False, l)
      | Some m \<Rightarrow>
          if \<not> m_loaded m then (False, l)
          else if list_ex (\<lambda>other. m_loaded other \<and> name \<in> set (m_deps other)) (map snd (ml_available l)) then (False, l)
          else (True, l\<lparr>ml_symbols := fold AList.delete (m_exports m) (ml_symbols l),
                         ml_available := dict_modify name (\<lambda>m. m\<lparr>m_loaded := False\<rparr>) (ml_available l)\<rparr>))"

definition list_loaded :: "module_loader \<Rightarrow> kmodule list" where
  "list_loaded l = filter m_loaded (map snd (ml_available l))"

definition list_available :: "module_loader \<Rightarrow> kmodule list" where
  "list_available l = map snd (ml_available l)"

definition lookup_symbol :: "string \<Rightarrow> module_loader \<Rightarrow> string option" where
  "lookup_symbol symbol l = map_of (ml_symbols l) symbol"

definition symbol_table :: "module_loader \<Rightarrow> (string, string) dict" where
  "symbol_table l = ml_symbols l"

definition new_module :: "string \<Rightarrow> string \<Rightarrow> string list \<Rightarrow> string list \<Rightarrow> kmodule" where
  "new_module name description deps exports = \<lparr>m_name = name, m_version = ''1.0'', m_description = description,
     m_deps = deps, m_exports = exports, m_loaded = False, m_params = []\<rparr>"

definition default_modules :: "kmodule list" where
  "default_modules =
     [new_module ''ext2'' ''Ext2 filesystem driver'' [] [''ext2_fill_super'', ''ext2_write_inode''],
      new_module ''tmpfs'' ''Tmpfs in-memory filesystem'' [] [''tmpfs_fill_super''],
      new_module ''ata'' ''ATA/ATAPI disk driver'' [] [''ata_probe'', ''ata_read''],
      new_module ''virtio_blk'' ''VirtIO block device driver'' [] [''virtio_blk_probe''],
      new_module ''keyboard'' ''PS/2 keyboard driver'' [] [''kbd_irq_handler''],
      new_module ''serial'' ''16550 UART serial driver'' [] [''serial_init'', ''serial_write'']]"

section \<open>Invariant\<close>

text \<open>The dependencies and exports of the module filed under a name.\<close>

definition deps_of :: "module_loader \<Rightarrow> string \<Rightarrow> string set" where
  "deps_of l n = (case map_of (ml_available l) n of None \<Rightarrow> {} | Some m \<Rightarrow> set (m_deps m))"

definition exports_of :: "module_loader \<Rightarrow> string \<Rightarrow> string set" where
  "exports_of l n = (case map_of (ml_available l) n of None \<Rightarrow> {} | Some m \<Rightarrow> set (m_exports m))"

text \<open>Names, the newest first, each of which depends only on later ones.\<close>

fun load_order :: "(string \<Rightarrow> string set) \<Rightarrow> string list \<Rightarrow> bool" where
  "load_order d [] = True"
| "load_order d (n # ns) \<longleftrightarrow> n \<notin> set ns \<and> d n \<subseteq> set ns \<and> load_order d ns"

definition modules_ok :: "module_loader \<Rightarrow> bool" where
  "modules_ok l \<longleftrightarrow> dict_ok (ml_available l) \<and> dict_ok (ml_symbols l)
     \<and> (\<forall>n m. map_of (ml_available l) n = Some m \<longrightarrow> m_name m = n)
     \<and> (\<forall>n k. n \<noteq> k \<longrightarrow> exports_of l n \<inter> exports_of l k = {})
     \<and> (\<forall>s n. map_of (ml_symbols l) s = Some n \<longleftrightarrow> ml_is_loaded n l \<and> s \<in> exports_of l n)
     \<and> (\<exists>ns. load_order (deps_of l) ns \<and> (\<forall>n. n \<in> set ns \<longleftrightarrow> ml_is_loaded n l))
     \<and> (\<not> pr_modules_enabled (ml_profile l) \<longrightarrow> (\<forall>n. \<not> ml_is_loaded n l))"

declare modules_ok_def [wf_defs]

lemma load_order_remove:
  "load_order d ns \<Longrightarrow> \<forall>m \<in> set ns. n \<notin> d m \<Longrightarrow> load_order d (removeAll n ns)"
  by (induction ns) auto

lemma load_order_cong: "(\<And>n. n \<in> set ns \<Longrightarrow> d n = e n) \<Longrightarrow> load_order d ns = load_order e ns"
  by (induction ns) auto

lemma load_order_closed: "load_order d ns \<Longrightarrow> n \<in> set ns \<Longrightarrow> d n \<subseteq> set ns"
  by (induction ns) auto

lemma load_order_distinct: "load_order d ns \<Longrightarrow> distinct ns"
  by (induction ns) auto

lemma map_of_fold_update:
  "map_of (fold (\<lambda>s. AList.update s v) ss d) k = (if k \<in> set ss then Some v else map_of d k)"
  by (induction ss arbitrary: d) auto

lemma map_of_fold_delete:
  "map_of (fold AList.delete ss d) k = (if k \<in> set ss then None else map_of d k)"
  by (induction ss arbitrary: d) auto

lemma dict_ok_fold:
  "dict_ok d \<Longrightarrow> dict_ok (fold (\<lambda>s. AList.update s v) ss d)"
  "dict_ok d \<Longrightarrow> dict_ok (fold AList.delete ss d)"
  by (induction ss arbitrary: d) auto

lemma set_loaded_fields:
  "ml_is_loaded k (l\<lparr>ml_available := dict_modify n (\<lambda>m. m\<lparr>m_loaded := b\<rparr>) (ml_available l), ml_symbols := s\<rparr>)
     = (if k = n \<and> map_of (ml_available l) n \<noteq> None then b else ml_is_loaded k l)"
  "deps_of (l\<lparr>ml_available := dict_modify n (\<lambda>m. m\<lparr>m_loaded := b\<rparr>) (ml_available l), ml_symbols := s\<rparr>) = deps_of l"
  "exports_of (l\<lparr>ml_available := dict_modify n (\<lambda>m. m\<lparr>m_loaded := b\<rparr>) (ml_available l), ml_symbols := s\<rparr>) = exports_of l"
  by (auto simp: ml_is_loaded_def deps_of_def exports_of_def fun_eq_iff split: option.splits)

lemma ml_load_cases:
  "(ml_load name l = (False, l) \<and> \<not> (pr_modules_enabled (ml_profile l) \<and> map_of (ml_available l) name \<noteq> None
        \<and> (ml_is_loaded name l \<or> (\<forall>dep \<in> deps_of l name. ml_is_loaded dep l))))
   \<or> (ml_load name l = (True, l) \<and> pr_modules_enabled (ml_profile l) \<and> ml_is_loaded name l)
   \<or> (\<exists>m. map_of (ml_available l) name = Some m \<and> \<not> ml_is_loaded name l \<and> pr_modules_enabled (ml_profile l)
        \<and> (\<forall>dep \<in> deps_of l name. ml_is_loaded dep l)
        \<and> ml_load name l = (True, l\<lparr>ml_available := dict_modify name (\<lambda>m. m\<lparr>m_loaded := True\<rparr>) (ml_available l),
             ml_symbols := fold (\<lambda>s. AList.update s name) (m_exports m) (ml_symbols l)\<rparr>))"
  by (auto simp: ml_load_def ml_is_loaded_def deps_of_def list_all_iff split: option.splits)

lemma ml_unload_cases:
  assumes "dict_ok (ml_available l)"
  shows "(ml_unload name l = (False, l) \<and> \<not> (ml_is_loaded name l \<and> (\<forall>k. ml_is_loaded k l \<longrightarrow> name \<notin> deps_of l k)))
   \<or> (\<exists>m. map_of (ml_available l) name = Some m \<and> ml_is_loaded name l \<and> (\<forall>k. ml_is_loaded k l \<longrightarrow> name \<notin> deps_of l k)
        \<and> ml_unload name l = (True, l\<lparr>ml_available := dict_modify name (\<lambda>m. m\<lparr>m_loaded := False\<rparr>) (ml_available l),
             ml_symbols := fold AList.delete (m_exports m) (ml_symbols l)\<rparr>))"
proof -
  have ex: "list_ex (\<lambda>other. m_loaded other \<and> name \<in> set (m_deps other)) (map snd (ml_available l))
      \<longleftrightarrow> (\<exists>k. ml_is_loaded k l \<and> name \<in> deps_of l k)"
    unfolding dict_values_ex [OF assms]
    by (auto simp: ml_is_loaded_def deps_of_def split: option.splits)
  show ?thesis
    unfolding ml_unload_def ex by (auto simp: ml_is_loaded_def split: option.splits)
qed

lemma modules_ok_load:
  assumes ok: "modules_ok l"
  shows "modules_ok (snd (ml_load name l))"
  using ml_load_cases [of name l]
proof (elim disjE exE conjE)
  fix m
  assume m: "map_of (ml_available l) name = Some m" and new: "\<not> ml_is_loaded name l"
    and en: "pr_modules_enabled (ml_profile l)" and deps: "\<forall>dep \<in> deps_of l name. ml_is_loaded dep l"
    and r: "ml_load name l = (True, l\<lparr>ml_available := dict_modify name (\<lambda>m. m\<lparr>m_loaded := True\<rparr>) (ml_available l),
             ml_symbols := fold (\<lambda>s. AList.update s name) (m_exports m) (ml_symbols l)\<rparr>)" (is "_ = (True, ?l)")
  note ok' = ok [unfolded modules_ok_def]
  have ex: "exports_of l name = set (m_exports m)" using m by (simp add: exports_of_def)
  obtain ns where ns: "load_order (deps_of l) ns" "\<forall>n. n \<in> set ns \<longleftrightarrow> ml_is_loaded n l" using ok' by blast
  have "load_order (deps_of l) (name # ns)" using ns deps new by auto
  moreover have "\<forall>n. n \<in> set (name # ns) \<longleftrightarrow> ml_is_loaded n ?l" using ns(2) m by (simp add: set_loaded_fields)
  ultimately have ord: "\<exists>ns. load_order (deps_of ?l) ns \<and> (\<forall>n. n \<in> set ns \<longleftrightarrow> ml_is_loaded n ?l)"
    unfolding set_loaded_fields(2) by blast
  have sym: "map_of (ml_symbols ?l) s = Some n \<longleftrightarrow> ml_is_loaded n ?l \<and> s \<in> exports_of ?l n" for s n
  proof (cases "s \<in> set (m_exports m)")
    case True
    then have "s \<in> exports_of l n \<longleftrightarrow> n = name" using ok' ex by blast
    then show ?thesis using True m by (auto simp: set_loaded_fields map_of_fold_update)
  next
    case False
    then show ?thesis using ok' ex new by (auto simp: set_loaded_fields map_of_fold_update)
  qed
  have "modules_ok ?l"
    unfolding modules_ok_def
    using ord sym ok' en by (auto simp: set_loaded_fields dict_ok_fold)
  with r show ?thesis by simp
qed (use ok in auto)

lemma modules_ok_unload:
  assumes ok: "modules_ok l"
  shows "modules_ok (snd (ml_unload name l))"
proof -
  note ok' = ok [unfolded modules_ok_def]
  have "dict_ok (ml_available l)" using ok' by blast
  from ml_unload_cases [OF this, of name] show ?thesis
  proof (elim disjE exE conjE)
    fix m
    assume m: "map_of (ml_available l) name = Some m" and ld: "ml_is_loaded name l"
      and free: "\<forall>k. ml_is_loaded k l \<longrightarrow> name \<notin> deps_of l k"
      and r: "ml_unload name l = (True, l\<lparr>ml_available := dict_modify name (\<lambda>m. m\<lparr>m_loaded := False\<rparr>) (ml_available l),
               ml_symbols := fold AList.delete (m_exports m) (ml_symbols l)\<rparr>)" (is "_ = (True, ?l)")
    have ex: "exports_of l name = set (m_exports m)" using m by (simp add: exports_of_def)
    obtain ns where ns: "load_order (deps_of l) ns" "\<forall>n. n \<in> set ns \<longleftrightarrow> ml_is_loaded n l" using ok' by blast
    have "load_order (deps_of l) (removeAll name ns)" using ns free by (intro load_order_remove) auto
    moreover have "\<forall>n. n \<in> set (removeAll name ns) \<longleftrightarrow> ml_is_loaded n ?l" using ns(2) m by (auto simp: set_loaded_fields)
    ultimately have ord: "\<exists>ns. load_order (deps_of ?l) ns \<and> (\<forall>n. n \<in> set ns \<longleftrightarrow> ml_is_loaded n ?l)"
      unfolding set_loaded_fields(2) by blast
    have sym: "map_of (ml_symbols ?l) s = Some n \<longleftrightarrow> ml_is_loaded n ?l \<and> s \<in> exports_of ?l n" for s n
    proof (cases "s \<in> set (m_exports m)")
      case True
      then have "s \<in> exports_of l n \<longleftrightarrow> n = name" using ok' ex by blast
      then show ?thesis using True m by (auto simp: set_loaded_fields map_of_fold_delete)
    next
      case False
      then show ?thesis using ok' ex by (auto simp: set_loaded_fields map_of_fold_delete)
    qed
    have "modules_ok ?l"
      unfolding modules_ok_def
      using ord sym ok' ld by (auto simp: set_loaded_fields dict_ok_fold)
    with r show ?thesis by simp
  qed (use ok in auto)
qed

section \<open>Operation sequences\<close>

text \<open>
  \<open>register\<close> accepts every module. The properties below hold for clients that register modules as they are
  constructed, not loaded, not over a loaded one, and exporting no symbol of another; what goes wrong otherwise
  is shown by \<open>shared_export_lost\<close>.
\<close>

definition may_register :: "kmodule \<Rightarrow> module_loader \<Rightarrow> bool" where
  "may_register m l \<longleftrightarrow> \<not> m_loaded m \<and> \<not> ml_is_loaded (m_name m) l
     \<and> list_all (\<lambda>k. m_name k = m_name m \<or> set (m_exports k) \<inter> set (m_exports m) = {}) (map snd (ml_available l))"

datatype ml_op = MRegister kmodule | MLoad string | MUnload string

fun ml_call :: "ml_op \<Rightarrow> module_loader \<Rightarrow> module_loader" where
  "ml_call (MRegister m) l = ml_register m l"
| "ml_call (MLoad n) l = snd (ml_load n l)"
| "ml_call (MUnload n) l = snd (ml_unload n l)"

fun may_call :: "ml_op \<Rightarrow> module_loader \<Rightarrow> bool" where
  "may_call (MRegister m) l = may_register m l"
| "may_call e l = True"

text \<open>The machine of such clients: a registration that is not allowed is not made.\<close>

definition ml_step :: "ml_op \<Rightarrow> module_loader \<Rightarrow> module_loader" where
  "ml_step e l = (if may_call e l then ml_call e l else l)"

lemma modules_ok_register:
  assumes ok: "modules_ok l" and may: "may_register m l"
  shows "modules_ok (ml_register m l)"
proof -
  let ?l = "ml_register m l"
  note ok' = ok [unfolded modules_ok_def]
  have ld: "ml_is_loaded n ?l = ml_is_loaded n l" for n
    using may by (simp add: ml_register_def ml_is_loaded_def may_register_def)
  have other: "deps_of ?l n = deps_of l n" "exports_of ?l n = exports_of l n" if "n \<noteq> m_name m" for n
    using that by (simp_all add: deps_of_def exports_of_def ml_register_def)
  have own: "exports_of ?l (m_name m) = set (m_exports m)" by (simp add: exports_of_def ml_register_def)
  have apart: "set (m_exports m) \<inter> exports_of l n = {}" if n: "n \<noteq> m_name m" for n
  proof (cases "map_of (ml_available l) n")
    case (Some k)
    then have "m_name k = n" using ok' by blast
    moreover have "m_name k = m_name m \<or> set (m_exports k) \<inter> set (m_exports m) = {}"
      using may Some unfolding may_register_def dict_values_all [OF ok' [THEN conjunct1]] by blast
    ultimately show ?thesis using n Some by (auto simp: exports_of_def)
  qed (simp add: exports_of_def)
  obtain ns where ns: "load_order (deps_of l) ns" "\<forall>n. n \<in> set ns \<longleftrightarrow> ml_is_loaded n l" using ok' by blast
  have "m_name m \<notin> set ns" using ns(2) may by (simp add: may_register_def)
  then have "load_order (deps_of ?l) ns" using ns(1) other(1) load_order_cong [of ns "deps_of ?l" "deps_of l"] by metis
  with ns(2) ld have ord: "\<exists>ns. load_order (deps_of ?l) ns \<and> (\<forall>n. n \<in> set ns \<longleftrightarrow> ml_is_loaded n ?l)" by auto
  have disj: "exports_of ?l n \<inter> exports_of ?l k = {}" if "n \<noteq> k" for n k
    using that ok' apart [of n] apart [of k] other(2) [of n] other(2) [of k] own
    by (cases "n = m_name m"; cases "k = m_name m") (auto simp: Int_commute)
  have sym: "map_of (ml_symbols ?l) s = Some n \<longleftrightarrow> ml_is_loaded n ?l \<and> s \<in> exports_of ?l n" for s n
    using ok' ld [of n] other(2) [of n] may
    by (cases "n = m_name m") (auto simp: ml_register_def may_register_def)
  show ?thesis
    unfolding modules_ok_def using ord disj sym ok' ld by (auto simp: ml_register_def)
qed

interpretation mlm: machine "ml_new p" ml_step modules_ok
proof unfold_locales
  show "modules_ok (ml_new p)"
    by (auto simp: modules_ok_def ml_new_def exports_of_def ml_is_loaded_def intro: exI [of _ "[]"])
  show "modules_ok (ml_step e l)" if "modules_ok l" for e l
    using that by (cases e) (simp_all add: ml_step_def modules_ok_register modules_ok_load modules_ok_unload)
qed

lemma guarded_reaches: "guarded may_call ml_call es l \<Longrightarrow> reaches ml_step l (fold ml_call es l)"
proof -
  assume "guarded may_call ml_call es l"
  then have "fold ml_call es l = fold ml_step es l" by (induction es arbitrary: l) (simp_all add: ml_step_def)
  then show ?thesis by (simp add: reaches_fold)
qed

lemma ml_profile_reaches: "reaches ml_step l k \<Longrightarrow> ml_profile k = ml_profile l"
proof (induction rule: reaches.induct)
  case (reaches_step s t e)
  then show ?case
    by (cases e) (auto simp: ml_step_def ml_register_def ml_load_def ml_unload_def split: option.splits)
qed simp

section \<open>Properties\<close>

text \<open>When two modules export the same symbol, unloading one takes it away from the other, which stays loaded.\<close>
theorem shared_export_lost:
  "let l = fold ml_call [MRegister (new_module ''a'' [] [] [''f'']), MRegister (new_module ''b'' [] [] [''f'']),
        MLoad ''a'', MLoad ''b'', MUnload ''a''] (ml_new DEBUG_PROFILE)
   in ml_is_loaded ''b'' l \<and> ''f'' \<in> exports_of l ''b'' \<and> lookup_symbol ''f'' l = None"
  by code_simp

text \<open>C22: After any sequence of registering, loading and unloading in which each module is registered not yet loaded,
  not over a loaded one, and sharing no export with another registered module, the loaded modules have all
  their dependencies loaded, each symbol resolves to the one loaded module that exports it and symbols of
  modules that are not loaded do not resolve; under a profile without modules nothing is ever loaded.\<close>
theorem module_table_consistent:
  assumes "guarded may_call ml_call es (ml_new p)" and "fold ml_call es (ml_new p) = l"
  shows "(\<forall>n. ml_is_loaded n l \<longrightarrow> (\<forall>dep \<in> deps_of l n. ml_is_loaded dep l))
    \<and> (\<forall>s n. lookup_symbol s l = Some n \<longleftrightarrow> ml_is_loaded n l \<and> s \<in> exports_of l n)
    \<and> (\<forall>m \<in> set (list_loaded l). pr_modules_enabled (ml_profile l) \<and> ml_is_loaded (m_name m) l)
    \<and> ml_profile l = p"
proof -
  have r: "reaches ml_step (ml_new p) l" using guarded_reaches [OF assms(1)] assms(2) by simp
  note ok = mlm.inv_reachable [OF r, unfolded modules_ok_def]
  have p: "ml_profile l = p" using ml_profile_reaches [OF r] by (simp add: ml_new_def)
  have "\<forall>dep \<in> deps_of l n. ml_is_loaded dep l" if "ml_is_loaded n l" for n
    using ok that load_order_closed by blast
  moreover have "pr_modules_enabled (ml_profile l) \<and> ml_is_loaded (m_name m) l" if mem: "m \<in> set (list_loaded l)" for m
  proof -
    have "m \<in> set (map snd (ml_available l))" "m_loaded m" using mem by (simp_all add: list_loaded_def)
    then obtain n where "map_of (ml_available l) n = Some m" "m_loaded m"
      unfolding dict_value_iff [OF ok [THEN conjunct1]] by blast
    moreover from this have "m_name m = n" using ok by blast
    ultimately have "ml_is_loaded (m_name m) l" by (simp add: ml_is_loaded_def)
    with ok show ?thesis by blast
  qed
  ultimately show ?thesis using ok p by (simp add: lookup_symbol_def)
qed

definition sample_calls_ml :: "ml_op list" where
  "sample_calls_ml = map MRegister default_modules @ [MRegister (new_module ''raid'' [] [''ata''] [''raid_probe'']),
     MLoad ''ata'', MLoad ''raid'']"

definition sample_loader :: module_loader where
  "sample_loader = fold ml_call sample_calls_ml (ml_new DEBUG_PROFILE)"

lemma sample_guarded: "guarded may_call ml_call sample_calls_ml (ml_new DEBUG_PROFILE)"
  by code_simp

lemma reaches_sample: "reaches ml_step (ml_new DEBUG_PROFILE) sample_loader"
  unfolding sample_loader_def by (rule guarded_reaches [OF sample_guarded])

theorem module_table_consistent_witness: "lookup_symbol ''ata_read'' sample_loader = Some ''ata''"
proof -
  have "ml_is_loaded ''ata'' sample_loader" by code_simp
  moreover have "''ata_read'' \<in> exports_of sample_loader ''ata''" by code_simp
  ultimately show ?thesis using module_table_consistent [OF sample_guarded sample_loader_def [symmetric]] by blast
qed

text \<open>C23: Loading succeeds exactly when modules are enabled, the module is known, and it is already loaded or
  all its dependencies are; a failure changes nothing, a success loads that module and no other. A
  module just loaded can be unloaded at once, which brings back the modules and symbols from before.\<close>
theorem load_then_unload:
  assumes ok: "modules_ok l" and r: "ml_load name l = (b, l1)"
  shows "(b \<longleftrightarrow> pr_modules_enabled (ml_profile l) \<and> map_of (ml_available l) name \<noteq> None
        \<and> (ml_is_loaded name l \<or> (\<forall>dep \<in> deps_of l name. ml_is_loaded dep l)))
    \<and> (\<not> b \<longrightarrow> l1 = l) \<and> (b \<longrightarrow> (\<forall>n. ml_is_loaded n l1 \<longleftrightarrow> n = name \<or> ml_is_loaded n l))
    \<and> (b \<and> \<not> ml_is_loaded name l \<longrightarrow> (\<exists>l2. ml_unload name l1 = (True, l2)
         \<and> (\<forall>n. map_of (ml_available l2) n = map_of (ml_available l) n) \<and> (\<forall>s. lookup_symbol s l2 = lookup_symbol s l)))"
  using ml_load_cases [of name l]
proof (elim disjE exE conjE)
  fix m
  assume m: "map_of (ml_available l) name = Some m" and new: "\<not> ml_is_loaded name l"
    and en: "pr_modules_enabled (ml_profile l)" and deps: "\<forall>dep \<in> deps_of l name. ml_is_loaded dep l"
    and e: "ml_load name l = (True, l\<lparr>ml_available := dict_modify name (\<lambda>m. m\<lparr>m_loaded := True\<rparr>) (ml_available l),
             ml_symbols := fold (\<lambda>s. AList.update s name) (m_exports m) (ml_symbols l)\<rparr>)"
  have l1: "l1 = l\<lparr>ml_available := dict_modify name (\<lambda>m. m\<lparr>m_loaded := True\<rparr>) (ml_available l),
             ml_symbols := fold (\<lambda>s. AList.update s name) (m_exports m) (ml_symbols l)\<rparr>" "b"
    using r e by simp_all
  note ok' = ok [unfolded modules_ok_def]
  have ok1: "modules_ok l1" using modules_ok_load [OF ok, of name] r by simp
  have m1: "map_of (ml_available l1) name = Some (m\<lparr>m_loaded := True\<rparr>)" using m by (simp add: l1)
  have ld: "ml_is_loaded n l1 \<longleftrightarrow> n = name \<or> ml_is_loaded n l" for n using m by (simp add: l1 set_loaded_fields)
  have unl: "\<not> m_loaded m" using new m by (simp add: ml_is_loaded_def)
  have free: "name \<notin> deps_of l1 k" if "ml_is_loaded k l1" for k
  proof
    assume "name \<in> deps_of l1 k"
    then have d: "name \<in> deps_of l k" unfolding l1(1) set_loaded_fields(2) .
    obtain ns where ns: "load_order (deps_of l) ns" "\<forall>n. n \<in> set ns \<longleftrightarrow> ml_is_loaded n l" using ok' by blast
    have "k = name \<or> ml_is_loaded k l" using that ld by blast
    then show False using d deps new ns load_order_closed by blast
  qed
  have "dict_ok (ml_available l1)" using ok1 by (simp add: modules_ok_def)
  from ml_unload_cases [OF this, of name] free ld m1
  have u: "ml_unload name l1 = (True, l1\<lparr>ml_available := dict_modify name (\<lambda>m. m\<lparr>m_loaded := False\<rparr>) (ml_available l1),
             ml_symbols := fold AList.delete (m_exports m) (ml_symbols l1)\<rparr>)" (is "_ = (True, ?l2)") by auto
  have "m\<lparr>m_loaded := False\<rparr> = m" using unl by simp
  then have "map_of (ml_available ?l2) n = map_of (ml_available l) n" for n using m by (simp add: l1)
  moreover have "lookup_symbol s ?l2 = lookup_symbol s l" for s
  proof (cases "s \<in> set (m_exports m)")
    case True
    then have "map_of (ml_symbols l) s = None"
      using ok' new m by (metis exports_of_def disjoint_iff not_Some_eq option.simps(5))
    with True show ?thesis by (simp add: lookup_symbol_def map_of_fold_delete)
  next
    case False
    then show ?thesis by (simp add: lookup_symbol_def map_of_fold_delete map_of_fold_update l1)
  qed
  ultimately show ?thesis using u l1(2) m en deps ld new by blast
qed (use r in \<open>auto simp: ml_is_loaded_def split: option.splits\<close>)

theorem load_then_unload_witness:
  "\<exists>l1 l2. ml_load ''ext2'' sample_loader = (True, l1) \<and> ml_unload ''ext2'' l1 = (True, l2)
     \<and> lookup_symbol ''ext2_fill_super'' l2 = None"
proof -
  have ok: "modules_ok sample_loader" by (rule mlm.inv_reachable [OF reaches_sample])
  have c: "fst (ml_load ''ext2'' sample_loader)" "\<not> ml_is_loaded ''ext2'' sample_loader"
    "lookup_symbol ''ext2_fill_super'' sample_loader = None" by code_simp+
  obtain l1 where "ml_load ''ext2'' sample_loader = (True, l1)" using c(1) by (metis prod.collapse)
  moreover from load_then_unload [OF ok this] c(2)
  obtain l2 where "ml_unload ''ext2'' l1 = (True, l2)" "lookup_symbol ''ext2_fill_super'' l2 = lookup_symbol ''ext2_fill_super'' sample_loader"
    by blast
  ultimately show ?thesis using c(3) by simp
qed

text \<open>Unloading modules in a given order.\<close>

fun unload_seq :: "string list \<Rightarrow> module_loader \<Rightarrow> bool \<times> module_loader" where
  "unload_seq [] l = (True, l)"
| "unload_seq (n # ns) l = (let (b, l1) = ml_unload n l; (c, l2) = unload_seq ns l1 in (b \<and> c, l2))"

lemma unload_in_order:
  "modules_ok l \<Longrightarrow> load_order (deps_of l) ns \<Longrightarrow> (\<forall>n. n \<in> set ns \<longleftrightarrow> ml_is_loaded n l) \<Longrightarrow>
   \<exists>l2. unload_seq ns l = (True, l2) \<and> modules_ok l2 \<and> (\<forall>n. \<not> ml_is_loaded n l2)"
proof (induction ns arbitrary: l)
  case (Cons n ns)
  have n: "ml_is_loaded n l" using Cons.prems(3) by auto
  have free: "n \<notin> deps_of l k" if "ml_is_loaded k l" for k
  proof (cases "k = n")
    case False
    with that Cons.prems(3) have "k \<in> set ns" by auto
    with Cons.prems(2) load_order_closed show ?thesis by fastforce
  qed (use Cons.prems(2) in auto)
  have "dict_ok (ml_available l)" using Cons.prems(1) by (simp add: modules_ok_def)
  from ml_unload_cases [OF this, of n] n free obtain m where m: "map_of (ml_available l) n = Some m"
    "ml_unload n l = (True, l\<lparr>ml_available := dict_modify n (\<lambda>m. m\<lparr>m_loaded := False\<rparr>) (ml_available l),
       ml_symbols := fold AList.delete (m_exports m) (ml_symbols l)\<rparr>)" (is "_ = (True, ?l1)") by blast
  have "modules_ok ?l1" using modules_ok_unload [OF Cons.prems(1), of n] m(2) by simp
  moreover have "load_order (deps_of ?l1) ns" using Cons.prems(2) by (simp add: set_loaded_fields)
  moreover have "\<forall>k. k \<in> set ns \<longleftrightarrow> ml_is_loaded k ?l1"
    using Cons.prems(2,3) m(1) by (auto simp: set_loaded_fields)
  ultimately obtain l2 where "unload_seq ns ?l1 = (True, l2)" "modules_ok l2" "\<forall>n. \<not> ml_is_loaded n l2"
    using Cons.IH by blast
  with m(2) show ?case by auto
qed auto

text \<open>The names of the modules loaded by a sequence of calls and not unloaded since, the newest first.\<close>

fun ml_track :: "ml_op \<Rightarrow> module_loader \<times> string list \<Rightarrow> module_loader \<times> string list" where
  "ml_track e (l, ns) =
     (let l1 = ml_call e l; ms = (case e of MLoad n \<Rightarrow> if n \<in> set ns then ns else n # ns | _ \<Rightarrow> ns)
      in (l1, filter (\<lambda>k. ml_is_loaded k l1) ms))"

definition track_ok :: "module_loader \<times> string list \<Rightarrow> bool" where
  "track_ok = (\<lambda>(l, ns). modules_ok l \<and> load_order (deps_of l) ns \<and> (\<forall>n. n \<in> set ns \<longleftrightarrow> ml_is_loaded n l))"

lemma track_ok_step:
  assumes ok: "track_ok (l, ns)" and may: "may_call e l"
  shows "track_ok (ml_track e (l, ns))"
proof -
  have o: "modules_ok l" "load_order (deps_of l) ns" "\<forall>n. n \<in> set ns \<longleftrightarrow> ml_is_loaded n l"
    using ok by (simp_all add: track_ok_def)
  have m1: "modules_ok (ml_call e l)" using mlm.inv_step [OF o(1), of e] may by (simp add: ml_step_def)
  have same: "filter (\<lambda>k. ml_is_loaded k l) ns = ns" using o(3) by (simp add: filter_id_conv)
  show ?thesis
  proof (cases e)
    case (MRegister m)
    have other: "ml_is_loaded n (ml_register m l) = ml_is_loaded n l" for n
      using may MRegister by (simp add: ml_register_def ml_is_loaded_def may_register_def)
    have "m_name m \<notin> set ns" using o(3) may MRegister by (simp add: may_register_def)
    then have "load_order (deps_of (ml_register m l)) ns \<longleftrightarrow> load_order (deps_of l) ns"
      by (intro load_order_cong) (auto simp: deps_of_def ml_register_def)
    then show ?thesis using MRegister m1 o same by (simp add: track_ok_def other)
  next
    case (MLoad n)
    from ml_load_cases [of n l] show ?thesis
    proof (elim disjE exE conjE)
      fix m
      assume m: "map_of (ml_available l) n = Some m" and new: "\<not> ml_is_loaded n l"
        and deps: "\<forall>dep \<in> deps_of l n. ml_is_loaded dep l"
        and r: "ml_load n l = (True, l\<lparr>ml_available := dict_modify n (\<lambda>m. m\<lparr>m_loaded := True\<rparr>) (ml_available l),
             ml_symbols := fold (\<lambda>s. AList.update s n) (m_exports m) (ml_symbols l)\<rparr>)" (is "_ = (True, ?l)")
      have ld: "ml_is_loaded k ?l \<longleftrightarrow> k = n \<or> ml_is_loaded k l" for k using m by (simp add: set_loaded_fields)
      have "filter (\<lambda>k. ml_is_loaded k ?l) (n # ns) = n # ns" unfolding filter_id_conv ld using o(3) by auto
      moreover have "load_order (deps_of ?l) (n # ns)"
        unfolding set_loaded_fields(2) using o new deps by auto
      moreover have "modules_ok ?l" using m1 MLoad r by simp
      ultimately show ?thesis
        using MLoad new o(3) unfolding track_ok_def by (simp add: r ld del: load_order.simps)
    qed (use MLoad o same in \<open>auto simp: track_ok_def\<close>)
  next
    case (MUnload n)
    have "dict_ok (ml_available l)" using o(1) by (simp add: modules_ok_def)
    from ml_unload_cases [OF this, of n] show ?thesis
    proof (elim disjE exE conjE)
      fix m
      assume m: "map_of (ml_available l) n = Some m" and free: "\<forall>k. ml_is_loaded k l \<longrightarrow> n \<notin> deps_of l k"
        and r: "ml_unload n l = (True, l\<lparr>ml_available := dict_modify n (\<lambda>m. m\<lparr>m_loaded := False\<rparr>) (ml_available l),
             ml_symbols := fold AList.delete (m_exports m) (ml_symbols l)\<rparr>)" (is "_ = (True, ?l)")
      have ld: "ml_is_loaded k ?l \<longleftrightarrow> k \<noteq> n \<and> ml_is_loaded k l" for k using m by (simp add: set_loaded_fields)
      have f: "filter (\<lambda>k. k \<noteq> n \<and> ml_is_loaded k l) ns = removeAll n ns"
        unfolding removeAll_filter_not_eq using o(3) by (intro filter_cong) auto
      have "load_order (deps_of ?l) (removeAll n ns)"
        unfolding set_loaded_fields(2) using o free by (intro load_order_remove) auto
      moreover have "modules_ok ?l" using m1 MUnload r by simp
      ultimately show ?thesis using MUnload o(3) unfolding track_ok_def by (simp add: r f ld) auto
    qed (use MUnload o same in \<open>auto simp: track_ok_def\<close>)
  qed
qed

lemma track_ok_run:
  "guarded may_call ml_call es l \<Longrightarrow> track_ok (l, ns) \<Longrightarrow>
   track_ok (fold ml_track es (l, ns)) \<and> fst (fold ml_track es (l, ns)) = fold ml_call es l"
proof (induction es arbitrary: l ns)
  case (Cons e es)
  obtain ns1 where t: "ml_track e (l, ns) = (ml_call e l, ns1)" by (simp add: Let_def)
  with Cons.IH [of "ml_call e l" ns1] track_ok_step [OF Cons.prems(2), of e] Cons.prems(1) show ?case
    by (simp del: ml_track.simps)
qed simp

lemma modules_ok_empty:
  assumes ok: "modules_ok l" and none: "\<forall>n. \<not> ml_is_loaded n l"
  shows "list_loaded l = []" "symbol_table l = []"
proof -
  have av: "dict_ok (ml_available l)" using ok by (simp add: modules_ok_def)
  have "list_all (\<lambda>m. \<not> m_loaded m) (map snd (ml_available l))"
    using none unfolding dict_values_all [OF av] by (auto simp: ml_is_loaded_def split: option.splits)
  then show "list_loaded l = []" by (simp add: list_loaded_def list_all_iff)
  have "map_of (ml_symbols l) s = None" for s
    using ok none unfolding modules_ok_def by (metis not_Some_eq)
  then have "map_of (ml_symbols l) = Map.empty" by (rule ext)
  then show "symbol_table l = []" by (simp add: symbol_table_def)
qed

text \<open>C24: After any sequence of calls with registrations as above, unloading the loaded modules in the reverse of the
  order in which they were loaded succeeds at every step and leaves nothing loaded and no symbol, while
  unloading a module that a loaded one depends on is refused and changes nothing.\<close>
theorem everything_unloads:
  assumes "guarded may_call ml_call es (ml_new p)" and "fold ml_track es (ml_new p, []) = (l, newest_first)"
  shows "l = fold ml_call es (ml_new p) \<and> distinct newest_first \<and> (\<forall>n. n \<in> set newest_first \<longleftrightarrow> ml_is_loaded n l)
    \<and> (\<exists>l2. unload_seq newest_first l = (True, l2) \<and> list_loaded l2 = [] \<and> symbol_table l2 = [])
    \<and> (\<forall>n k. ml_is_loaded k l \<longrightarrow> n \<in> deps_of l k \<longrightarrow> ml_unload n l = (False, l))"
proof -
  have "track_ok (ml_new p, [])" using mlm.inv_init by (simp add: track_ok_def) (simp add: ml_new_def ml_is_loaded_def)
  from track_ok_run [OF assms(1) this] have l: "l = fold ml_call es (ml_new p)" and t: "track_ok (l, newest_first)"
    by (auto simp: assms(2))
  from t have ok: "modules_ok l" "load_order (deps_of l) newest_first" "\<forall>n. n \<in> set newest_first \<longleftrightarrow> ml_is_loaded n l"
    by (simp_all add: track_ok_def)
  from unload_in_order [OF ok] modules_ok_empty
  have "\<exists>l2. unload_seq newest_first l = (True, l2) \<and> list_loaded l2 = [] \<and> symbol_table l2 = []" by blast
  moreover have "ml_unload n l = (False, l)" if "ml_is_loaded k l" "n \<in> deps_of l k" for n k
    using ml_unload_cases [of l n] ok(1) that unfolding modules_ok_def by blast
  ultimately show ?thesis using l ok(3) load_order_distinct [OF ok(2)] by blast
qed

theorem everything_unloads_witness:
  "\<exists>l2. unload_seq [''raid'', ''ata''] sample_loader = (True, l2) \<and> symbol_table l2 = []
     \<and> ml_unload ''ata'' sample_loader = (False, sample_loader)"
proof -
  obtain l ns where t: "fold ml_track sample_calls_ml (ml_new DEBUG_PROFILE, []) = (l, ns)" by fastforce
  note e = everything_unloads [OF sample_guarded t]
  have "snd (fold ml_track sample_calls_ml (ml_new DEBUG_PROFILE, [])) = [''raid'', ''ata'']" by code_simp
  then have ns: "ns = [''raid'', ''ata'']" by (simp add: t)
  have l: "l = sample_loader" using e by (simp add: sample_loader_def)
  have "ml_is_loaded ''raid'' sample_loader" "''ata'' \<in> deps_of sample_loader ''raid''" by code_simp+
  with e show ?thesis unfolding ns l by blast
qed

end
