(* ===== verification/Power_States.thy ===== *)
theory Power_States
  imports Interfaces
begin

text \<open>\<^verbatim>\<open>power.py\<close>: power states and the recorded transitions between them.\<close>

section \<open>State and operations\<close>

datatype power_state = P_RUNNING | P_SUSPEND | P_HIBERNATE | P_SHUTDOWN | P_REBOOT

fun power_value :: "power_state \<Rightarrow> string" where
  "power_value P_RUNNING = ''S0''"
| "power_value P_SUSPEND = ''S3''"
| "power_value P_HIBERNATE = ''S4''"
| "power_value P_SHUTDOWN = ''S5''"
| "power_value P_REBOOT = ''REBOOT''"

fun power_name :: "power_state \<Rightarrow> string" where
  "power_name P_RUNNING = ''RUNNING''"
| "power_name P_SUSPEND = ''SUSPEND''"
| "power_name P_HIBERNATE = ''HIBERNATE''"
| "power_name P_SHUTDOWN = ''SHUTDOWN''"
| "power_name P_REBOOT = ''REBOOT''"

record power =
  pw_state :: power_state
  pw_transitions :: "(power_state \<times> power_state \<times> string) list"

definition pw_new :: power where
  "pw_new = \<lparr>pw_state = P_RUNNING, pw_transitions = []\<rparr>"

definition pw_transition :: "power_state \<Rightarrow> string \<Rightarrow> power \<Rightarrow> power" where
  "pw_transition new reason p =
     p\<lparr>pw_state := new, pw_transitions := pw_transitions p @ [(pw_state p, new, reason)]\<rparr>"

definition pw_suspend :: "power \<Rightarrow> power" where
  "pw_suspend p = pw_transition P_SUSPEND ''suspend requested'' p"

definition pw_resume :: "power \<Rightarrow> power" where
  "pw_resume p = (if pw_state p = P_SUSPEND then pw_transition P_RUNNING ''resume from S3'' p else p)"

definition pw_shutdown :: "power \<Rightarrow> power" where
  "pw_shutdown p = pw_transition P_SHUTDOWN ''shutdown requested'' p"

definition pw_reboot :: "power \<Rightarrow> power" where
  "pw_reboot p = pw_transition P_REBOOT ''reboot requested'' p"

record power_status =
  ps_current :: string
  ps_name :: string
  ps_transitions :: int

definition pw_status :: "power \<Rightarrow> power_status" where
  "pw_status p = \<lparr>ps_current = power_value (pw_state p), ps_name = power_name (pw_state p),
     ps_transitions = int (length (pw_transitions p))\<rparr>"

section \<open>The recorded transitions\<close>

text \<open>A record of transitions that starts in one state, joins up, and ends in another.\<close>

fun power_path :: "power_state \<Rightarrow> (power_state \<times> power_state \<times> string) list \<Rightarrow> power_state \<Rightarrow> bool" where
  "power_path a [] b \<longleftrightarrow> a = b"
| "power_path a ((x, y, r) # ts) b \<longleftrightarrow> x = a \<and> power_path y ts b"

text \<open>The transitions that can happen: resuming happens only from suspension, and nothing hibernates.\<close>

inductive power_edge :: "power_state \<Rightarrow> power_state \<Rightarrow> bool" where
  "power_edge a P_SUSPEND"
| "power_edge P_SUSPEND P_RUNNING"
| "power_edge a P_SHUTDOWN"
| "power_edge a P_REBOOT"

inductive_cases power_edgeE [elim!]: "power_edge a P_RUNNING" "power_edge a P_HIBERNATE"

inductive_simps power_edge_simps: "power_edge a b"

definition pw_inv :: "power \<Rightarrow> bool" where
  "pw_inv p \<longleftrightarrow> power_path P_RUNNING (pw_transitions p) (pw_state p)
     \<and> (\<forall>(a, b, r) \<in> set (pw_transitions p). power_edge a b)"

declare pw_inv_def [wf_defs]

datatype power_op = Suspend | Resume | Shutdown | Reboot

fun power_step :: "power_op \<Rightarrow> power \<Rightarrow> power" where
  "power_step Suspend p = pw_suspend p"
| "power_step Resume p = pw_resume p"
| "power_step Shutdown p = pw_shutdown p"
| "power_step Reboot p = pw_reboot p"

lemma power_path_snoc: "power_path a ts b \<Longrightarrow> power_path a (ts @ [(b, c, r)]) c"
  by (induction a ts b rule: power_path.induct) auto

lemma pw_inv_transition:
  "pw_inv p \<Longrightarrow> power_edge (pw_state p) new \<Longrightarrow> pw_inv (pw_transition new reason p)"
  by (auto simp: pw_inv_def pw_transition_def power_path_snoc)

interpretation pwm: machine pw_new power_step pw_inv
proof unfold_locales
  show "pw_inv pw_new" by (simp add: pw_inv_def pw_new_def)
  show "pw_inv (power_step e p)" if "pw_inv p" for e p
    using that by (cases e)
      (auto simp: pw_suspend_def pw_resume_def pw_shutdown_def pw_reboot_def intro!: pw_inv_transition power_edge.intros)
qed

section \<open>Properties\<close>

text \<open>C38: The recorded transitions are exactly the path from RUNNING to the current state: each starts where
  the previous one ended, returning to RUNNING happens only out of suspension, hibernation is never
  entered, and a resume in any other state is ignored without a record.\<close>
theorem power_history:
  assumes "reaches power_step pw_new p"
  shows "power_path P_RUNNING (pw_transitions p) (pw_state p)
    \<and> (\<forall>a r. (a, P_RUNNING, r) \<in> set (pw_transitions p) \<longrightarrow> a = P_SUSPEND) \<and> pw_state p \<noteq> P_HIBERNATE
    \<and> (pw_state p \<noteq> P_SUSPEND \<longrightarrow> pw_resume p = p)
    \<and> (pw_state p = P_SUSPEND \<longrightarrow> pw_state (pw_resume p) = P_RUNNING
         \<and> ps_transitions (pw_status (pw_resume p)) = ps_transitions (pw_status p) + 1)"
proof -
  have inv: "pw_inv p" by (rule pwm.inv_reachable [OF assms])
  have "power_path a ts b \<Longrightarrow> a \<noteq> b \<Longrightarrow> \<exists>x r. (x, b, r) \<in> set ts" for a ts b
    by (induction a ts b rule: power_path.induct) auto
  from this [of P_RUNNING "pw_transitions p" "pw_state p"] inv have "pw_state p \<noteq> P_HIBERNATE"
    by (auto simp: pw_inv_def)
  with inv show ?thesis
    by (auto simp: pw_inv_def pw_resume_def pw_transition_def pw_status_def)
qed

theorem power_history_witness:
  "pw_resume (fold power_step [Suspend, Shutdown] pw_new) = fold power_step [Suspend, Shutdown] pw_new"
  using power_history [OF reaches_fold [of power_step pw_new "[Suspend, Shutdown]"]]
  by (simp add: pw_shutdown_def pw_transition_def)

end
