(* ===== verification/Console.thy ===== *)
theory Console
  imports Text_Tools Interfaces
begin

text \<open>
  \<^verbatim>\<open>console.py\<close>: the serial console with its receive buffer of 256 bytes and the terminal attached to
  it. A terminal shares its console with the kernel, so its operations act on the pair of both. The
  bytes sent are recorded in the state; the terminal that decodes them is outside of the model.
\<close>

section \<open>The serial console\<close>

record serial =
  ser_port :: string
  ser_rx :: bytes
  ser_tx :: int
  ser_enabled :: bool
  ser_out :: bytes

definition RX_SIZE :: nat where "RX_SIZE = 256"

definition ser_new :: "string \<Rightarrow> serial" where
  "ser_new port = \<lparr>ser_port = port, ser_rx = [], ser_tx = 0, ser_enabled = True, ser_out = []\<rparr>"

definition ser_write :: "bytes \<Rightarrow> serial \<Rightarrow> serial" where
  "ser_write data c =
     (if \<not> ser_enabled c then c
      else c\<lparr>ser_out := ser_out c @ data, ser_tx := ser_tx c + int (length data)\<rparr>)"

definition ser_writeline :: "string \<Rightarrow> serial \<Rightarrow> serial" where
  "ser_writeline txt c = ser_write (py_encode (txt @ [NL])) c"

definition ser_receive :: "bytes \<Rightarrow> serial \<Rightarrow> serial" where
  "ser_receive data c = c\<lparr>ser_rx := foldl (deque_append RX_SIZE) (ser_rx c) data\<rparr>"

definition ser_read :: "int \<Rightarrow> serial \<Rightarrow> bytes \<times> serial" where
  "ser_read n c =
     (let (result, q) = popleft_loop (nat (min n (int (length (ser_rx c))))) [] (ser_rx c)
      in (result, c\<lparr>ser_rx := q\<rparr>))"

record serial_stats =
  st_port :: string
  st_enabled :: bool
  st_tx_bytes :: int
  st_rx_pending :: int

definition ser_stats :: "serial \<Rightarrow> serial_stats" where
  "ser_stats c = \<lparr>st_port = ser_port c, st_enabled = ser_enabled c, st_tx_bytes = ser_tx c,
     st_rx_pending = int (length (ser_rx c))\<rparr>"

definition ser_inv :: "serial \<Rightarrow> bool" where
  "ser_inv c \<longleftrightarrow> length (ser_rx c) \<le> RX_SIZE \<and> ser_tx c = int (length (ser_out c))"

declare ser_inv_def [wf_defs]

lemma ser_inv_new [intro, simp]: "ser_inv (ser_new port)"
  by (simp add: ser_inv_def ser_new_def)

lemma ser_inv_write [intro, simp]: "ser_inv c \<Longrightarrow> ser_inv (ser_write data c)"
  by (simp add: ser_inv_def ser_write_def)

lemma ser_read_eq: "ser_read n c = (take (nat n) (ser_rx c), c\<lparr>ser_rx := drop (nat n) (ser_rx c)\<rparr>)"
  by (cases "n \<le> int (length (ser_rx c))") (simp_all add: ser_read_def popleft_loop_eq min_def)

interpretation ser: bounded_fifo ser_receive ser_read ser_rx RX_SIZE ser_inv
proof unfold_locales
  fix c :: serial and data n
  assume ok: "ser_inv c"
  then show "length (ser_rx c) \<le> RX_SIZE" by (simp add: ser_inv_def)
  show "ser_rx (ser_receive data c) = last_n RX_SIZE (ser_rx c @ data)"
    using ok by (simp add: ser_receive_def ser_inv_def foldl_deque_append)
  show "ser_inv (ser_receive data c)"
    using ok by (simp add: ser_receive_def ser_inv_def foldl_deque_append)
  show "ser_inv (snd (ser_read n c))" using ok by (simp add: ser_read_eq ser_inv_def le_trans [OF diff_le_self])
  show "fst (ser_read n c) = take (nat n) (ser_rx c)"
    "ser_rx (snd (ser_read n c)) = drop (nat n) (ser_rx c)" by (simp_all add: ser_read_eq)
qed

section \<open>Terminals\<close>

record tty =
  tty_name :: string
  tty_canonical :: bool
  tty_echo :: bool
  tty_input :: string
  tty_output :: "string list"

definition tty_new :: "string \<Rightarrow> tty" where
  "tty_new name = \<lparr>tty_name = name, tty_canonical = True, tty_echo = True, tty_input = [], tty_output = []\<rparr>"

definition tty_write :: "string \<Rightarrow> tty \<times> serial \<Rightarrow> tty \<times> serial" where
  "tty_write data = (\<lambda>(t, c). (t\<lparr>tty_output := tty_output t @ [data]\<rparr>, ser_writeline data c))"

definition tty_receive_input :: "string \<Rightarrow> tty \<times> serial \<Rightarrow> tty \<times> serial" where
  "tty_receive_input txt = (\<lambda>(t, c). (t\<lparr>tty_input := txt\<rparr>, if tty_echo t then ser_writeline txt c else c))"

definition tty_flush :: "tty \<times> serial \<Rightarrow> tty \<times> serial" where
  "tty_flush = (\<lambda>(t, c). (t\<lparr>tty_output := []\<rparr>, c))"

datatype console_op =
    CWrite bytes
  | CWriteline string
  | CReceive bytes
  | CRead int
  | TtyWrite string
  | TtyInput string
  | TtyFlush

fun console_step :: "console_op \<Rightarrow> tty \<times> serial \<Rightarrow> tty \<times> serial" where
  "console_step (CWrite data) (t, c) = (t, ser_write data c)"
| "console_step (CWriteline txt) (t, c) = (t, ser_writeline txt c)"
| "console_step (CReceive data) (t, c) = (t, ser_receive data c)"
| "console_step (CRead n) (t, c) = (t, snd (ser_read n c))"
| "console_step (TtyWrite txt) tc = tty_write txt tc"
| "console_step (TtyInput txt) tc = tty_receive_input txt tc"
| "console_step TtyFlush tc = tty_flush tc"

text \<open>What an operation makes the console send.\<close>

fun sent_by :: "console_op \<Rightarrow> bytes" where
  "sent_by (CWrite data) = data"
| "sent_by (CWriteline txt) = py_encode (txt @ [NL])"
| "sent_by (TtyWrite txt) = py_encode (txt @ [NL])"
| "sent_by (TtyInput txt) = py_encode (txt @ [NL])"
| "sent_by _ = []"

interpretation consolem: machine "(tty_new name, ser_new port)" console_step "\<lambda>(t, c). ser_inv c \<and> ser_enabled c \<and> tty_echo t"
proof unfold_locales
  show "case (tty_new name, ser_new port) of (t, c) \<Rightarrow> ser_inv c \<and> ser_enabled c \<and> tty_echo t"
    by (simp add: tty_new_def) (simp add: ser_new_def)
  fix e and s :: "tty \<times> serial"
  assume inv: "case s of (t, c) \<Rightarrow> ser_inv c \<and> ser_enabled c \<and> tty_echo t"
  obtain t c where s: "s = (t, c)" by fastforce
  with inv have i: "ser_inv c" "ser_enabled c" "tty_echo t" by auto
  show "case console_step e s of (t, c) \<Rightarrow> ser_inv c \<and> ser_enabled c \<and> tty_echo t"
    using i ser.put_ok [OF i(1)] ser.get_ok [OF i(1)] unfolding s
    by (cases e) (simp_all add: ser_writeline_def tty_write_def tty_receive_input_def tty_flush_def,
        simp_all add: ser_write_def ser_receive_def ser_read_eq)
qed

section \<open>Properties\<close>

text \<open>The receive side of the serial line is a queue of 256 bytes: of what arrived in any number of
  pieces and was not read yet the newest 256 bytes are kept in order, reads in pieces return the same as
  one read, and a read of a negative number returns nothing.\<close>
theorem serial_receive_queue:
  assumes "ser_inv c" "0 \<le> n" "0 \<le> m" "k \<le> 0"
  shows "ser_rx (ser_receive b (ser_receive a c)) = last_n 256 (ser_rx c @ a @ b)
    \<and> fst (ser_read n c) @ fst (ser_read m (snd (ser_read n c))) = fst (ser_read (n + m) c)
    \<and> ser_read k c = ([], c)
    \<and> (length (ser_rx c) + length a \<le> 256 \<longrightarrow>
        fst (ser_read (int (length a)) (snd (ser_read (int (length (ser_rx c))) (ser_receive a c)))) = a)"
  using assms ser.put_append [OF assms(1)] ser.put_contents [OF assms(1)] ser.get_split [OF assms(1,2,3)]
    ser.fifo_roundtrip [OF assms(1), of a]
  by (auto simp: RX_SIZE_def ser_read_eq)

theorem serial_receive_queue_witness:
  "fst (ser_read 2 (ser_receive [104, 105] (ser_new ''COM1''))) = [104, 105]"
  using serial_receive_queue [OF ser_inv_new [of "''COM1''"], of 1 1 0 "[]" "[104, 105]"] by (simp add: ser_new_def ser_read_eq)

text \<open>The console sends exactly what its users write, in order: after any sequence of operations from
  a new console the bytes sent are the concatenation of those of the single operations, terminal input
  included because it is echoed, and tx_bytes counts them.\<close>
theorem console_sends_in_order:
  assumes "fold console_step ops (tty_new name, ser_new port) = (t, c)"
  shows "ser_out c = concat (map sent_by ops) \<and> st_tx_bytes (ser_stats c) = int (length (concat (map sent_by ops)))
    \<and> st_rx_pending (ser_stats c) \<le> 256"
proof -
  let ?run = "\<lambda>ops. fold console_step ops (tty_new name, ser_new port)"
  have out: "ser_out (snd (?run ops)) = concat (map sent_by ops)" for ops
  proof (induction ops rule: rev_induct)
    case (snoc e es)
    obtain t c where r: "?run es = (t, c)" by fastforce
    have "ser_enabled c" "tty_echo t"
      using consolem.inv_run [OF consolem.inv_init, of es name port] r by auto
    with snoc r show ?case
      by (cases e) (simp_all add: tty_write_def tty_receive_input_def tty_flush_def ser_writeline_def ser_write_def
          ser_receive_def ser_read_eq)
  qed (simp add: ser_new_def)
  have "ser_inv c" using consolem.inv_run [OF consolem.inv_init, of ops name port] assms by auto
  with out [of ops] assms show ?thesis by (simp add: ser_inv_def ser_stats_def RX_SIZE_def)
qed

theorem console_sends_in_order_witness:
  "\<exists>t c. fold console_step [CWrite [104, 105], CReceive [1], TtyFlush] (tty_new ''tty0'', ser_new ''COM1'') = (t, c)
     \<and> ser_out c = [104, 105]"
proof -
  obtain t c where "fold console_step [CWrite [104, 105], CReceive [1], TtyFlush] (tty_new ''tty0'', ser_new ''COM1'') = (t, c)"
    by fastforce
  with console_sends_in_order [OF this] show ?thesis by simp
qed

end
