(* ===== verification/Kernel.thy ===== *)
theory Kernel
  imports Booted Ipc Module_Loader Power_States Console
begin

text \<open>
  \<^verbatim>\<open>kernel.py\<close>: the object that holds the subsystems, creates them together, and boots them.
\<close>

section \<open>State\<close>

text \<open>
  The subsystems exist together or not at all: before \<^verbatim>\<open>init()\<close> every attribute is \<^verbatim>\<open>None\<close>, and
  \<^verbatim>\<open>_init_complete\<close> is set when all of them have been created. The boot pipeline holds the same
  objects as the kernel, so the objects are kept once, in the pipeline's state. Safe mode is the
  profile it was created with.
\<close>

record core =
  c_boot :: boot_state
  c_modules :: module_loader
  c_ipc :: ipc
  c_power :: power
  c_console :: "tty \<times> serial"
  c_safe :: profile

record kernel =
  k_booted :: bool
  k_profile :: profile
  k_core :: "core option"

definition kernel_new :: kernel where
  "kernel_new = \<lparr>k_booted = False, k_profile = DEBUG_PROFILE, k_core = None\<rparr>"

section \<open>Operations\<close>

definition core_new :: "profile \<Rightarrow> core" where
  "core_new p = \<lparr>c_boot = boot_new DEFAULT_PHYS_PAGES, c_modules = fold ml_register default_modules (ml_new p),
     c_ipc = ipc_init, c_power = pw_new, c_console = (tty_new ''tty0'', ser_new ''COM1''), c_safe = p\<rparr>"

definition kernel_init :: "profile option \<Rightarrow> kernel \<Rightarrow> kernel" where
  "kernel_init p k =
     (let q = (case p of Some p \<Rightarrow> p | None \<Rightarrow> k_profile k)
      in k\<lparr>k_profile := q, k_core := Some (core_new q)\<rparr>)"

definition the_core :: "kernel \<Rightarrow> core" where
  "the_core k = (case k_core k of Some c \<Rightarrow> c | None \<Rightarrow> core_new (k_profile k))"

definition kernel_boot :: "kernel \<Rightarrow> bool \<times> kernel" where
  "kernel_boot k =
     (let c = the_core k; (success, b) = run_all (c_boot c)
      in (success, k\<lparr>k_booted := success, k_core := Some (c\<lparr>c_boot := b\<rparr>)\<rparr>))"

definition kernel_boot_step :: "kernel \<Rightarrow> boot_result option \<times> kernel" where
  "kernel_boot_step k =
     (let c = the_core k; (r, b) = boot_step (c_boot c)
      in (r, k\<lparr>k_core := Some (c\<lparr>c_boot := b\<rparr>)\<rparr>))"

record kernel_report =
  ks_booted :: bool
  ks_profile :: string
  ks_safe_mode :: bool
  ks_processes :: int
  ks_threads :: int
  ks_free_pages :: int
  ks_total_pages :: int
  ks_ticks :: int
  ks_modules :: int

definition kernel_status :: "kernel \<Rightarrow> kernel_report" where
  "kernel_status k =
     (case k_core k of
        None \<Rightarrow> \<lparr>ks_booted = k_booted k, ks_profile = pr_name (k_profile k), ks_safe_mode = False,
                  ks_processes = 0, ks_threads = 0, ks_free_pages = 0, ks_total_pages = 0, ks_ticks = 0, ks_modules = 0\<rparr>
      | Some c \<Rightarrow>
         (let b = c_boot c; m = vmm_pmm (sys_vmm (b_sys b))
          in \<lparr>ks_booted = k_booted k, ks_profile = pr_name (k_profile k), ks_safe_mode = sm_active (c_safe c),
              ks_processes = int (length (pt_all (sys_pt (b_sys b)))), ks_threads = int (length (tt_all (b_sched b))),
              ks_free_pages = free_pages m, ks_total_pages = total_pages m, ks_ticks = tick_count (b_sched b),
              ks_modules = int (length (list_loaded (c_modules c)))\<rparr>))"

definition profile_of :: "string \<Rightarrow> profile" where
  "profile_of name = (case map_of PROFILES name of Some p \<Rightarrow> p | None \<Rightarrow> DEBUG_PROFILE)"

text \<open>A new kernel object, initialised with a profile and booted: what \<^verbatim>\<open>kmain\<close>, the shell's reboot and the
  program's entry point have in common.\<close>

definition kernel_start :: "profile \<Rightarrow> kernel" where
  "kernel_start p = snd (kernel_boot (kernel_init (Some p) kernel_new))"

definition kmain :: "string \<Rightarrow> kernel" where
  "kmain profile_name = kernel_start (profile_of profile_name)"

section \<open>Invariant\<close>

definition core_inv :: "core \<Rightarrow> bool" where
  "core_inv c \<longleftrightarrow> boot_inv (c_boot c) \<and> modules_ok (c_modules c) \<and> ipc_inv (c_ipc c) \<and> pw_inv (c_power c)
     \<and> (case c_console c of (t, s) \<Rightarrow> ser_inv s \<and> ser_enabled s \<and> tty_echo t)"

definition kernel_inv :: "kernel \<Rightarrow> bool" where
  "kernel_inv k \<longleftrightarrow>
     (case k_core k of
        None \<Rightarrow> \<not> k_booted k
      | Some c \<Rightarrow> core_inv c \<and> k_booted k = b_booted (c_boot c) \<and> ml_profile (c_modules c) = k_profile k \<and> c_safe c = k_profile k)"

declare core_inv_def [wf_defs] kernel_inv_def [wf_defs]

lemma modules_ok_default: "modules_ok (fold ml_register default_modules (ml_new p))"
  "ml_profile (fold ml_register default_modules (ml_new p)) = p"
proof -
  have "fold ml_register default_modules (ml_new p) = fold ml_step (map MRegister default_modules) (ml_new p)"
    by (simp add: default_modules_def new_module_def ml_step_def may_register_def ml_register_def ml_new_def ml_is_loaded_def)
  then show "modules_ok (fold ml_register default_modules (ml_new p))"
    using mlm.inv_run [OF mlm.inv_init] by simp
  show "ml_profile (fold ml_register default_modules (ml_new p)) = p"
    by (simp add: default_modules_def ml_register_def ml_new_def)
qed

lemma core_inv_new: "core_inv (core_new p)"
  using boot_inv_new modules_ok_default pwm.inv_init consolem.inv_init ipcm.inv_init
  by (simp add: core_inv_def core_new_def)

lemma kernel_inv_new [intro, simp]: "kernel_inv kernel_new"
  by (simp add: kernel_inv_def kernel_new_def)

lemma kernel_inv_init: "\<not> k_booted k \<Longrightarrow> kernel_inv (kernel_init p k)"
  using core_inv_new modules_ok_default(2)
  by (simp add: kernel_inv_def kernel_init_def Let_def core_new_def boot_new_def split: option.splits)

lemma kernel_inv_core:
  "kernel_inv k \<Longrightarrow> core_inv (the_core k) \<and> k_booted k = b_booted (c_boot (the_core k))
     \<and> ml_profile (c_modules (the_core k)) = k_profile k \<and> c_safe (the_core k) = k_profile k"
  using core_inv_new modules_ok_default(2)
  by (auto simp: kernel_inv_def the_core_def core_new_def boot_new_def split: option.splits)

lemma kernel_inv_boot: "kernel_inv k \<Longrightarrow> kernel_inv (snd (kernel_boot k))"
  using kernel_inv_core [of k] boot_inv_all [of "c_boot (the_core k)"] run_all_log [of "c_boot (the_core k)"]
  by (simp add: kernel_boot_def Let_def kernel_inv_def core_inv_def case_prod_beta)

lemma kernel_inv_step: "kernel_inv k \<Longrightarrow> kernel_inv (snd (kernel_boot_step k))"
  using kernel_inv_core [of k] boot_inv_step [of "c_boot (the_core k)"] boot_step_booted [of "c_boot (the_core k)"]
  by (simp add: kernel_boot_step_def Let_def kernel_inv_def core_inv_def case_prod_beta)

section \<open>The kernel machine\<close>

datatype kernel_op = KInit "profile option" | KBoot | KStep

text \<open>Initialising again discards every subsystem but keeps the booted flag, so the machine does it only
  before the boot, as the shell does.\<close>

fun kernel_step :: "kernel_op \<Rightarrow> kernel \<Rightarrow> kernel" where
  "kernel_step (KInit p) k = (if k_booted k then k else kernel_init p k)"
| "kernel_step KBoot k = snd (kernel_boot k)"
| "kernel_step KStep k = snd (kernel_boot_step k)"

interpretation kernelm: machine kernel_new kernel_step kernel_inv
proof unfold_locales
  show "kernel_inv (kernel_step e k)" if "kernel_inv k" for k e
    using that by (cases e) (simp_all add: kernel_inv_init kernel_inv_boot kernel_inv_step)
qed simp

lemma profile_of_name: "pr_name (profile_of n) = (if n \<in> fst ` set PROFILES then n else ''debug'')"
  by (auto simp: profile_of_def PROFILES_def profile_defs split: option.splits)

lemma kernel_start_core:
  "k_core (kernel_start p) = Some ((core_new p)\<lparr>c_boot := snd (run_all (boot_new DEFAULT_PHYS_PAGES))\<rparr>)"
  "k_booted (kernel_start p)" "k_profile (kernel_start p) = p"
  using run_all_log [of "boot_new DEFAULT_PHYS_PAGES"]
  by (simp_all add: kernel_start_def kernel_boot_def kernel_init_def the_core_def core_new_def Let_def case_prod_beta)

lemma kernel_start_inv: "kernel_inv (kernel_start p)"
  unfolding kernel_start_def by (intro kernel_inv_boot kernel_inv_init) (simp add: kernel_new_def)

lemmas kmain_core = kernel_start_core [of "profile_of n" for n, folded kmain_def]

text \<open>What \<^verbatim>\<open>kmain\<close> returns. For every profile name the kernel is booted and in a consistent state; an
  unknown name means the debug profile. It reports the idle process and init, five threads, five ticks, 1024
  frames all free, and no module loaded.\<close>
theorem kmain_boots:
  "kernel_inv (kmain n) \<and> kernel_status (kmain n) =
     \<lparr>ks_booted = True, ks_profile = (if n \<in> fst ` set PROFILES then n else ''debug''), ks_safe_mode = (n = ''safe_mode''),
      ks_processes = 2, ks_threads = 5, ks_free_pages = 1024, ks_total_pages = 1024, ks_ticks = 5, ks_modules = 0\<rparr>"
proof
  show "kernel_inv (kmain n)"
    unfolding kmain_def by (rule kernel_start_inv)
  have q: "tick_count (let (r, q) = tt_spawn 2 ''init'' 10 False (start_threads sched_new) in add_thread r q) = 5"
    "length (tt_all (let (r, q) = tt_spawn 2 ''init'' 10 False (start_threads sched_new) in add_thread r q)) = 5"
    unfolding start_threads_value by (simp_all add: sched_eval Let_def tt_all_def del: tt_spawn_fields)
  have p: "length (pt_all (pt_modify 2 (\<lambda>p. p\<lparr>p_cwd := ''/''\<rparr>) (pt_modify 2 (\<lambda>p. p\<lparr>p_state := RUNNABLE\<rparr>)
      (snd (pt_spawn ''init'' 0 0 0 (VStr ''/sbin/init'') pt_init))))) = 2"
    by code_simp
  have m: "free_pages (pmm_init DEFAULT_PHYS_PAGES) = 1024" "total_pages (pmm_init DEFAULT_PHYS_PAGES) = 1024"
    by (simp_all add: free_pages_def pmm_init_def DEFAULT_PHYS_PAGES_def)
  have l: "list_loaded (c_modules (core_new (profile_of n))) = []"
    by (simp add: core_new_def list_loaded_def default_modules_def new_module_def ml_register_def ml_new_def)
  have s: "sm_active (profile_of n) = (n = ''safe_mode'')"
    unfolding sm_active_def profile_of_name by (auto simp: PROFILES_def)
  show "kernel_status (kmain n) =
     \<lparr>ks_booted = True, ks_profile = (if n \<in> fst ` set PROFILES then n else ''debug''), ks_safe_mode = (n = ''safe_mode''),
      ks_processes = 2, ks_threads = 5, ks_free_pages = 1024, ks_total_pages = 1024, ks_ticks = 5, ks_modules = 0\<rparr>"
    unfolding kernel_status_def kmain_core option.case Let_def
    using q p m l s by (simp add: booted_parts kmain_core profile_of_name core_new_def create_address_space_def vmm_init_def Let_def)
qed

end
