(* ===== verification/Teaching.thy ===== *)
theory Teaching
  imports Text_Tools "HOL-Library.List_Lexorder" "HOL-Library.Char_ord" "HOL-Library.Multiset"
begin

text \<open>
  \<^verbatim>\<open>teaching.py\<close> and \<^verbatim>\<open>roadmap.py\<close>: explanations looked up and searched by topic, and the printed roadmap.
  The table of topics is an argument: its texts are prose, and the engine treats them as such.
\<close>

section \<open>The teaching engine\<close>

type_synonym topics = "(string, string) dict"

text \<open>\<^verbatim>\<open>sep.join(xs)\<close>\<close>

definition join_with :: "string \<Rightarrow> string list \<Rightarrow> string" where
  "join_with sep xs = concat (case xs of [] \<Rightarrow> [] | x # ys \<Rightarrow> x # map ((@) sep) ys)"

text \<open>\<^verbatim>\<open>x in y\<close> for strings.\<close>

fun substring :: "string \<Rightarrow> string \<Rightarrow> bool" where
  "substring x [] = (x = [])"
| "substring x (c # cs) = (py_startswith (c # cs) x \<or> substring x cs)"

definition list_topics :: "topics \<Rightarrow> string list" where
  "list_topics T = sort (map fst T)"

definition explain :: "topics \<Rightarrow> string \<Rightarrow> string" where
  "explain T topic =
     (case map_of T (py_lower topic) of
        None \<Rightarrow> ''Unknown topic: '' @ [CHR 0x27] @ topic @ [CHR 0x27, NL] @ ''Available topics: '' @ join_with '', '' (list_topics T)
      | Some txt \<Rightarrow> py_strip txt)"

definition search :: "topics \<Rightarrow> string \<Rightarrow> string list" where
  "search T keyword =
     (let kw = py_lower keyword
      in map fst (filter (\<lambda>(topic, txt). substring kw (py_lower txt) \<or> substring kw (py_lower topic)) T))"

section \<open>The roadmap\<close>

definition IMPLEMENTED :: "(string \<times> string \<times> string) list" where
  "IMPLEMENTED =
    [(''Boot pipeline simulation'', ''boot.py'', ''Full''),
     (''x86_64 arch layer model'', ''arch.py'', ''Full''),
     (''Physical memory manager (PMM)'', ''memory.py'', ''Full''),
     (''Virtual memory manager (VMM)'', ''memory.py'', ''Full''),
     (''kmalloc/slab allocator model'', ''memory.py'', ''Full''),
     (''Process model (task_struct)'', ''process.py'', ''Full''),
     (''Thread model (CPU context)'', ''thread.py'', ''Full''),
     (''Round-robin preemptive scheduler'', ''scheduler.py'', ''Full''),
     (''Syscall table (14 syscalls)'', ''syscall.py'', ''Full''),
     (''VFS (Virtual Filesystem Switch)'', ''vfs.py'', ''Full''),
     (''tmpfs (in-memory FS)'', ''fs_tmpfs.py'', ''Full''),
     (''Ext2-inspired FS model'', ''fs_ext2.py'', ''Educational''),
     (''Device registry'', ''device.py'', ''Full''),
     (''Driver framework'', ''driver.py'', ''Full''),
     (''Serial console / TTY'', ''console.py'', ''Full''),
     (''ELF loader model'', ''elfloader.py'', ''Educational''),
     (''Pipes and signals (IPC)'', ''ipc.py'', ''Full''),
     (''Kernel module loader'', ''module_loader.py'', ''Full''),
     (''Security / credentials'', ''security.py'', ''Full''),
     (''Power management states'', ''power.py'', ''Full''),
     (''Boot profiles (debug/release/safe)'', ''profiles.py'', ''Full''),
     (''Safe mode enforcement'', ''safe_mode.py'', ''Full''),
     (''Teaching engine'', ''teaching.py'', ''Full''),
     (''Interactive shell'', ''shell.py'', ''Full'')]"

definition ROADMAP :: "(string \<times> string \<times> string) list" where
  "ROADMAP =
    [(''TCP/IP network stack'', ''In-kernel TCP/IP (lwIP or custom)'', ''Planned''),
     (''Network device driver model'', ''NIC driver framework'', ''Planned''),
     (''SSH daemon'', ''In-kernel SSH service'', ''Planned''),
     (''SMP (multi-core) support'', ''Per-CPU scheduler, IPI, spinlocks'', ''Planned''),
     (''ACPI power management'', ''Full ACPI AML interpreter'', ''Planned''),
     (''USB stack'', ''xHCI host controller + USB drivers'', ''Planned''),
     (''NVMe driver'', ''PCIe NVMe block device driver'', ''Planned''),
     (''ext4 filesystem'', ''Full ext4 with journaling'', ''Planned''),
     (''procfs / sysfs'', ''Runtime kernel info filesystems'', ''Planned''),
     (''Memory-mapped files'', ''mmap(MAP_FILE) with page cache'', ''Planned''),
     (''Copy-on-write fork'', ''Real COW fork() implementation'', ''Planned''),
     (''POSIX threads (pthreads)'', ''Full pthread support'', ''Planned''),
     (''ASLR'', ''Address space layout randomization'', ''Planned''),
     (''KVM hypervisor support'', ''Paravirtualization'', ''Planned''),
     (''DRM/KMS graphics'', ''Framebuffer + GPU driver model'', ''Planned''),
     (''Audio subsystem'', ''ALSA-style audio model'', ''Planned''),
     (''Bluetooth stack'', ''HCI/L2CAP model'', ''Planned''),
     (''SELinux/AppArmor model'', ''Mandatory access control'', ''Planned''),
     (''eBPF subsystem'', ''In-kernel safe programs'', ''Planned''),
     (''io_uring'', ''Async I/O interface'', ''Planned'')]"

definition NOTE_ON_NETWORKING :: string where
  "NOTE_ON_NETWORKING =
     [] @ [NL]
     @ ''NOTE: Networking is on the ComputeKERNEL roadmap.'' @ [NL]
     @ ''The current implementation (both real C kernel and this Python simulator)'' @ [NL]
     @ ''does NOT include a TCP/IP stack, network device drivers, or an SSH daemon.'' @ [NL]
     @ ''These are planned features. The '' @ [CHR 0x27] @ ''netinfo'' @ [CHR 0x27] @ '' command shows this status.'' @ [NL]
     @ []"

definition format_roadmap :: string where
  "format_roadmap =
     py_join NL ([replicate 70 CHR ''='', ''ComputeKERNEL-Edu: Feature Roadmap'', replicate 70 CHR ''='', [],
         ''IMPLEMENTED (in this simulator):'', replicate 50 CHR ''-'']
       @ map (\<lambda>(name, module, status).
            ''  ['' @ (if status \<in> {''Full'', ''Educational''} then ''X'' else '' '') @ ''] '' @ ljust 44 name @ '' ('' @ module @ '')'') IMPLEMENTED
       @ [[], ''PLANNED / ROADMAP (not yet implemented):'', replicate 50 CHR ''-'']
       @ map (\<lambda>(name, detail, status). ''  [ ] '' @ ljust 44 name @ '' - '' @ detail) ROADMAP
       @ [[], py_strip NOTE_ON_NETWORKING])"

section \<open>Properties\<close>

lemma substring_iff: "substring x y \<longleftrightarrow> (\<exists>a b. y = a @ x @ b)"
proof (induction y)
  case (Cons c cs)
  have "substring x (c # cs) \<longleftrightarrow> (\<exists>b. c # cs = x @ b) \<or> (\<exists>a b. cs = a @ x @ b)"
    by (simp add: startswith_iff Cons.IH)
  also have "\<dots> \<longleftrightarrow> (\<exists>a b. c # cs = a @ x @ b)"
    by (auto simp: Cons_eq_append_conv)
  finally show ?case .
qed auto

lemma substring_refl [simp]: "substring x x"
  by (cases x) (simp_all add: startswith_iff)

lemma lower_lower: "lower_char (lower_char c) = lower_char c"
  by (simp add: lower_char_def Let_def)

text \<open>Searching ignores case, finds exactly the topics whose text or name contains the keyword, in the order of
  the table, and finds each topic under its own name; the list of topics is sorted and complete.\<close>
theorem search_finds_topics:
  "search T (py_lower kw) = search T kw \<and> set (search T kw) \<subseteq> set (list_topics T)
   \<and> (t \<in> set (list_topics T) \<longrightarrow> t \<in> set (search T t)) \<and> sorted (list_topics T) \<and> mset (list_topics T) = mset (map fst T)"
proof -
  have "py_lower (py_lower kw) = py_lower kw" by (simp add: py_lower_def lower_lower)
  then show ?thesis by (auto simp: search_def list_topics_def Let_def)
qed

end
