(* ===== verification/Logger.thy ===== *)
theory Logger
  imports Text_Tools Interfaces Complex_Main
begin

text \<open>
  \<^verbatim>\<open>logger.py\<close>: log levels, entries and the ring buffer of the last 1024 entries with its optional
  serial sink. Time stamps are rational numbers: the reading of the clock is an argument of every call.
  The lines that \<^verbatim>\<open>print\<close> writes to the standard output are recorded in the state.
\<close>

section \<open>Levels\<close>

datatype log_level = DEBUG | INFO | WARN | ERROR | PANIC

fun level_value :: "log_level \<Rightarrow> nat" where
  "level_value DEBUG = 0"
| "level_value INFO = 1"
| "level_value WARN = 2"
| "level_value ERROR = 3"
| "level_value PANIC = 4"

definition level_label :: "log_level \<Rightarrow> string" where
  "level_label l = [''DEBUG'', ''INFO '', ''WARN '', ''ERROR'', ''PANIC''] ! level_value l"

lemma level_value_inj: "level_value a = level_value b \<Longrightarrow> a = b"
  by (cases a; cases b) simp_all

text \<open>The order of an \<^verbatim>\<open>IntEnum\<close> is that of the values.\<close>

instantiation log_level :: linorder
begin

definition less_eq_log_level :: "log_level \<Rightarrow> log_level \<Rightarrow> bool" where
  "a \<le> b \<longleftrightarrow> level_value a \<le> level_value b"

definition less_log_level :: "log_level \<Rightarrow> log_level \<Rightarrow> bool" where
  "a < b \<longleftrightarrow> level_value a < level_value b"

instance
  by standard (auto simp: less_eq_log_level_def less_log_level_def intro: level_value_inj)

end

section \<open>Entries\<close>

record log_entry =
  le_level :: log_level
  le_subsystem :: string
  le_message :: string
  le_timestamp :: rat

text \<open>\<^verbatim>\<open>f"{t:10.4f}"\<close>: rounding to four decimals, halves to even, right justified in ten places.\<close>

definition round_even :: "rat \<Rightarrow> int" where
  "round_even x = (let f = \<lfloor>x\<rfloor>; d = x - of_int f in
     if d < 1 / 2 then f else if 1 / 2 < d then f + 1 else if even f then f else f + 1)"

definition fixed4 :: "rat \<Rightarrow> string" where
  "fixed4 t =
     (let n = nat (round_even (\<bar>t\<bar> * 10000)); frac = nat_digits 10 (n mod 10000)
      in rjust 10 ((if t < 0 then ''-'' else []) @ nat_digits 10 (n div 10000) @ ''.''
           @ replicate (4 - length frac) CHR ''0'' @ frac))"

definition entry_str :: "log_entry \<Rightarrow> string" where
  "entry_str e = ''['' @ fixed4 (le_timestamp e) @ ''] ['' @ level_label (le_level e) @ ''] [''
     @ ljust 8 (le_subsystem e) @ ''] '' @ le_message e"

section \<open>The logger\<close>

record kernel_logger =
  kl_ring :: "log_entry list"
  kl_sink :: bool
  kl_start :: rat
  kl_out :: "string list"

definition MAX_ENTRIES :: nat where "MAX_ENTRIES = 1024"

definition kl_new :: "bool \<Rightarrow> rat \<Rightarrow> kernel_logger" where
  "kl_new sink now = \<lparr>kl_ring = [], kl_sink = sink, kl_start = now, kl_out = []\<rparr>"

definition elapsed :: "rat \<Rightarrow> kernel_logger \<Rightarrow> rat" where
  "elapsed now l = now - kl_start l"

definition kl_log :: "log_level \<Rightarrow> string \<Rightarrow> string \<Rightarrow> rat \<Rightarrow> kernel_logger \<Rightarrow> kernel_logger" where
  "kl_log level subsystem message now l =
     (let e = \<lparr>le_level = level, le_subsystem = subsystem, le_message = message, le_timestamp = elapsed now l\<rparr>;
          l1 = l\<lparr>kl_ring := deque_append MAX_ENTRIES (kl_ring l) e\<rparr>
      in if kl_sink l1 then l1\<lparr>kl_out := kl_out l1 @ [entry_str e]\<rparr> else l1)"

definition log_debug :: "string \<Rightarrow> string \<Rightarrow> rat \<Rightarrow> kernel_logger \<Rightarrow> kernel_logger" where
  "log_debug = kl_log DEBUG"

definition log_info :: "string \<Rightarrow> string \<Rightarrow> rat \<Rightarrow> kernel_logger \<Rightarrow> kernel_logger" where
  "log_info = kl_log INFO"

definition log_warn :: "string \<Rightarrow> string \<Rightarrow> rat \<Rightarrow> kernel_logger \<Rightarrow> kernel_logger" where
  "log_warn = kl_log WARN"

definition log_error :: "string \<Rightarrow> string \<Rightarrow> rat \<Rightarrow> kernel_logger \<Rightarrow> kernel_logger" where
  "log_error = kl_log ERROR"

definition log_panic :: "string \<Rightarrow> string \<Rightarrow> rat \<Rightarrow> kernel_logger \<Rightarrow> kernel_logger" where
  "log_panic = kl_log PANIC"

definition get_entries :: "log_level \<Rightarrow> kernel_logger \<Rightarrow> log_entry list" where
  "get_entries min_level l = filter (\<lambda>e. min_level \<le> le_level e) (kl_ring l)"

definition dump :: "log_level \<Rightarrow> kernel_logger \<Rightarrow> string" where
  "dump min_level l = py_join NL (map entry_str (get_entries min_level l))"

section \<open>Panic\<close>

text \<open>\<^verbatim>\<open>panic.py\<close>: the banner and the crash report go to the standard output, the message to the log, and
  the exception always escapes. The frames of the interpreter's stack are an argument.\<close>

definition PANIC_BANNER :: string where
  "PANIC_BANNER = py_join NL [[], replicate 80 CHR ''='', replicate 24 CHR '' '' @ ''*** SIMULATED KERNEL PANIC ***'',
     ''  ComputeKERNEL-Edu: This is a simulated panic for educational purposes.'',
     ''  In a real kernel, this would halt all CPUs and display a crash report.'', replicate 80 CHR ''='', []]"

text \<open>\<^verbatim>\<open>line.rstrip()\<close>\<close>

definition rstrip_space :: "string \<Rightarrow> string" where
  "rstrip_space s = rev (dropWhile py_space (rev s))"

definition crash_report :: "string \<Rightarrow> string \<Rightarrow> string list \<Rightarrow> string" where
  "crash_report message subsystem frames =
     py_join NL ([''Panic in ['' @ subsystem @ '']: '' @ message, ''Simulated call trace:'']
       @ map rstrip_space (butlast frames))"

definition panic :: "string \<Rightarrow> string \<Rightarrow> kernel_logger option \<Rightarrow> string list \<Rightarrow> rat \<Rightarrow>
    unit result \<times> kernel_logger option \<times> string list" where
  "panic message subsystem logger frames now =
     (Inl (KernelPanic message subsystem),
      map_option (log_panic subsystem (''PANIC: '' @ message) now) logger,
      [PANIC_BANNER, crash_report message subsystem frames])"

section \<open>Invariant and operation sequences\<close>

datatype log_op = Log log_level string string rat | SetSink bool

fun log_step :: "log_op \<Rightarrow> kernel_logger \<Rightarrow> kernel_logger" where
  "log_step (Log level subsystem message now) l = kl_log level subsystem message now l"
| "log_step (SetSink b) l = l\<lparr>kl_sink := b\<rparr>"

definition kl_inv :: "kernel_logger \<Rightarrow> bool" where
  "kl_inv l \<longleftrightarrow> length (kl_ring l) \<le> MAX_ENTRIES"

interpretation logm: machine "kl_new sink now" log_step kl_inv
proof unfold_locales
  show "kl_inv (kl_new sink now)" by (simp add: kl_inv_def kl_new_def)
  show "kl_inv (log_step e l)" if "kl_inv l" for e l
    using that by (cases e) (auto simp: kl_inv_def kl_log_def Let_def length_deque_append)
qed

lemma kl_log_fields:
  "kl_inv l \<Longrightarrow> kl_ring (kl_log lv sub msg now l) = last_n MAX_ENTRIES (kl_ring l @
     [\<lparr>le_level = lv, le_subsystem = sub, le_message = msg, le_timestamp = now - kl_start l\<rparr>])"
  "kl_out (kl_log lv sub msg now l) = kl_out l @ (if kl_sink l then
     [entry_str \<lparr>le_level = lv, le_subsystem = sub, le_message = msg, le_timestamp = now - kl_start l\<rparr>] else [])"
  "kl_start (kl_log lv sub msg now l) = kl_start l" "kl_sink (kl_log lv sub msg now l) = kl_sink l"
  by (simp_all add: kl_log_def Let_def elapsed_def deque_append_last_n kl_inv_def)

section \<open>Properties\<close>

text \<open>The entries that a sequence of log calls makes.\<close>

definition entries_of :: "rat \<Rightarrow> (log_level \<times> string \<times> string \<times> rat) list \<Rightarrow> log_entry list" where
  "entries_of start = map (\<lambda>(lv, sub, msg, now). \<lparr>le_level = lv, le_subsystem = sub, le_message = msg,
     le_timestamp = now - start\<rparr>)"

definition log_calls :: "(log_level \<times> string \<times> string \<times> rat) list \<Rightarrow> kernel_logger \<Rightarrow> kernel_logger" where
  "log_calls = fold (\<lambda>(lv, sub, msg, now). kl_log lv sub msg now)"

text \<open>C37: After any sequence of log calls on a new logger the ring holds the newest 1024 entries in order;
  dmesg at a level shows exactly those at or above it, so a higher level shows a part of what a lower one
  shows; and the serial sink, when on, has printed every entry, the forgotten ones included, while
  switching it off prints none.\<close>
theorem dmesg_shows_newest:
  "let l = log_calls calls (kl_new sink start);
       es = entries_of start calls
   in get_entries level l = filter (\<lambda>e. level \<le> le_level e) (last_n 1024 es)
    \<and> dump level l = py_join NL (map entry_str (filter (\<lambda>e. level \<le> le_level e) (last_n 1024 es)))
    \<and> (\<forall>higher. level \<le> higher \<longrightarrow> set (get_entries higher l) \<subseteq> set (get_entries level l))
    \<and> kl_out l = (if sink then map entry_str es else [])"
proof -
  let ?l = "\<lambda>calls. log_calls calls (kl_new sink start)"
  have "kl_inv (?l calls) \<and> kl_ring (?l calls) = last_n 1024 (entries_of start calls)
      \<and> kl_out (?l calls) = (if sink then map entry_str (entries_of start calls) else [])
      \<and> kl_start (?l calls) = start \<and> kl_sink (?l calls) = sink" for calls
  proof (induction calls rule: rev_induct)
    case Nil
    show ?case by (simp add: kl_new_def kl_inv_def entries_of_def log_calls_def)
  next
    case (snoc c calls)
    obtain lv sub msg now where c: "c = (lv, sub, msg, now)" by (cases c)
    define k where "k = ?l calls"
    have s: "?l (calls @ [c]) = kl_log lv sub msg now k" by (simp add: c k_def log_calls_def)
    note IH = snoc [folded k_def, THEN conjunct1] snoc [folded k_def, THEN conjunct2]
    have "kl_inv (?l (calls @ [c]))"
      unfolding s using logm.inv_step [OF IH(1), of "Log lv sub msg now"] by simp
    then show ?case
      unfolding s using IH(2) kl_log_fields(1) [OF IH(1)] kl_log_fields(2-4)
      by (simp add: c kl_log_fields(2-4) entries_of_def MAX_ENTRIES_def last_n_last_n_append)
  qed
  then show ?thesis by (auto simp: Let_def get_entries_def dump_def intro: order_trans)
qed

theorem dmesg_shows_newest_witness:
  "get_entries WARN (log_error ''MM'' ''oops'' 2 (log_info ''KERN'' ''hi'' 1 (kl_new True 0)))
     = [\<lparr>le_level = ERROR, le_subsystem = ''MM'', le_message = ''oops'', le_timestamp = 2\<rparr>]"
  using dmesg_shows_newest [of "[(INFO, ''KERN'', ''hi'', 1), (ERROR, ''MM'', ''oops'', 2)]" True 0 WARN]
  by (simp add: Let_def log_calls_def log_error_def log_info_def entries_of_def less_eq_log_level_def)

text \<open>panic never returns: it raises KernelPanic with its message whether or not it was given a logger,
  after printing the banner and a report that starts with the message; with a logger, the message is the
  newest entry of the log, at the highest level, so every dmesg level shows it.\<close>
theorem panic_never_returns:
  assumes "kl_inv l" and "panic message subsystem (Some l) frames now = (r, l', printed)"
  shows "r = Inl (KernelPanic message subsystem)
    \<and> fst (panic message subsystem None frames now) = Inl (KernelPanic message subsystem)
    \<and> printed = [PANIC_BANNER, crash_report message subsystem frames]
    \<and> (\<exists>k e. l' = Some k \<and> kl_inv k \<and> get_entries level k \<noteq> [] \<and> last (get_entries level k) = e
         \<and> le_level e = PANIC \<and> le_message e = ''PANIC: '' @ message \<and> le_subsystem e = subsystem)"
proof -
  let ?k = "kl_log PANIC subsystem (''PANIC: '' @ message) now l"
  let ?e = "\<lparr>le_level = PANIC, le_subsystem = subsystem, le_message = ''PANIC: '' @ message, le_timestamp = now - kl_start l\<rparr>"
  have top: "level \<le> PANIC" by (cases level) (simp_all add: less_eq_log_level_def)
  have "kl_ring ?k = last_n MAX_ENTRIES (kl_ring l @ [?e])" by (rule kl_log_fields(1) [OF assms(1)])
  moreover have "last_n (Suc n) (xs @ [e]) = last_n n xs @ [e]" for n xs and e :: log_entry
    by (cases "length xs \<le> n") (simp_all add: last_n_def Suc_diff_le not_le)
  from this [of 1023] have "last_n MAX_ENTRIES (kl_ring l @ [?e]) = last_n 1023 (kl_ring l) @ [?e]"
    by (simp add: MAX_ENTRIES_def)
  ultimately have "get_entries level ?k = filter (\<lambda>e. level \<le> le_level e) (last_n 1023 (kl_ring l)) @ [?e]"
    using top by (simp add: get_entries_def)
  moreover have "kl_inv ?k" using logm.inv_step [OF assms(1), of "Log PANIC subsystem (''PANIC: '' @ message) now"] by simp
  ultimately show ?thesis using assms(2) by (auto simp: panic_def log_panic_def)
qed

theorem panic_never_returns_witness:
  "fst (panic ''dead'' ''KERN'' (Some (kl_new False 0)) [] 1) = Inl (KernelPanic ''dead'' ''KERN'')"
  using panic_never_returns [of "kl_new False 0" "''dead''" "''KERN''" "[]" 1]
  by (simp add: kl_new_def kl_inv_def panic_def)

end
