(* ===== verification/Elf.thy ===== *)
theory Elf
  imports Virtual_Memory
begin

text \<open>\<^verbatim>\<open>elfloader.py\<close>: executables as lists of segments, and loading one into an address space.\<close>

section \<open>State and operations\<close>

record elf_segment =
  es_type :: string
  es_vaddr :: int
  es_size :: int
  es_file_size :: int
  es_flags :: string
  es_name :: string

record fake_elf =
  elf_name :: string
  elf_entry :: int
  elf_segments :: "elf_segment list"
  elf_interpreter :: string
  elf_arch :: string

definition pt_load :: "int \<Rightarrow> int \<Rightarrow> int \<Rightarrow> string \<Rightarrow> string \<Rightarrow> elf_segment" where
  "pt_load vaddr sz file_size flags name = \<lparr>es_type = ''PT_LOAD'', es_vaddr = vaddr, es_size = sz,
     es_file_size = file_size, es_flags = flags, es_name = name\<rparr>"

definition make_simple :: "string \<Rightarrow> int \<Rightarrow> fake_elf" where
  "make_simple name base = \<lparr>elf_name = name, elf_entry = base,
     elf_segments = [pt_load base 0x1000 0x1000 ''r-x'' ''text'',
                     pt_load (base + 0x200000) 0x1000 0x800 ''rw-'' ''data'',
                     pt_load (base + 0x201000) 0x1000 0 ''rw-'' ''bss''],
     elf_interpreter = ''/lib64/ld-linux-x86-64.so.2'', elf_arch = ''x86_64''\<rparr>"

definition map_segment :: "int \<Rightarrow> elf_segment \<Rightarrow> vmm \<Rightarrow> vmm" where
  "map_segment pid seg v =
     snd (map_pages pid (es_vaddr seg) (es_size seg) (VStr (es_flags seg)) (VStr (''['' @ es_name seg @ '']'')) v)"

definition elf_load :: "fake_elf \<Rightarrow> int \<Rightarrow> vmm \<Rightarrow> int \<times> vmm" where
  "elf_load elf pid v =
     (case map_of (address_spaces v) pid of
        None \<Rightarrow> (- 1, v)
      | Some _ \<Rightarrow>
          (let v1 = fold (map_segment pid) (elf_segments elf) v;
               v2 = snd (map_pages pid 0x00007fff00000000 0x100000 (VStr ''rw-'') (VStr ''[stack]'') v1)
           in (elf_entry elf, v2)))"

section \<open>Loading segments\<close>

definition segment_area :: "elf_segment \<Rightarrow> vma" where
  "segment_area seg = \<lparr>vma_start = es_vaddr seg, vma_end = es_vaddr seg + es_size seg,
     vma_flags = VStr (es_flags seg), vma_name = VStr (''['' @ es_name seg @ '']'')\<rparr>"

definition stack_area :: vma where
  "stack_area = \<lparr>vma_start = 0x00007fff00000000, vma_end = 0x00007fff00100000,
     vma_flags = VStr ''rw-'', vma_name = VStr ''[stack]''\<rparr>"

lemma vmm_wf_segments: "vmm_wf v \<Longrightarrow> vmm_wf (fold (map_segment pid) segs v)"
  by (induction segs arbitrary: v) (auto simp: map_segment_def)

lemma segments_other:
  "q \<noteq> pid \<Longrightarrow> map_of (address_spaces (fold (map_segment pid) segs v)) q = map_of (address_spaces v) q"
  by (induction segs arbitrary: v) (auto simp: map_segment_def map_pages_other)

lemma map_pages_effect:
  assumes "vmm_wf v" "map_of (address_spaces v) pid = Some s" "0 < sz" "pages_needed sz \<le> free_pages (vmm_pmm v)"
  shows "map_of (address_spaces (snd (map_pages pid a sz fl nm v))) pid = Some (as_map a sz fl nm s)"
    "free_pages (vmm_pmm (snd (map_pages pid a sz fl nm v))) = free_pages (vmm_pmm v) - pages_needed sz"
proof -
  have ok: "pmm_wf (vmm_pmm v)" using assms(1) by (simp add: vmm_wf_def)
  show "map_of (address_spaces (snd (map_pages pid a sz fl nm v))) pid = Some (as_map a sz fl nm s)"
    "free_pages (vmm_pmm (snd (map_pages pid a sz fl nm v))) = free_pages (vmm_pmm v) - pages_needed sz"
    using ps.enough [OF ok, of "pages_needed sz" pid] pages_needed_bounds(3) [of sz] assms(3,4)
    by (auto simp: map_pages_succeeds [OF assms])
qed

lemma segments_effect:
  assumes "vmm_wf v" "map_of (address_spaces v) pid = Some s" "\<forall>g \<in> set segs. 0 < es_size g"
    and "sum_list (map (\<lambda>g. pages_needed (es_size g)) segs) \<le> free_pages (vmm_pmm v)"
  shows "map_of (address_spaces (fold (map_segment pid) segs v)) pid = Some (s\<lparr>areas := areas s @ map segment_area segs\<rparr>)
    \<and> free_pages (vmm_pmm (fold (map_segment pid) segs v))
       = free_pages (vmm_pmm v) - sum_list (map (\<lambda>g. pages_needed (es_size g)) segs)"
  using assms
proof (induction segs arbitrary: v s)
  case (Cons g gs)
  have pos: "0 \<le> sum_list (map (\<lambda>g. pages_needed (es_size g)) gs)"
    using Cons.prems(3) pages_needed_bounds(3) by (intro sum_list_nonneg) (auto simp: less_imp_le)
  then have enough: "pages_needed (es_size g) \<le> free_pages (vmm_pmm v)" using Cons.prems(4) by simp
  have sz: "0 < es_size g" using Cons.prems(3) by simp
  note e = map_pages_effect [OF Cons.prems(1,2) sz enough, of "es_vaddr g" "VStr (es_flags g)" "VStr (''['' @ es_name g @ '']'')"]
  have wf: "vmm_wf (map_segment pid g v)" using Cons.prems(1) by (auto simp: map_segment_def)
  have "map_of (address_spaces (map_segment pid g v)) pid = Some (s\<lparr>areas := areas s @ [segment_area g]\<rparr>)"
    using e(1) by (simp add: map_segment_def as_map_def segment_area_def)
  from Cons.IH [OF wf this] Cons.prems(3,4) e(2) show ?case by (simp add: map_segment_def)
qed simp

section \<open>Properties\<close>



end
