(* ===== verification/Shell_Commands.thy ===== *)
theory Shell_Commands
  imports Kernel Teaching Logger Elf
begin

text \<open>
  \<^verbatim>\<open>shell.py\<close>: the commands of the interactive shell. A command takes its argument text and the kernel and
  returns what it prints, how it ends, and the new kernel.
\<close>

section \<open>Output\<close>

text \<open>
  \<open>Line s\<close> is \<^verbatim>\<open>print(s)\<close>; \<open>Raw b\<close> prints the text decoded from the bytes without a newline; \<open>Stage r\<close> is the
  line of a boot stage, which adds the measured time to the fields of the result; \<open>Help a\<close> is the
  documentation \<^verbatim>\<open>cmd.Cmd\<close> prints, \<open>Clear\<close> the screen cleared by the terminal's program, and \<open>Banner\<close> the
  box the shell starts with.
  A command ends with \<open>Inr True\<close> when it leaves the loop, and with an exception when one escapes it.
\<close>

datatype shell_out = Line string | Raw bytes | Stage boot_result | Help string | Clear | Banner

type_synonym reply = "shell_out list \<times> bool result"

definition say :: "string list \<Rightarrow> reply" where
  "say ls = (map Line ls, Inr False)"

definition followed_by :: "reply \<Rightarrow> reply \<Rightarrow> reply" where
  "followed_by a b = (case snd a of Inl e \<Rightarrow> a | Inr _ \<Rightarrow> (fst a @ fst b, snd b))"

definition say_table :: "string list \<Rightarrow> string list list \<Rightarrow> reply" where
  "say_table headers rows = (case table headers rows None of Inl e \<Rightarrow> ([], Inl e) | Inr t \<Rightarrow> say [t])"

section \<open>Values as text\<close>

definition APOS :: char where "APOS = CHR 0x27"

definition in_quotes :: "string \<Rightarrow> string" where
  "in_quotes s = APOS # s @ [APOS]"

definition py_bool :: "bool \<Rightarrow> string" where
  "py_bool b = (if b then ''True'' else ''False'')"

text \<open>\<^verbatim>\<open>str(v)\<close>; of bytes it is their literal.\<close>

definition byte_repr :: "char \<Rightarrow> byte \<Rightarrow> string" where
  "byte_repr q b =
     (let n = nat (uint b); c = char_of n in
      if n = 92 \<or> c = q then [CHR 0x5C, c]
      else if n = 9 then [CHR 0x5C, CHR ''t''] else if n = 10 then [CHR 0x5C, CHR ''n''] else if n = 13 then [CHR 0x5C, CHR ''r'']
      else if 32 \<le> n \<and> n < 127 then [c]
      else [CHR 0x5C, CHR ''x''] @ hex_pad 2 (int n))"

fun py_str :: "pyval \<Rightarrow> string" where
  "py_str (VInt i) = py_str_int i"
| "py_str (VStr s) = s"
| "py_str (VBytes b) =
     (let q = (if 39 \<in> set b \<and> 34 \<notin> set b then CHR 0x22 else APOS)
      in CHR ''b'' # q # concat (map (byte_repr q) b) @ [q])"

fun state_name :: "task_state \<Rightarrow> string" where
  "state_name NEW = ''NEW''"
| "state_name RUNNABLE = ''RUNNABLE''"
| "state_name RUNNING = ''RUNNING''"
| "state_name SLEEP_INT = ''SLEEP_INT''"
| "state_name SLEEP_UNINT = ''SLEEP_UNINT''"
| "state_name ZOMBIE = ''ZOMBIE''"
| "state_name DEAD = ''DEAD''"

fun class_name :: "device_class \<Rightarrow> string" where
  "class_name device_class.CHAR_DEV = ''CHAR''"
| "class_name BLOCK_DEV = ''BLOCK''"
| "class_name NETWORK = ''NETWORK''"
| "class_name BUS = ''BUS''"
| "class_name PLATFORM = ''PLATFORM''"
| "class_name VIRTUAL = ''VIRTUAL''"
| "class_name INPUT = ''INPUT''"
| "class_name TIMER = ''TIMER''"

fun signal_name :: "signal \<Rightarrow> string" where
  "signal_name SIGHUP = ''SIGHUP''"
| "signal_name SIGTERM = ''SIGTERM''"
| "signal_name SIGKILL = ''SIGKILL''"
| "signal_name SIGCHLD = ''SIGCHLD''"
| "signal_name SIGUSR1 = ''SIGUSR1''"
| "signal_name SIGUSR2 = ''SIGUSR2''"
| "signal_name SIGSEGV = ''SIGSEGV''"
| "signal_name SIGINT = ''SIGINT''"
| "signal_name SIGSTOP = ''SIGSTOP''"

fun fault_text :: "fault \<Rightarrow> string" where
  "fault_text (Fault_no_process pid) = ''#PF: pid='' @ py_str_int pid @ '' not found -> unhandled fault''"
| "fault_text (Fault_no_vma pid addr) = ''#PF: pid='' @ py_str_int pid @ '' addr='' @ hex_addr addr
     @ '' -> no VMA found -> would deliver SIGSEGV (segmentation fault)''"
| "fault_text (Fault_protection pid addr name) = ''#PF: pid='' @ py_str_int pid @ '' addr='' @ hex_addr addr
     @ '' write to read-only VMA '' @ in_quotes (py_str name) @ '' -> protection fault -> SIGSEGV''"
| "fault_text (Fault_satisfied pid addr name flags) = ''#PF: pid='' @ py_str_int pid @ '' addr='' @ hex_addr addr
     @ '' in VMA '' @ in_quotes (py_str name) @ '' flags='' @ py_str flags @ '' -> demand page satisfied (simulated alloc)''"

definition or_none :: "string list \<Rightarrow> string" where
  "or_none xs = (let s = join_with '', '' xs in if s = [] then ''(none)'' else s)"

section \<open>Access to the kernel\<close>

type_synonym command = "string \<Rightarrow> kernel \<Rightarrow> reply \<times> kernel"

text \<open>A command that needs a subsystem prints a message before the kernel is initialised.\<close>

definition inspect :: "string \<Rightarrow> (core \<Rightarrow> reply) \<Rightarrow> kernel \<Rightarrow> reply \<times> kernel" where
  "inspect msg f k = ((case k_core k of None \<Rightarrow> say [msg] | Some c \<Rightarrow> f c), k)"

definition update :: "string \<Rightarrow> (core \<Rightarrow> reply \<times> core) \<Rightarrow> kernel \<Rightarrow> reply \<times> kernel" where
  "update msg f k =
     (case k_core k of
        None \<Rightarrow> (say [msg], k)
      | Some c \<Rightarrow> (let (r, d) = f c in (r, k\<lparr>k_core := Some d\<rparr>)))"

definition with_sys :: "(sys \<Rightarrow> sys) \<Rightarrow> core \<Rightarrow> core" where
  "with_sys f c = c\<lparr>c_boot := (c_boot c)\<lparr>b_sys := f (b_sys (c_boot c))\<rparr>\<rparr>"

abbreviation c_vmm :: "core \<Rightarrow> vmm" where "c_vmm c \<equiv> sys_vmm (b_sys (c_boot c))"
abbreviation c_vfs :: "core \<Rightarrow> vfs" where "c_vfs c \<equiv> sys_vfs (b_sys (c_boot c))"
abbreviation c_pt :: "core \<Rightarrow> process_table" where "c_pt c \<equiv> sys_pt (b_sys (c_boot c))"
abbreviation c_sched :: "core \<Rightarrow> sched" where "c_sched c \<equiv> b_sched (c_boot c)"

section \<open>Boot commands\<close>

text \<open>\<^verbatim>\<open>PROFILES.get(name, DEBUG_PROFILE)\<close>: the profiles are objects, and starting the program quietly changes one, so
  the table is an argument. The default is the object the table holds under its own name.\<close>

definition profile_in :: "(string, profile) dict \<Rightarrow> string \<Rightarrow> profile" where
  "profile_in P name =
     (case map_of P name of Some p \<Rightarrow> p | None \<Rightarrow> (case map_of P ''debug'' of Some p \<Rightarrow> p | None \<Rightarrow> DEBUG_PROFILE))"

definition do_boot :: "(string, profile) dict \<Rightarrow> command" where
  "do_boot P txt k =
     (let args = py_words (py_strip txt);
          profile_name = (case args of a # _ \<Rightarrow> a | [] \<Rightarrow> ''debug'');
          profile = profile_in P profile_name
      in if k_booted k then (say [yellow (''Kernel already booted. Use '' @ in_quotes ''reboot'' @ '' to restart.'')], k)
         else (let (ok, k1) = kernel_boot (kernel_init (Some profile) k)
               in (say [bold ([NL] @ ''[BOOT] Starting boot sequence with profile '' @ in_quotes profile_name @ ''...''),
                        if ok then green ([NL] @ ''[BOOT] Boot complete!'') else red ([NL] @ ''[BOOT] Boot FAILED!'')], k1)))"

text \<open>The old power manager is told to reboot, and is then replaced with every other subsystem.\<close>

definition do_reboot :: "(string, profile) dict \<Rightarrow> command" where
  "do_reboot P txt k =
     (let args = py_words (py_strip txt);
          profile_name = (case args of a # _ \<Rightarrow> a | [] \<Rightarrow> pr_name (k_profile k));
          profile = profile_in P profile_name;
          k1 = k\<lparr>k_core := map_option (\<lambda>c. c\<lparr>c_power := pw_reboot (c_power c)\<rparr>) (k_core k)\<rparr>;
          k2 = kernel_start profile
      in (say [yellow ''Simulating reboot...'', green ''Reboot complete.''], k2))"

definition do_step :: command where
  "do_step txt k =
     (if k_core k = None then (say [''Run '' @ in_quotes ''boot'' @ '' first, or use '' @ in_quotes ''boot'' @ '' which runs all stages.''], k)
      else (case kernel_boot_step k of
              (None, k1) \<Rightarrow> (say [green ''All boot stages complete.''], k1)
            | (Some r, k1) \<Rightarrow> (([Stage r], Inr False), k1)))"

section \<open>Status commands\<close>

definition do_status :: command where
  "do_status txt k =
     (if k_core k = None then (say [''Kernel not initialized. Run '' @ in_quotes ''boot'' @ '' first.''], k)
      else (let s = kernel_status k
            in (say_table [''Key'', ''Value'']
                  [[''booted'', py_bool (ks_booted s)], [''profile'', ks_profile s], [''safe_mode'', py_bool (ks_safe_mode s)],
                   [''processes'', py_str_int (ks_processes s)], [''threads'', py_str_int (ks_threads s)],
                   [''free_pages'', py_str_int (ks_free_pages s)], [''total_pages'', py_str_int (ks_total_pages s)],
                   [''scheduler_ticks'', py_str_int (ks_ticks s)], [''modules_loaded'', py_str_int (ks_modules s)]], k)))"

definition do_ps :: command where
  "do_ps txt k = inspect ''Process table not initialized.''
     (\<lambda>c. let procs = pt_all (c_pt c) in
        if procs = [] then say [''No processes.'']
        else say_table [''PID'', ''PPID'', ''NAME'', ''STATE'', ''UID'', ''CMDLINE'']
          (map (\<lambda>p. [py_str_int (p_pid p), py_str_int (p_ppid p), p_name p, state_name (p_state p), py_str_int (cr_uid (p_creds p)),
             if truthy (p_cmdline p) then py_str (p_cmdline p) else []]) procs)) k"

definition do_threads :: command where
  "do_threads txt k = inspect ''Thread table not initialized.''
     (\<lambda>c. let threads = map (obj (c_sched c)) (tt_all (c_sched c)) in
        if threads = [] then say [''No threads.'']
        else say_table [''TID'', ''PID'', ''NAME'', ''STATE'', ''TYPE'', ''TICKS'']
          (map (\<lambda>t. [py_str_int (t_tid t), py_str_int (t_pid t), t_name t, state_name (t_state t),
             if t_kernel t then ''K'' else ''U'', py_str_int (t_remaining t)]) threads)) k"

definition do_sched :: command where
  "do_sched txt k = inspect ''Scheduler not initialized.''
     (\<lambda>c. let s = sched_status (c_sched c) in
        say ([''  Tick count:       '' @ py_str_int (ss_tick_count s), ''  Context switches: '' @ py_str_int (ss_context_switches s),
              ''  Current thread:   '' @ ss_current_thread s, ''  Runqueue length:  '' @ py_str_int (ss_runqueue_length s)]
           @ (if ss_runqueue s \<noteq> [] then [''  Runqueue:         '' @ join_with '', '' (ss_runqueue s)] else [])
           @ (if ss_blocked s \<noteq> [] then [''  Blocked:          '' @ join_with '', '' (ss_blocked s)] else []))) k"

definition do_tick :: command where
  "do_tick txt k = update ''Scheduler not initialized.''
     (\<lambda>c. case (if py_strip txt \<noteq> [] then parse_int 10 (py_strip txt) else Some 1) of
         None \<Rightarrow> (say [''Usage: tick [N]''], c)
       | Some n \<Rightarrow>
          (let t = tick_n n (c_sched c); s = sched_status t
           in (say [''Advanced '' @ py_str_int n @ '' tick(s). Total ticks: '' @ py_str_int (ss_tick_count s),
                    ''  Current: '' @ ss_current_thread s], c\<lparr>c_boot := (c_boot c)\<lparr>b_sched := t\<rparr>\<rparr>))) k"

definition do_mem :: command where
  "do_mem txt k = inspect ''Memory manager not initialized.''
     (\<lambda>c. let s = stats (vmm_pmm (c_vmm c)); u = usage (b_kmalloc (c_boot c)) in
        say [bold ''Physical Memory:'', ''  Total pages:   '' @ py_str_int (st_total_pages s),
             ''  Free pages:    '' @ py_str_int (st_free_pages s), ''  Used pages:    '' @ py_str_int (st_used_pages s),
             ''  Total:         '' @ size_fmt (st_total_bytes s), ''  Free:          '' @ size_fmt (st_free_bytes s),
             bold ''Kernel Allocator (kmalloc):'', ''  Allocations:   '' @ py_str_int (us_allocations u),
             ''  Bytes:         '' @ size_fmt (us_bytes u), ''  Next addr:     '' @ us_next_addr u]) k"

definition show_space :: "vmm \<Rightarrow> int \<Rightarrow> reply" where
  "show_space v pid =
     (case map_of (address_spaces v) pid of
        None \<Rightarrow> say [''No address space for pid='' @ py_str_int pid]
      | Some s \<Rightarrow>
          (let rows = map (\<lambda>a. [hex_addr (vma_start a), hex_addr (vma_end a), py_str (vma_flags a), size_fmt (vma_size a),
                 py_str (vma_name a)]) (areas s)
           in followed_by (say [bold ([NL] @ ''PID '' @ py_str_int pid @ '' address space:'')])
                (if rows \<noteq> [] then say_table [''START'', ''END'', ''FLAGS'', ''SIZE'', ''NAME''] rows else say [''  (empty)''])))"

definition do_vmm :: command where
  "do_vmm txt k = inspect ''VMM not initialized.''
     (\<lambda>c. case (if py_strip txt \<noteq> [] then map_option (\<lambda>pid. [pid]) (parse_int 10 (py_strip txt))
                 else Some (map fst (address_spaces (c_vmm c)))) of
         None \<Rightarrow> say [''Usage: vmm [pid]'']
       | Some pids \<Rightarrow> foldl (\<lambda>r pid. followed_by r (show_space (c_vmm c) pid)) (say []) pids) k"

definition do_pagefault :: command where
  "do_pagefault txt k =
     (let args = py_words (py_strip txt); use = say [''Usage: pagefault <pid> <addr_hex> [write]''] in
      if length args < 2 then (use, k)
      else inspect ''VMM not initialized.''
        (\<lambda>c. case (parse_int 10 (args ! 0), parse_int 16 (args ! 1)) of
            (Some pid, Some addr) \<Rightarrow>
              (let wr = (2 < length args \<and> py_lower (args ! 2) \<in> {''write'', ''w'', ''1'', ''true''})
               in case simulate_page_fault pid addr wr (c_vmm c) of
                    Inl e \<Rightarrow> ([], Inl e)
                  | Inr f \<Rightarrow> say [fault_text f])
          | _ \<Rightarrow> use) k)"

section \<open>Logs, devices, drivers and modules\<close>

text \<open>The kernel log is an argument: its contents are what the operations reported, which the model leaves out.\<close>

definition level_map :: "(string, log_level) dict" where
  "level_map = [(''debug'', DEBUG), (''info'', INFO), (''warn'', WARN), (''error'', ERROR), (''panic'', PANIC)]"

definition do_dmesg :: "kernel_logger \<Rightarrow> command" where
  "do_dmesg lg txt k =
     (let level = (case map_of level_map (py_lower (py_strip txt)) of Some l \<Rightarrow> l | None \<Rightarrow> DEBUG);
          out = dump level lg
      in (say [if out \<noteq> [] then out else ''(no log entries)''], k))"

definition do_lsdev :: command where
  "do_lsdev txt k = inspect ''Device registry not initialized.''
     (\<lambda>c. let devices = dev_list_all (snd (b_devices (c_boot c))) in
        if devices = [] then say [''No devices.'']
        else say_table [''NAME'', ''CLASS'', ''MAJOR'', ''MINOR'', ''DRIVER'', ''DESCRIPTION'']
          (map (\<lambda>d. [dv_name d, class_name (dv_class d), py_str_int (dv_major d), py_str_int (dv_minor d),
             if dv_bound d \<noteq> [] then dv_bound d else ''(none)'', dv_description d]) devices)) k"

definition do_lsdrv :: command where
  "do_lsdrv txt k = inspect ''Driver registry not initialized.''
     (\<lambda>c. let drivers = drv_list_all (fst (b_devices (c_boot c))) in
        if drivers = [] then say [''No drivers.'']
        else say_table [''NAME'', ''STATE'', ''BOUND DEVICES'', ''DESCRIPTION'']
          (map (\<lambda>d. [dr_name d, if dr_loaded d then ''loaded'' else ''unloaded'', or_none (dr_bound d), dr_description d]) drivers)) k"

definition do_lsmod :: command where
  "do_lsmod txt k = inspect ''Module loader not initialized.''
     (\<lambda>c. let loaded = list_loaded (c_modules c); avail = list_available (c_modules c) in
        followed_by (say [''Loaded modules ('' @ py_str_int (int (length loaded)) @ '' / '' @ py_str_int (int (length avail)) @ '' available):''])
          (say_table [''NAME'', ''VERSION'', ''STATE'', ''DEPS'', ''DESCRIPTION'']
             (map (\<lambda>m. [m_name m, m_version m, if m_loaded m then ''LOADED'' else ''available'', or_none (m_deps m), m_description m]) avail))) k"

definition do_insmod :: command where
  "do_insmod txt k =
     (let name = py_strip txt in
      if name = [] then (say [''Usage: insmod <name>''], k)
      else update ''Module loader not initialized.''
        (\<lambda>c. let (ok, l) = ml_load name (c_modules c)
              in (say [if ok then green (''Module '' @ in_quotes name @ '' loaded.'')
                       else red (''Failed to load module '' @ in_quotes name @ ''.'')], c\<lparr>c_modules := l\<rparr>)) k)"

definition do_rmmod :: command where
  "do_rmmod txt k =
     (let name = py_strip txt in
      if name = [] then (say [''Usage: rmmod <name>''], k)
      else update ''Module loader not initialized.''
        (\<lambda>c. let (ok, l) = ml_unload name (c_modules c)
              in (say [if ok then green (''Module '' @ in_quotes name @ '' unloaded.'')
                       else red (''Failed to unload module '' @ in_quotes name @ ''.'')], c\<lparr>c_modules := l\<rparr>)) k)"

section \<open>Files\<close>

definition vfs_usage :: reply where
  "vfs_usage = say [''Usage: vfs ls <path> | vfs cat <path> | vfs mounts'']"

definition with_vfs :: "vfs \<Rightarrow> core \<Rightarrow> core" where
  "with_vfs v = with_sys (\<lambda>s. s\<lparr>sys_vfs := v\<rparr>)"

text \<open>\<^verbatim>\<open>readdir\<close> returns a list for every path, so the message for a missing directory is never printed; and
  \<^verbatim>\<open>write_path\<close> returns a number, which is never \<^verbatim>\<open>False\<close>.\<close>

definition vfs_command :: "string \<Rightarrow> string \<Rightarrow> core \<Rightarrow> reply \<times> core" where
  "vfs_command name path c =
     (let v = c_vfs c in
      if name = ''mounts''
      then (say_table [''TARGET'', ''FSTYPE'', ''SOURCE''] (map (\<lambda>m. [mi_mountpoint m, mi_fstype m, mi_source m]) (vfs_mounts_info v)), c)
      else if name = ''ls''
      then (say (map (\<lambda>(n, ino). ''  '' @ ljust 30 n @ '' (ino='' @ py_str_int ino @ '')'') (vfs_readdir path v)), c)
      else if name = ''cat''
      then (case read_path path 4096 v of
              None \<Rightarrow> (say [''cat: '' @ path @ '': No such file or directory''], c)
            | Some data \<Rightarrow> (([Raw data], Inr False), c))
      else if name = ''mkdir''
      then (let (ok, v1) = vfs_mkdir path v
            in (say [if ok then green (''mkdir: created '' @ in_quotes path) else red (''mkdir: cannot create '' @ in_quotes path)], with_vfs v1 c))
      else if name = ''write''
      then (case split_once CHR '' '' path of
              [fpath, content] \<Rightarrow>
                (let (n, v1) = write_path fpath (py_encode content) v
                 in (say [green (''Wrote '' @ py_str_int (int (length content)) @ '' bytes to '' @ in_quotes fpath)], with_vfs v1 c))
            | _ \<Rightarrow> (say [''Usage: vfs write <path> <data>''], c))
      else (say [''Usage: vfs ls <path> | vfs cat <path> | vfs mounts | vfs mkdir <path>''], c))"

definition do_vfs :: command where
  "do_vfs txt k =
     (case py_split_first (py_strip txt) of
        [] \<Rightarrow> (vfs_usage, k)
      | name # rest \<Rightarrow>
          update ''VFS not initialized.'' (vfs_command name (case rest of p # _ \<Rightarrow> py_strip p | [] \<Rightarrow> ''/'')) k)"

section \<open>System calls and signals\<close>

text \<open>The command builds a dispatcher of its own, whose program breaks start empty and are dropped with it. The
  arguments of the call stay strings.\<close>

definition shell_syscall :: "int \<Rightarrow> int \<Rightarrow> string list \<Rightarrow> sys \<Rightarrow> int result \<times> sys" where
  "shell_syscall pid nr extra s =
     (let (r, s1) = sys_dispatch pid nr (map VStr extra) (s\<lparr>sys_brk := []\<rparr>)
      in (r, s1\<lparr>sys_brk := sys_brk s\<rparr>))"

definition do_syscall :: command where
  "do_syscall txt k =
     (let args = py_words (py_strip txt) in
      if length args < 2 then (say [''Usage: syscall <pid> <nr> [args...]''], k)
      else (case (parse_int 10 (args ! 0), parse_int 10 (args ! 1)) of
              (Some pid, Some nr) \<Rightarrow>
                update ''Process table not initialized.''
                  (\<lambda>c. let (r, s1) = shell_syscall pid nr (drop 2 args) (b_sys (c_boot c))
                        in (case r of
                              Inl e \<Rightarrow> ([], Inl e)
                            | Inr n \<Rightarrow> say [(if 0 \<le> n then green else red)
                                (''syscall(pid='' @ py_str_int pid @ '', nr='' @ py_str_int nr @ '') = '' @ py_str_int n)],
                            with_sys (\<lambda>_. s1) c)) k
            | _ \<Rightarrow> (say [''pid and nr must be integers''], k)))"

definition signal_named :: "string \<Rightarrow> signal option" where
  "signal_named n = find (\<lambda>g. signal_name g = n) all_signals"

definition do_signal :: command where
  "do_signal txt k =
     (let args = py_words (py_strip txt) in
      if length args < 2 then (say [''Usage: signal <pid> <signame>''], k)
      else update ''IPC not initialized.''
        (\<lambda>c. case parse_int 10 (args ! 0) of
            None \<Rightarrow> (say [''pid must be an integer''], c)
          | Some pid \<Rightarrow>
             (let u = py_upper (args ! 1); name = (if py_startswith u ''SIG'' then u else ''SIG'' @ u) in
              case signal_named name of
                None \<Rightarrow> (say [''Unknown signal: '' @ args ! 1], c)
              | Some g \<Rightarrow>
                 (let (ok, m) = send_signal pid g (c_ipc c)
                  in (say [if ok then green (''Signal '' @ signal_name g @ '' sent to pid='' @ py_str_int pid)
                           else red (''Failed to send signal to pid='' @ py_str_int pid)], c\<lparr>c_ipc := m\<rparr>)))) k)"

section \<open>Power, safe mode and hardware\<close>

definition do_power :: "(string, profile) dict \<Rightarrow> command" where
  "do_power P txt k =
     (let name = py_lower (py_strip txt); msg = ''Power manager not initialized.'' in
      if k_core k = None then (say [msg], k)
      else if name = ''shutdown''
      then update msg (\<lambda>c. (say [yellow (''System shutting down (simulated). Type '' @ in_quotes ''reboot'' @ '' to restart.'')],
             c\<lparr>c_power := pw_shutdown (c_power c)\<rparr>)) k
      else if name = ''suspend''
      then update msg (\<lambda>c. (say [yellow (''System suspended (S3). Type '' @ in_quotes ''power resume'' @ '' to wake.'')],
             c\<lparr>c_power := pw_suspend (c_power c)\<rparr>)) k
      else if name = ''resume''
      then update msg (\<lambda>c. (say [green ''System resumed.''], c\<lparr>c_power := pw_resume (c_power c)\<rparr>)) k
      else if name = ''reboot'' then do_reboot P [] k
      else if name = ''status''
      then inspect msg (\<lambda>c. let s = pw_status (c_power c) in
             say [''  Power state: '' @ ps_current s @ '' ('' @ ps_name s @ '')'', ''  Transitions: '' @ py_str_int (ps_transitions s)]) k
      else (say [''Usage: power <shutdown|suspend|resume|reboot|status>''], k))"

definition do_safemode :: command where
  "do_safemode txt k = inspect ''Safe mode not initialized.''
     (\<lambda>c. let r = sm_report (c_safe c) in
        say_table [''Setting'', ''Value'']
          [[''active'', py_bool (sr_active r)], [''profile'', sr_profile r], [''modules_enabled'', py_bool (sr_modules_enabled r)],
           [''non_essential_drivers'', py_bool (sr_non_essential_drivers r)], [''description'', sr_description r]]) k"

text \<open>\<^verbatim>\<open>str\<close> of a dictionary of flags and of a list of names.\<close>

definition dict_repr :: "(string \<times> bool) list \<Rightarrow> string" where
  "dict_repr d = ''{'' @ join_with '', '' (map (\<lambda>(n, b). in_quotes n @ '': '' @ py_bool b) d) @ ''}''"

definition list_repr :: "string list \<Rightarrow> string" where
  "list_repr xs = ''['' @ join_with '', '' (map in_quotes xs) @ '']''"

definition do_arch :: command where
  "do_arch txt k = inspect ''Arch layer not initialized.''
     (\<lambda>c. let i = get_cpu_info (b_arch (c_boot c)) in
        say_table [''Property'', ''Value'']
          [[''arch'', ci_arch i], [''cores'', py_str_int (ci_cores i)], [''threads'', py_str_int (ci_threads i)],
           [''features'', dict_repr (ci_features i)], [''privilege_rings'', list_repr (ci_rings i)],
           [''kernel_ring'', ci_kernel_ring i], [''user_ring'', ci_user_ring i], [''long_mode'', py_bool (ci_long_mode i)],
           [''page_table_levels'', py_str_int (ci_levels i)]]) k"

definition do_ext2 :: command where
  "do_ext2 txt k =
     (let absent = (case k_core k of
              None \<Rightarrow> False
            | Some c \<Rightarrow> \<not> list_ex (\<lambda>m. m_name m = ''ext2'' \<and> m_loaded m) (list_loaded (c_modules c)));
          i = superblock_info (ex_init ''edu-vol'')
      in (followed_by
            (say ((if absent then [yellow (''ext2 module not loaded. Run '' @ in_quotes ''insmod ext2'' @ '' first.''),
                                   ''Showing ext2 concept anyway (educational simulator):''] else [])
                  @ [bold ''Ext2 Superblock Info (simulated volume):'']))
            (say_table [''Field'', ''Value'']
               [[''magic'', ei_magic i], [''volume_name'', ei_volume_name i], [''block_size'', py_str_int (ei_block_size i)],
                [''total_inodes'', py_str_int (ei_total_inodes i)], [''free_inodes'', py_str_int (ei_free_inodes i)],
                [''total_blocks'', py_str_int (ei_total_blocks i)], [''free_blocks'', py_str_int (ei_free_blocks i)],
                [''block_groups'', py_str_int (ei_block_groups i)]]), k))"

definition describe_elf :: "fake_elf \<Rightarrow> reply" where
  "describe_elf elf =
     followed_by
       (say [bold (''ELF binary: '' @ in_quotes (elf_name elf) @ '' (simulated)''), ''  Architecture: '' @ elf_arch elf,
             ''  Entry point:  '' @ hex_addr (elf_entry elf), ''  Interpreter:  '' @ elf_interpreter elf, []])
       (say_table [''TYPE'', ''VADDR'', ''SIZE'', ''FLAGS'', ''NAME'']
          (map (\<lambda>s. [es_type s, hex_addr (es_vaddr s), size_fmt (es_size s), es_flags s, es_name s]) (elf_segments elf)))"

definition do_elf :: command where
  "do_elf txt k =
     (let name = (if py_strip txt \<noteq> [] then py_strip txt else ''hello'');
          elf = make_simple name 0x400000;
          shown = describe_elf elf
      in case snd shown of
           Inl _ \<Rightarrow> (shown, k)
         | Inr _ \<Rightarrow>
            (case k_core k of
               None \<Rightarrow> (shown, k)
             | Some c \<Rightarrow>
                (let procs = pt_all (c_pt c) in
                 if procs = [] then (shown, k)
                 else (let pid = p_pid (last procs); (entry, v) = elf_load elf pid (c_vmm c)
                       in (followed_by shown (say (if 0 < entry
                             then [green ([NL] @ ''ELF loaded for pid='' @ py_str_int pid @ '', entry='' @ hex_addr entry)] else [])),
                           k\<lparr>k_core := Some (with_sys (\<lambda>s. s\<lparr>sys_vmm := v\<rparr>) c)\<rparr>)))))"

definition pipe_message :: bytes where
  "pipe_message = py_encode (''Hello from the write end of the pipe!'' @ [NL])"

definition do_pipe :: command where
  "do_pipe txt k = update ''IPC not initialized.''
     (\<lambda>c. let (ref, m) = create_pipe (c_ipc c);
              (n, p1) = pipe_write pipe_message (ipc_objs m ! ref);
              (data, p2) = pipe_read n p1
          in (([Line (''Pipe created: read_fd='' @ py_str_int (pipe_read_fd p2) @ '' write_fd='' @ py_str_int (pipe_write_fd p2)),
                Line (''Wrote '' @ py_str_int n @ '' bytes to pipe''), Raw (py_encode ''Read from pipe: '' @ data),
                Line (''Pipe buffer available: '' @ py_str_int (available p2) @ '' bytes'')], Inr False),
              c\<lparr>c_ipc := m\<lparr>ipc_objs := (ipc_objs m)[ref := p2]\<rparr>\<rparr>)) k"

section \<open>Teaching and texts\<close>

definition do_roadmap :: command where
  "do_roadmap txt k = (say [format_roadmap], k)"

definition netinfo_text :: string where
  "netinfo_text = py_join NL
    [[],
     ''ComputeKERNEL Networking Status'',
     ''================================'',
     ''Networking (TCP/IP stack, NIC drivers, SSH daemon) is NOT yet implemented'',
     ''in either the real ComputeKERNEL C kernel or this Python simulator.'',
     [],
     ''This is on the roadmap. Run '' @ [APOS] @ ''roadmap'' @ [APOS] @ '' to see planned features.'',
     [],
     ''What IS planned:'',
     ''  - TCP/IP stack (lwIP-based or custom)'',
     ''  - Network device driver framework (virtio-net, e1000)'',
     ''  - SSH daemon (in-kernel)'',
     ''  - Socket API (socket, bind, listen, accept, connect, send, recv)'',
     []]"

definition do_netinfo :: command where
  "do_netinfo txt k = (say [yellow netinfo_text], k)"

definition do_teach :: "topics \<Rightarrow> command" where
  "do_teach T txt k =
     (let topic = py_strip txt
      in (if topic = [] then say [''Usage: teach <topic>'', ''Run '' @ in_quotes ''topics'' @ '' to see available topics.'']
          else say [explain T topic], k))"

definition do_topics :: "topics \<Rightarrow> command" where
  "do_topics T txt k =
     (let ts = list_topics T
      in (say ([bold ''Available teaching topics:'']
               @ map2 (\<lambda>i t. ''  '' @ rjust 2 (py_str_int (int i)) @ ''. '' @ t) [1..<Suc (length ts)] ts
               @ [[NL] @ ''Use: teach <topic>'']), k))"

definition do_search :: "topics \<Rightarrow> command" where
  "do_search T txt k =
     (let kw = py_strip txt; results = search T kw
      in (if kw = [] then say [''Usage: search <keyword>'']
          else if results \<noteq> [] then say ((''Topics matching '' @ in_quotes kw @ '':'') # map (\<lambda>t. ''  - '' @ t) results)
          else say [''No topics found for '' @ in_quotes kw], k))"

definition disclaimer :: string where
  "disclaimer = ''EDUCATIONAL SIMULATOR: Runs in Python userspace. Does not execute privileged instructions or boot on hardware.''"

definition do_disclaimer :: command where
  "do_disclaimer txt k =
     (let rule = replicate 70 CHR ''=''
      in (say [bold ([NL] @ rule), bold ''IMPORTANT DISCLAIMER'', rule, disclaimer, [],
               ''This simulator is for EDUCATIONAL PURPOSES ONLY.'', ''It runs entirely in Python userspace.'',
               ''No privileged CPU instructions are executed.'', ''No hardware is accessed or modified.'', rule @ [NL]], k))"

section \<open>Profiles, screen and exit\<close>

definition do_profile :: "(string, profile) dict \<Rightarrow> command" where
  "do_profile P txt k =
     (let name = py_strip txt; p = k_profile k in
      (if name \<noteq> []
       then (if map_of P name = None
             then say [''Unknown profile '' @ in_quotes name @ ''. Available: '' @ join_with '', '' (map fst P)]
             else say [yellow ''Note: profile change takes effect on next boot.'', ''Use: reboot '' @ name])
       else followed_by (say [''Current profile: '' @ bold (pr_name p), ''Description: '' @ pr_description p])
              (say_table [''Setting'', ''Value'']
                 [[''serial_log'', py_bool (pr_serial_log p)], [''modules_enabled'', py_bool (pr_modules_enabled p)],
                  [''non_essential_drivers'', py_bool (pr_non_essential_drivers p)], [''debug_symbols'', py_bool (pr_debug_symbols p)],
                  [''kmalloc_debug'', py_bool (pr_kmalloc_debug p)], [''scheduler_debug'', py_bool (pr_scheduler_debug p)],
                  [''aslr'', py_bool (pr_aslr p)], [''nx_enforcement'', py_bool (pr_nx_enforcement p)],
                  [''smep'', py_bool (pr_smep p)], [''smap'', py_bool (pr_smap p)]]), k))"

definition do_clear :: command where
  "do_clear txt k = (([Clear], Inr False), k)"

definition do_exit :: command where
  "do_exit txt k = (([Line (Text_Tools.dim ''Shutting down ComputeKERNEL-Edu simulator...'')], Inr True), k)"

definition do_quit :: command where
  "do_quit txt k = do_exit txt k"

definition do_EOF :: command where
  "do_EOF txt k = (let (r, k1) = do_exit txt k in (followed_by (say [[]]) r, k1))"

definition emptyline :: "kernel \<Rightarrow> reply \<times> kernel" where
  "emptyline k = (say [], k)"

definition default_line :: command where
  "default_line line k =
     (case py_words line of
        [] \<Rightarrow> (([], Inl IndexError), k)
      | w # _ \<Rightarrow> (say [red (''Unknown command: '' @ in_quotes w @ ''  (type '' @ in_quotes ''help'' @ '' for commands)'')], k))"

end
