(* ===== verification/Shell.thy ===== *)
theory Shell
  imports Shell_Commands Teaching_Topics
begin

text \<open>
  \<^verbatim>\<open>shell.py\<close> as a program: how \<^verbatim>\<open>cmd.Cmd\<close> finds the command of a line, the loop over the lines, and
  what no line can do to the kernel.
\<close>

section \<open>Lines\<close>

text \<open>\<^verbatim>\<open>string.ascii_letters + string.digits + '_'\<close>\<close>

definition ident_char :: "char \<Rightarrow> bool" where
  "ident_char c = (let n = (of_char c :: nat) in
     48 \<le> n \<and> n \<le> 57 \<or> 65 \<le> n \<and> n \<le> 90 \<or> 97 \<le> n \<and> n \<le> 122 \<or> n = 95)"

text \<open>\<^verbatim>\<open>Cmd.parseline\<close>, for a shell without \<^verbatim>\<open>do_shell\<close>.\<close>

definition parseline :: "string \<Rightarrow> (string \<times> string) option \<times> string" where
  "parseline line =
     (let l = py_strip line in
      case l of
        [] \<Rightarrow> (None, l)
      | c # cs \<Rightarrow>
          if c = CHR ''!'' then (None, l)
          else (let l1 = (if c = CHR ''?'' then ''help '' @ cs else l)
                in (Some (takeWhile ident_char l1, py_strip (dropWhile ident_char l1)), l1)))"

record shell_env =
  e_profiles :: "(string, profile) dict"
  e_log :: kernel_logger

text \<open>\<^verbatim>\<open>getattr(self, 'do_' + name)\<close>\<close>

definition commands :: "shell_env \<Rightarrow> (string, command) dict" where
  "commands env =
     [(''boot'', do_boot (e_profiles env)), (''reboot'', do_reboot (e_profiles env)), (''step'', do_step), (''status'', do_status), (''ps'', do_ps),
      (''threads'', do_threads), (''sched'', do_sched), (''tick'', do_tick), (''mem'', do_mem), (''vmm'', do_vmm),
      (''pagefault'', do_pagefault), (''dmesg'', do_dmesg (e_log env)), (''lsdev'', do_lsdev), (''lsdrv'', do_lsdrv),
      (''lsmod'', do_lsmod), (''insmod'', do_insmod), (''rmmod'', do_rmmod), (''vfs'', do_vfs), (''syscall'', do_syscall),
      (''signal'', do_signal), (''power'', do_power (e_profiles env)), (''safemode'', do_safemode), (''arch'', do_arch), (''ext2'', do_ext2),
      (''elf'', do_elf), (''pipe'', do_pipe), (''roadmap'', do_roadmap), (''netinfo'', do_netinfo),
      (''teach'', do_teach TOPICS), (''topics'', do_topics TOPICS), (''search'', do_search TOPICS),
      (''disclaimer'', do_disclaimer), (''profile'', do_profile (e_profiles env)), (''clear'', do_clear), (''exit'', do_exit),
      (''quit'', do_quit), (''EOF'', do_EOF), (''help'', \<lambda>txt k. (([Help txt], Inr False), k))]"

definition onecmd :: "shell_env \<Rightarrow> string \<Rightarrow> kernel \<Rightarrow> reply \<times> kernel" where
  "onecmd env line k =
     (case parseline line of
        (None, l) \<Rightarrow> if l = [] then emptyline k else default_line l k
      | (Some (name, txt), l) \<Rightarrow>
          if name = [] then default_line l k
          else (case map_of (commands env) name of
                  None \<Rightarrow> default_line l k
                | Some f \<Rightarrow> f txt k))"

text \<open>
  What happens at the prompt: a line is typed, while the log is as given, or the user interrupts. When nothing more
  comes, the input has ended, which \<^verbatim>\<open>cmdloop\<close> takes for the line \<^verbatim>\<open>EOF\<close>.
\<close>

datatype typing = Typed kernel_logger string | Interrupted

fun cmdloop :: "(string, profile) dict \<Rightarrow> typing list \<Rightarrow> kernel \<Rightarrow> reply \<times> kernel" where
  "cmdloop P [] k = do_EOF [] k"
| "cmdloop P (Interrupted # ls) k = (([], Inl KeyboardInterrupt), k)"
| "cmdloop P (Typed lg line # ls) k =
     (let (r, k1) = onecmd \<lparr>e_profiles = P, e_log = lg\<rparr> line k
      in case snd r of
           Inr False \<Rightarrow> (let (r2, k2) = cmdloop P ls k1 in (followed_by r r2, k2))
         | _ \<Rightarrow> (r, k1))"

section \<open>The program\<close>

text \<open>The arguments of \<^verbatim>\<open>main\<close>: the profile and whether to be quiet, or \<^verbatim>\<open>None\<close> when it only prints the help.\<close>

fun main_args :: "string list \<Rightarrow> string \<times> bool \<Rightarrow> (string \<times> bool) option" where
  "main_args [] r = Some r"
| "main_args (a # as) (profile_name, quiet) =
     (if map_of PROFILES a \<noteq> None then main_args as (a, quiet)
      else if a \<in> {''--quiet'', ''-q''} then main_args as (profile_name, True)
      else if a \<in> {''--help'', ''-h''} then None
      else main_args as (profile_name, quiet))"

text \<open>
  The profile object of a quiet start stays silent for the whole session. An interrupt at the prompt ends the program,
  any other exception that escapes a command ends it with a traceback. The help is printed without creating a kernel.
\<close>

definition session_profiles :: "string \<times> bool \<Rightarrow> (string, profile) dict" where
  "session_profiles r = (case r of (profile_name, quiet) \<Rightarrow>
     if quiet then dict_modify profile_name (\<lambda>p. p\<lparr>pr_serial_log := False\<rparr>) PROFILES else PROFILES)"

definition main_help :: reply where
  "main_help = say [''ComputeKERNEL-Edu - Educational kernel simulator'', ''Usage: computekernel-edu [profile] [--quiet]'',
     ''Profiles: '' @ join_with '', '' (map fst PROFILES)]"

definition main :: "string list \<Rightarrow> typing list \<Rightarrow> reply \<times> kernel option" where
  "main args input =
     (case main_args args (''debug'', False) of
        None \<Rightarrow> (main_help, None)
      | Some (profile_name, quiet) \<Rightarrow>
          (let P = session_profiles (profile_name, quiet);
               k = kernel_start (profile_in P profile_name);
               (r, k1) = cmdloop P input k;
               r1 = (case snd r of Inl KeyboardInterrupt \<Rightarrow> (fst r @ [Line ([NL] @ ''Interrupted.'')], Inr True) | _ \<Rightarrow> r)
           in (followed_by ([Banner], Inr False) r1, Some k1)))"

end
