(* ===== verification/Shell_Safety.thy ===== *)
theory Shell_Safety
  imports Shell
begin

text \<open>
  What no line typed into the shell (\<^verbatim>\<open>shell.py\<close>) can do: break a component, stop the shell by a command other
  than the exits, or change the kernel through a command that only shows it.
\<close>

section \<open>Commands keep the kernel consistent\<close>

definition core_ok :: "profile \<Rightarrow> bool \<Rightarrow> core \<Rightarrow> bool" where
  "core_ok p booted c \<longleftrightarrow> core_inv c \<and> booted = b_booted (c_boot c) \<and> ml_profile (c_modules c) = p \<and> c_safe c = p"

lemma kernel_inv_cases:
  "kernel_inv k \<longleftrightarrow> (case k_core k of None \<Rightarrow> \<not> k_booted k | Some c \<Rightarrow> core_ok (k_profile k) (k_booted k) c)"
  by (simp add: kernel_inv_def core_ok_def split: option.splits)

lemma inspect_same [simp]: "snd (inspect msg f k) = k"
  by (simp add: inspect_def)

lemma kernel_inv_update:
  assumes "kernel_inv k" "\<And>c. core_ok (k_profile k) (k_booted k) c \<Longrightarrow> core_ok (k_profile k) (k_booted k) (snd (f c))"
  shows "kernel_inv (snd (update msg f k))"
  using assms by (cases "k_core k") (auto simp: kernel_inv_cases update_def case_prod_beta Let_def)

lemma core_ok_fields:
  assumes "core_ok p b c"
  shows "sys_inv s \<Longrightarrow> core_ok p b (with_sys (\<lambda>_. s) c)"
    and "sched_inv q \<Longrightarrow> core_ok p b (c\<lparr>c_boot := (c_boot c)\<lparr>b_sched := q\<rparr>\<rparr>)"
    and "modules_ok l \<Longrightarrow> ml_profile l = p \<Longrightarrow> core_ok p b (c\<lparr>c_modules := l\<rparr>)"
    and "ipc_inv m \<Longrightarrow> core_ok p b (c\<lparr>c_ipc := m\<rparr>)"
    and "pw_inv w \<Longrightarrow> core_ok p b (c\<lparr>c_power := w\<rparr>)"
  using assms by (simp_all add: core_ok_def core_inv_def boot_inv_def with_sys_def)

lemma core_ok_parts:
  assumes "core_ok p b c"
  shows "sys_inv (b_sys (c_boot c))" "sched_inv (c_sched c)" "modules_ok (c_modules c)" "ml_profile (c_modules c) = p"
    "ipc_inv (c_ipc c)" "pw_inv (c_power c)"
  using assms by (simp_all add: core_ok_def core_inv_def boot_inv_def)

lemma with_sys_const: "with_sys f c = with_sys (\<lambda>_. f (b_sys (c_boot c))) c"
  by (simp add: with_sys_def)

lemma inv_vfs_command: "core_ok p b c \<Longrightarrow> core_ok p b (snd (vfs_command name path c))"
proof -
  assume ok: "core_ok p b c"
  have v: "core_ok p b (with_vfs (vfs_step e (c_vfs c)) c)" if "\<not> closes e" for e
    using core_ok_fields(1) [OF ok] sys_inv_vfs_ops [OF core_ok_parts(1) [OF ok], of "[e]"] that
    by (simp add: with_vfs_def with_sys_const [of "\<lambda>s. s\<lparr>sys_vfs := _\<rparr>"])
  show ?thesis
    using ok v [of "VMkdir path"] v [of "VWritePath a d" for a d]
    by (auto simp: vfs_command_def Let_def case_prod_beta split: option.splits list.splits)
qed

lemma inv_shell_syscall: "sys_inv s \<Longrightarrow> sys_inv (snd (shell_syscall pid nr extra s))"
proof -
  assume inv: "sys_inv s"
  then have "sys_inv (s\<lparr>sys_brk := []\<rparr>)" by (simp add: sys_inv_def)
  then have "sys_inv (snd (sys_dispatch pid nr (map VStr extra) (s\<lparr>sys_brk := []\<rparr>)))" by (rule inv_dispatch)
  then show ?thesis using inv by (simp add: shell_syscall_def case_prod_beta Let_def sys_inv_def)
qed

lemma inv_do_pipe:
  assumes "ipc_inv m"
  defines "r \<equiv> create_pipe m"
  defines "w \<equiv> pipe_write pipe_message (ipc_objs (snd r) ! fst r)"
  shows "ipc_inv ((snd r)\<lparr>ipc_objs := (ipc_objs (snd r))[fst r := snd (pipe_read (fst w) (snd w))]\<rparr>)"
proof -
  let ?fd = "next_pipe_fd m"
  have fd: "get_pipe ?fd (snd r) = Some (fst r)" "fst r < length (ipc_objs (snd r))"
    by (simp_all add: r_def create_pipe_def get_pipe_def Let_def)
  then have g: "get_pipe ?fd (pipe_at (fst r) f (snd r)) = Some (fst r)" for f by (simp add: get_pipe_def pipe_at_def)
  have "ipc_inv (fold ipc_step [ICreatePipe, IPipe ?fd (PWrite pipe_message), IPipe ?fd (PRead (fst w))] m)"
    by (rule ipcm.inv_run [OF assms(1)])
  then have "ipc_inv (pipe_at (fst r) (pipe_step (PRead (fst w))) (pipe_at (fst r) (pipe_step (PWrite pipe_message)) (snd r)))"
    using fd(1) g by (simp flip: r_def)
  then show ?thesis using fd(2) by (simp add: pipe_at_def w_def)
qed

lemma elf_load_wf: "vmm_wf v \<Longrightarrow> vmm_wf (snd (elf_load elf pid v))"
  by (auto simp: elf_load_def Let_def vmm_wf_segments split: option.splits)

lemma inv_do_boot: "kernel_inv k \<Longrightarrow> kernel_inv (snd (do_boot P txt k))"
  by (simp add: do_boot_def Let_def case_prod_beta kernel_inv_boot kernel_inv_init)

lemma do_reboot_kernel:
  "snd (do_reboot P txt k) = kernel_start (profile_in P (case py_words (py_strip txt) of a # _ \<Rightarrow> a | [] \<Rightarrow> pr_name (k_profile k)))"
  by (simp add: do_reboot_def Let_def)

lemma inv_do_step: "kernel_inv k \<Longrightarrow> kernel_inv (snd (do_step txt k))"
  using kernel_inv_step [of k] by (auto simp: do_step_def split: prod.split option.split)

lemma inv_do_tick: "kernel_inv k \<Longrightarrow> kernel_inv (snd (do_tick txt k))"
  unfolding do_tick_def
  by (erule kernel_inv_update)
     (auto simp: Let_def core_ok_fields(2) core_ok_parts(2) sched_inv_tick_n split: option.split)

lemma inv_do_module:
  "kernel_inv k \<Longrightarrow> kernel_inv (snd (do_insmod txt k))" "kernel_inv k \<Longrightarrow> kernel_inv (snd (do_rmmod txt k))"
proof -
  have p: "ml_profile (snd (ml_load n l)) = ml_profile l" "ml_profile (snd (ml_unload n l)) = ml_profile l" for n l
    by (simp_all add: ml_load_def ml_unload_def split: option.split)
  have ok: "core_ok q b (c\<lparr>c_modules := snd (ml_load n (c_modules c))\<rparr>)" "core_ok q b (c\<lparr>c_modules := snd (ml_unload n (c_modules c))\<rparr>)"
    if "core_ok q b c" for q b c n
    using core_ok_parts(3,4) [OF that] p modules_ok_load modules_ok_unload by (simp_all add: core_ok_fields(3) [OF that])
  show "kernel_inv k \<Longrightarrow> kernel_inv (snd (do_insmod txt k))"
    by (auto simp: do_insmod_def Let_def case_prod_beta ok intro!: kernel_inv_update)
  show "kernel_inv k \<Longrightarrow> kernel_inv (snd (do_rmmod txt k))"
    by (auto simp: do_rmmod_def Let_def case_prod_beta ok intro!: kernel_inv_update)
qed

lemma inv_do_vfs: "kernel_inv k \<Longrightarrow> kernel_inv (snd (do_vfs txt k))"
  by (auto simp: do_vfs_def inv_vfs_command intro!: kernel_inv_update split: list.split)

lemma inv_do_syscall: "kernel_inv k \<Longrightarrow> kernel_inv (snd (do_syscall txt k))"
  by (auto simp: do_syscall_def Let_def case_prod_beta inv_shell_syscall core_ok_fields(1) core_ok_parts(1)
      intro!: kernel_inv_update split: option.split)

lemma inv_do_signal: "kernel_inv k \<Longrightarrow> kernel_inv (snd (do_signal txt k))"
proof -
  have "ipc_inv (snd (send_signal pid g m))" if "ipc_inv m" for pid g m
    using ipcm.inv_step [OF that, of "ISend pid g"] by simp
  then show "kernel_inv k \<Longrightarrow> kernel_inv (snd (do_signal txt k))"
    by (auto simp: do_signal_def Let_def case_prod_beta core_ok_fields(4) core_ok_parts(5)
        intro!: kernel_inv_update split: option.split)
qed

lemma inv_do_power: "kernel_inv k \<Longrightarrow> kernel_inv (snd (do_power P txt k))"
proof -
  have "pw_inv (pw_shutdown w)" "pw_inv (pw_suspend w)" "pw_inv (pw_resume w)" if "pw_inv w" for w
    using pwm.inv_step [OF that, of Shutdown] pwm.inv_step [OF that, of Suspend] pwm.inv_step [OF that, of Resume] by simp_all
  then show "kernel_inv k \<Longrightarrow> kernel_inv (snd (do_power P txt k))"
    by (auto simp: do_power_def Let_def core_ok_fields(5) core_ok_parts(6) do_reboot_kernel kernel_start_inv intro!: kernel_inv_update)
qed

lemma inv_do_elf: "kernel_inv k \<Longrightarrow> kernel_inv (snd (do_elf txt k))"
proof -
  have "core_ok p b (with_sys (sys_vmm_update (\<lambda>_. snd (elf_load e pid (c_vmm c)))) c)" if "core_ok p b c" for p b c e pid
    using core_ok_fields(1) [OF that] inv_vmm [OF core_ok_parts(1) [OF that]] elf_load_wf sys_invD(3) [OF core_ok_parts(1) [OF that]]
    unfolding with_sys_const [of "sys_vmm_update _"] by blast
  then show "kernel_inv k \<Longrightarrow> kernel_inv (snd (do_elf txt k))"
    by (auto simp: do_elf_def Let_def case_prod_beta kernel_inv_cases split: option.split sum.split)
qed

lemma inv_do_pipe_command: "kernel_inv k \<Longrightarrow> kernel_inv (snd (do_pipe txt k))"
  unfolding do_pipe_def
  by (erule kernel_inv_update) (simp add: case_prod_beta Let_def core_ok_fields(4) core_ok_parts(5) inv_do_pipe)

section \<open>Commands that only look\<close>

definition looking :: "string list" where
  "looking = [''status'', ''ps'', ''threads'', ''sched'', ''mem'', ''vmm'', ''pagefault'', ''dmesg'', ''lsdev'', ''lsdrv'', ''lsmod'',
     ''safemode'', ''arch'', ''ext2'', ''roadmap'', ''netinfo'', ''teach'', ''topics'', ''search'', ''disclaimer'', ''profile'',
     ''clear'', ''exit'', ''quit'', ''EOF'', ''help'']"

definition changing :: "string list" where
  "changing = [''boot'', ''reboot'', ''step'', ''tick'', ''insmod'', ''rmmod'', ''vfs'', ''syscall'', ''signal'', ''power'', ''elf'', ''pipe'']"

lemma looking_same:
  "snd (do_status txt k) = k" "snd (do_ps txt k) = k" "snd (do_threads txt k) = k" "snd (do_sched txt k) = k"
  "snd (do_mem txt k) = k" "snd (do_vmm txt k) = k" "snd (do_pagefault txt k) = k" "snd (do_dmesg lg txt k) = k"
  "snd (do_lsdev txt k) = k" "snd (do_lsdrv txt k) = k" "snd (do_lsmod txt k) = k" "snd (do_safemode txt k) = k"
  "snd (do_arch txt k) = k" "snd (do_ext2 txt k) = k" "snd (do_roadmap txt k) = k" "snd (do_netinfo txt k) = k"
  "snd (do_teach T txt k) = k" "snd (do_topics T txt k) = k" "snd (do_search T txt k) = k" "snd (do_disclaimer txt k) = k"
  "snd (do_profile P txt k) = k" "snd (do_clear txt k) = k" "snd (do_exit txt k) = k" "snd (do_quit txt k) = k" "snd (do_EOF txt k) = k"
  by (simp_all add: do_status_def do_ps_def do_threads_def do_sched_def do_mem_def do_vmm_def do_pagefault_def do_dmesg_def
      do_lsdev_def do_lsdrv_def do_lsmod_def do_safemode_def do_arch_def do_ext2_def do_roadmap_def do_netinfo_def do_teach_def
      do_topics_def do_search_def do_disclaimer_def do_profile_def do_clear_def do_exit_def do_quit_def do_EOF_def Let_def)

text \<open>The name \<^verbatim>\<open>onecmd\<close> looks a line up by, empty when there is none.\<close>

definition command_name :: "string \<Rightarrow> string" where
  "command_name line = (case parseline line of (Some (name, _), _) \<Rightarrow> name | (None, _) \<Rightarrow> [])"

lemma commands_changing:
  "\<forall>(n, f) \<in> set (commands env). n \<in> set changing \<or> (\<forall>txt k. snd (f txt k) = k)"
  by (simp add: commands_def looking_same changing_def)

lemma strip_starts: "py_strip s = c # cs \<Longrightarrow> \<not> py_space c"
proof -
  assume s: "py_strip s = c # cs"
  let ?t = "py_lstrip s"
  have "?t = py_strip s @ rev (takeWhile py_space (rev ?t))"
    unfolding py_strip_def by (metis rev_append rev_rev_ident takeWhile_dropWhile_id)
  with s have "?t = c # cs @ rev (takeWhile py_space (rev ?t))" by simp
  then show ?thesis unfolding py_lstrip_def by (metis dropWhile_eq_Cons_conv)
qed

lemma words_started: "w \<noteq> [] \<Longrightarrow> words_loop w s \<noteq> []"
  by (induction s arbitrary: w) auto

lemma words_nonempty: "\<not> py_space c \<Longrightarrow> py_words (c # cs) \<noteq> []"
  by (simp add: py_words_def words_started)

lemma onecmd_cases:
  obtains (empty) "onecmd env line k = emptyline k" "command_name line = []"
  | (other) l where "onecmd env line k = default_line l k" "py_words l \<noteq> []" "command_name line \<notin> fst ` set (commands env)"
  | (found) f a where "(command_name line, f) \<in> set (commands env)" "onecmd env line k = f a k"
proof (cases "py_strip line")
  case Nil
  then have "onecmd env line k = emptyline k" "command_name line = []"
    by (simp_all add: onecmd_def parseline_def command_name_def Let_def)
  then show ?thesis by (rule empty)
next
  case (Cons c cs)
  have none: "[] \<notin> fst ` set (commands env)" by (simp add: commands_def)
  define l where "l = snd (parseline line)"
  have "l = (if c = CHR ''?'' then CHR ''h'' # ''elp '' @ cs else c # cs)"
    unfolding l_def parseline_def Cons Let_def by (simp only: list.case if_distrib [of snd] snd_conv append.simps) simp
  moreover have "\<not> py_space (CHR ''h'')" by code_simp
  ultimately have w: "py_words l \<noteq> []"
    using words_nonempty [of c cs] words_nonempty [of "CHR ''h''" "''elp '' @ cs"] strip_starts [OF Cons] by presburger
  show ?thesis
  proof (cases "map_of (commands env) (command_name line)")
    case None
    obtain r where r: "parseline line = (r, l)" by (metis l_def prod.collapse)
    have "l \<noteq> []" using w by (auto simp: py_words_def)
    then have "onecmd env line k = default_line l k"
      using None by (cases r) (auto simp: onecmd_def command_name_def r)
    then show ?thesis using w None by (intro other) (auto simp: map_of_eq_None_iff)
  next
    case (Some f)
    then have "(command_name line, f) \<in> set (commands env)" by (rule map_of_SomeD)
    moreover from this none have "command_name line \<noteq> []" by force
    then have "\<exists>a. onecmd env line k = f a k"
      using Some by (cases "parseline line"; cases "fst (parseline line)") (auto simp: onecmd_def command_name_def)
    ultimately show ?thesis using found by blast
  qed
qed

lemma looking_kernel: "snd (onecmd env line k) = k \<or> command_name line \<in> set changing"
proof (cases rule: onecmd_cases [of env line k])
  case (found f a)
  then show ?thesis using commands_changing [of env] by force
qed (auto simp: emptyline_def default_line_def split: list.splits)

lemma changing_inv:
  "kernel_inv k \<Longrightarrow> \<forall>(n, f) \<in> set (commands env). n \<in> set changing \<longrightarrow> kernel_inv (snd (f txt k))"
  by (simp add: commands_def changing_def inv_do_boot do_reboot_kernel kernel_start_inv inv_do_step inv_do_tick inv_do_module
      inv_do_vfs inv_do_syscall inv_do_signal inv_do_power inv_do_elf inv_do_pipe_command)

lemma inv_onecmd:
  assumes inv: "kernel_inv k"
  shows "kernel_inv (snd (onecmd env line k))"
proof (cases rule: onecmd_cases [of env line k])
  case (found f a)
  then show ?thesis using looking_kernel [of env line k] changing_inv [OF inv, of env a] inv by force
qed (use inv in \<open>auto simp: emptyline_def default_line_def split: list.splits\<close>)

text \<open>A line typed while the log and the profiles are as given.\<close>

fun shell_step :: "shell_env \<times> string \<Rightarrow> kernel \<Rightarrow> kernel" where
  "shell_step (env, line) k = snd (onecmd env line k)"

interpretation shellm: machine "kernel_start p" shell_step kernel_inv
proof unfold_locales
  show "kernel_inv (shell_step e k)" if "kernel_inv k" for e k
    using that by (cases e) (simp add: inv_onecmd)
qed (rule kernel_start_inv)

text \<open>A session is one of these runs: it stops at the first command that leaves the loop.\<close>

fun typed :: "(string, profile) dict \<Rightarrow> typing \<Rightarrow> (shell_env \<times> string) list" where
  "typed P (Typed lg line) = [(\<lparr>e_profiles = P, e_log = lg\<rparr>, line)]"
| "typed P Interrupted = []"

lemma cmdloop_prefix:
  "\<exists>j \<le> length ls. snd (cmdloop P ls k) = fold shell_step (concat (map (typed P) (take j ls))) k"
proof (induction P ls k rule: cmdloop.induct)
  case (3 P lg line ls k)
  let ?r = "onecmd \<lparr>e_profiles = P, e_log = lg\<rparr> line k"
  show ?case
  proof (cases "snd (fst ?r) = Inr False")
    case True
    then obtain j where "j \<le> length ls" "snd (cmdloop P ls (snd ?r)) = fold shell_step (concat (map (typed P) (take j ls))) (snd ?r)"
      using "3.IH" [of ?r "fst ?r" "snd ?r" False] by auto
    with True show ?thesis by (intro exI [of _ "Suc j"]) (simp add: case_prod_beta Let_def)
  next
    case False
    then have "snd (cmdloop P (Typed lg line # ls) k) = snd ?r"
      by (auto simp: case_prod_beta Let_def split: sum.splits bool.splits)
    then show ?thesis by (intro exI [of _ 1]) simp
  qed
qed (auto simp: do_EOF_def do_exit_def Let_def)

lemma shell_session_inv: "kernel_inv (snd (cmdloop P ls (kernel_start p)))"
  using cmdloop_prefix [of ls P "kernel_start p"] by (auto simp: shellm.inv_run [OF shellm.inv_init])

text \<open>C3: No session breaks the kernel. Whatever is typed into the shell of a kernel booted with any profile,
  the kernel is consistent after every line and when the session ends: all invariants of processes,
  descriptors, memory, file systems, scheduler, heap, devices, modules, pipes and power states hold
  together, also when a command has raised.\<close>
theorem shell_keeps_invariants:
  "kernel_inv (fold shell_step es (kernel_start p)) \<and> kernel_inv (snd (cmdloop P ls (kernel_start p)))"
  by (simp add: shell_session_inv shellm.inv_run [OF shellm.inv_init])

text \<open>Only twelve commands can change the kernel; every other line, known or not, leaves it as it is.\<close>
theorem looking_changes_nothing:
  "snd (onecmd env line k) = k \<or> command_name line \<in> {''boot'', ''reboot'', ''step'', ''tick'', ''insmod'', ''rmmod'', ''vfs'',
     ''syscall'', ''signal'', ''power'', ''elf'', ''pipe''}"
  using looking_kernel [of env line k] by (simp add: changing_def)

text \<open>A reboot, asked for directly or through the power command, leaves exactly the kernel that a start of the program
  gives for the profile named, or for the current one: nothing of the old kernel survives.\<close>
theorem reboot_is_fresh_boot:
  "snd (do_reboot P name k) = kernel_start (profile_in P (case py_words (py_strip name) of a # _ \<Rightarrow> a | [] \<Rightarrow> pr_name (k_profile k)))
   \<and> (k_core k = None \<or> snd (do_power P ''reboot'' k) = kernel_start (profile_in P (pr_name (k_profile k))))"
proof -
  have "py_lower (py_strip ''reboot'') = ''reboot''" "py_words (py_strip []) = []" by code_simp+
  then show ?thesis by (simp add: do_reboot_kernel do_power_def Let_def)
qed

end
