(* ===== verification/Shell_Outcomes.thy ===== *)
theory Shell_Outcomes
  imports Shell_Safety
begin

text \<open>
  How the commands of the shell (\<^verbatim>\<open>shell.py\<close>) end: which can raise, which leave the loop, and what system
  calls and signals typed into the shell can achieve.
\<close>

section \<open>Replies that just print\<close>

abbreviation ending :: "reply \<Rightarrow> bool result" where "ending r \<equiv> snd r"

lemma ending_say [simp]: "ending (say ls) = Inr False"
  by (simp add: say_def)

lemma ending_followed [simp]: "ending a = Inr False \<Longrightarrow> ending (followed_by a r) = ending r"
  by (simp add: followed_by_def)

lemma ending_table [simp]:
  assumes "\<forall>r \<in> set rows. length r = length headers"
  shows "ending (say_table headers rows) = Inr False"
proof -
  have "\<exists>t. table headers rows None = Inr t"
    using assms by (auto simp: table_def auto_widths_def list_ex_iff)
  then show ?thesis by (auto simp: say_table_def)
qed

lemma ending_inspect: "(\<And>c. k_core k = Some c \<Longrightarrow> ending (f c) = Inr False) \<Longrightarrow> ending (fst (inspect msg f k)) = Inr False"
  by (simp add: inspect_def split: option.split)

lemma ending_update: "(\<And>c. k_core k = Some c \<Longrightarrow> ending (fst (f c)) = Inr False) \<Longrightarrow> ending (fst (update msg f k)) = Inr False"
  by (simp add: update_def case_prod_beta Let_def split: option.split)

lemma ending_space [simp]: "ending (show_space v pid) = Inr False"
  by (simp add: show_space_def Let_def split: option.split)

lemma ending_fold: "ending a = Inr False \<Longrightarrow> (\<And>x. ending (f x) = Inr False) \<Longrightarrow> ending (foldl (\<lambda>r x. followed_by r (f x)) a xs) = Inr False"
  by (induction xs arbitrary: a) simp_all

lemma ending_elf [simp]: "ending (describe_elf e) = Inr False"
  by (simp add: describe_elf_def)

lemma ending_vfs [simp]: "ending (fst (vfs_command name path c)) = Inr False"
  by (simp add: vfs_command_def Let_def case_prod_beta split: option.split list.split)

lemma printing_commands:
  "ending (fst (do_boot P txt k)) = Inr False" "ending (fst (do_reboot P txt k)) = Inr False" "ending (fst (do_step txt k)) = Inr False"
  "ending (fst (do_status txt k)) = Inr False" "ending (fst (do_ps txt k)) = Inr False" "ending (fst (do_threads txt k)) = Inr False"
  "ending (fst (do_sched txt k)) = Inr False" "ending (fst (do_tick txt k)) = Inr False" "ending (fst (do_mem txt k)) = Inr False"
  "ending (fst (do_vmm txt k)) = Inr False" "ending (fst (do_dmesg lg txt k)) = Inr False" "ending (fst (do_lsdev txt k)) = Inr False"
  by (auto simp: do_boot_def do_reboot_def do_step_def do_status_def do_ps_def do_threads_def do_sched_def do_tick_def do_mem_def
      do_vmm_def do_dmesg_def do_lsdev_def Let_def case_prod_beta ending_fold intro!: ending_inspect ending_update
      split: prod.split option.split)

lemma printing_commands':
  "ending (fst (do_lsdrv txt k)) = Inr False" "ending (fst (do_lsmod txt k)) = Inr False" "ending (fst (do_insmod txt k)) = Inr False"
  "ending (fst (do_rmmod txt k)) = Inr False" "ending (fst (do_vfs txt k)) = Inr False" "ending (fst (do_signal txt k)) = Inr False"
  "ending (fst (do_safemode txt k)) = Inr False" "ending (fst (do_arch txt k)) = Inr False" "ending (fst (do_ext2 txt k)) = Inr False"
  "ending (fst (do_elf txt k)) = Inr False" "ending (fst (do_pipe txt k)) = Inr False" "ending (fst (do_roadmap txt k)) = Inr False"
  "ending (fst (do_netinfo txt k)) = Inr False" "ending (fst (do_teach T txt k)) = Inr False" "ending (fst (do_topics T txt k)) = Inr False"
  "ending (fst (do_search T txt k)) = Inr False" "ending (fst (do_disclaimer txt k)) = Inr False"
  "ending (fst (do_profile P txt k)) = Inr False" "ending (fst (do_clear txt k)) = Inr False"
  by (auto simp: do_lsdrv_def do_lsmod_def do_insmod_def do_rmmod_def do_vfs_def do_signal_def do_safemode_def do_arch_def
      do_ext2_def do_elf_def do_pipe_def do_roadmap_def do_netinfo_def do_teach_def do_topics_def do_search_def do_disclaimer_def
      do_profile_def do_clear_def vfs_usage_def Let_def case_prod_beta intro!: ending_inspect ending_update
      split: option.split list.split sum.split)

lemma printing_power: "ending (fst (do_power P txt k)) = Inr False"
  by (auto simp: do_power_def Let_def printing_commands intro!: ending_inspect ending_update)

lemma exit_commands: "ending (fst (do_exit txt k)) = Inr True" "ending (fst (do_quit txt k)) = Inr True" "ending (fst (do_EOF txt k)) = Inr True"
  by (simp_all add: do_exit_def do_quit_def do_EOF_def Let_def)

lemma raising_commands:
  "\<forall>(n, f) \<in> set (commands env). n = ''syscall'' \<or> n = ''pagefault''
     \<or> ending (fst (f txt k)) = Inr (n \<in> {''exit'', ''quit'', ''EOF''})"
  by (simp add: commands_def printing_commands printing_commands' printing_power exit_commands)

section \<open>Areas keep flags that are text\<close>

text \<open>
  A page fault looks for the letter w in the flags of an area, which raises unless they are text. System
  calls made with registers can create other areas; those typed into the shell cannot.
\<close>

definition text_flags :: "vmm \<Rightarrow> bool" where
  "text_flags v \<longleftrightarrow> (\<forall>pid s. map_of (address_spaces v) pid = Some s \<longrightarrow> (\<forall>a \<in> set (areas s). \<exists>f. vma_flags a = VStr f))"

lemma text_flags_update:
  "text_flags v \<Longrightarrow> (\<forall>a \<in> set (areas s). \<exists>f. vma_flags a = VStr f) \<Longrightarrow>
   text_flags (v\<lparr>vmm_pmm := m, address_spaces := AList.update pid s (address_spaces v)\<rparr>)"
  by (auto simp: text_flags_def split: if_splits)

lemma text_flags_pmm [simp]: "text_flags (v\<lparr>vmm_pmm := m\<rparr>) = text_flags v"
  by (simp add: text_flags_def)

lemma text_flags_create [intro]: "text_flags v \<Longrightarrow> text_flags (create_address_space pid v)"
  by (auto simp: text_flags_def create_address_space_def default_space_def as_map_def as_init_def split: if_splits)

lemma text_flags_map [intro]: "text_flags v \<Longrightarrow> text_flags (snd (map_pages pid a n (VStr f) name v))"
proof -
  assume t: "text_flags v"
  have "\<forall>b \<in> set (areas (as_map a n (VStr f) name s)). \<exists>f. vma_flags b = VStr f" if "map_of (address_spaces v) pid = Some s" for s
    using t that by (auto simp: text_flags_def as_map_def)
  then show ?thesis
    using t text_flags_update [OF t] by (auto simp: map_pages_def Let_def case_prod_beta split: option.split)
qed

lemma text_flags_unmap [intro]: "text_flags v \<Longrightarrow> text_flags (snd (unmap_pages pid a v))"
  by (auto simp: unmap_pages_def Let_def case_prod_beta as_unmap_def text_flags_def split: option.split)

lemma text_flags_map_dyn [intro]: "text_flags v \<Longrightarrow> text_flags (snd (map_dyn pid n v))"
  by (auto simp: map_dyn_def Let_def case_prod_beta split: option.splits)

lemma text_flags_elf: "text_flags v \<Longrightarrow> text_flags (snd (elf_load e pid v))"
proof -
  assume t: "text_flags v"
  have "text_flags (fold (map_segment pid) segs v)" for segs
    using t by (induction segs arbitrary: v) (auto simp: map_segment_def)
  then show ?thesis using t by (auto simp: elf_load_def Let_def split: option.splits)
qed

lemma text_flags_fault: "text_flags v \<Longrightarrow> \<exists>f. simulate_page_fault pid addr wr v = Inr f"
  using scan_areas_Some
  by (fastforce simp: simulate_page_fault_def as_lookup_def text_flags_def split: option.split sum.split bool.split)

lemma reap_vmm: "sys_vmm (snd (reap cs s)) = sys_vmm s"
  by (induction cs) (auto split: option.split)

lemma reap_returns: "fst (reap cs s) \<noteq> Inl e"
  by (induction cs) (auto split: option.split)

lemma string_args: "arg i (VInt n) (map VStr xs) = (if i < length xs then VStr (xs ! i) else VInt n)"
  "arg i (VStr d) (map VStr xs) = VStr (if i < length xs then xs ! i else d)"
  by (simp_all add: arg_def)

lemma mmap_strings:
  "text_flags (sys_vmm s) \<Longrightarrow> text_flags (sys_vmm (snd (sys_mmap pid addr len (VStr f) name s)))"
  using text_flags_map text_flags_map_dyn
  by (auto simp: sys_mmap_def Let_def case_prod_beta split: pyval.split option.split sum.split prod.split)

lemma other_calls_vmm:
  "sys_vmm (snd (sys_read pid a b s)) = sys_vmm s" "sys_vmm (snd (sys_write pid a b s)) = sys_vmm s"
  "sys_vmm (snd (sys_openat pid a b d s)) = sys_vmm s" "sys_vmm (snd (sys_close pid a s)) = sys_vmm s"
  "sys_vmm (snd (sys_nanosleep pid a b s)) = sys_vmm s" "sys_vmm (snd (sys_getpid pid s)) = sys_vmm s"
  "sys_vmm (snd (sys_execve pid a b d s)) = sys_vmm s" "sys_vmm (snd (sys_exit pid a s)) = sys_vmm s"
  "sys_vmm (snd (sys_wait4 pid a b s)) = sys_vmm s" "sys_vmm (snd (sys_kill pid a b s)) = sys_vmm s"
  by (auto simp: sys_read_def sys_write_def sys_openat_def sys_close_def sys_nanosleep_def sys_getpid_def sys_execve_def
      sys_exit_def sys_wait4_def sys_kill_def reap_vmm mod_proc_def Let_def case_prod_beta
      split: option.split pyval.split sum.split prod.split)

lemma memory_calls_vmm:
  assumes "text_flags (sys_vmm s)"
  shows "text_flags (sys_vmm (snd (sys_munmap pid a b s)))" "text_flags (sys_vmm (snd (sys_brk_call pid a s)))"
    "text_flags (sys_vmm (snd (sys_fork pid s)))"
  using assms by (auto simp: sys_munmap_def sys_brk_call_def sys_fork_def Let_def case_prod_beta split: pyval.split option.split)

lemma shell_syscall_vmm:
  assumes t: "text_flags (sys_vmm s)"
  shows "text_flags (sys_vmm (snd (shell_syscall pid nr extra s)))"
proof -
  let ?s = "s\<lparr>sys_brk := []\<rparr>"
  have t': "text_flags (sys_vmm ?s)" using t by simp
  have "text_flags (sys_vmm (snd (sys_handler nr pid (map VStr xs) ?s)))" for xs
    using t' mmap_strings [OF t'] memory_calls_vmm [OF t'] by (simp add: sys_handler_def string_args other_calls_vmm)
  then have "text_flags (sys_vmm (snd (sys_dispatch pid nr (map VStr extra) ?s)))"
    using t' by (auto simp: sys_dispatch_def Let_def take_map split: option.split)
  then show ?thesis by (simp add: shell_syscall_def case_prod_beta Let_def)
qed

section \<open>Sessions of a booted kernel\<close>

definition session_core :: "core \<Rightarrow> bool" where
  "session_core c \<longleftrightarrow> text_flags (c_vmm c) \<and> ipc_signals (c_ipc c) = [] \<and> b_index (c_boot c) = 8
     \<and> b_devices (c_boot c) = start_devices ([], [])"

definition session_ok :: "kernel \<Rightarrow> bool" where
  "session_ok k \<longleftrightarrow> k_booted k \<and> (\<exists>c. k_core k = Some c \<and> session_core c)"

lemma session_update:
  assumes "session_ok k" "\<And>c. session_core c \<Longrightarrow> session_core (snd (f c))"
  shows "session_ok (snd (update msg f k))"
  using assms by (auto simp: session_ok_def update_def case_prod_beta Let_def)

lemma session_fields:
  assumes "session_core c"
  shows "session_core (c\<lparr>c_modules := l\<rparr>)" "session_core (c\<lparr>c_power := w\<rparr>)"
    "session_core (c\<lparr>c_boot := (c_boot c)\<lparr>b_sched := q\<rparr>\<rparr>)" "session_core (with_vfs v c)"
    "text_flags (sys_vmm s) \<Longrightarrow> session_core (with_sys (\<lambda>_. s) c)"
    "text_flags v' \<Longrightarrow> session_core (with_sys (sys_vmm_update (\<lambda>_. v')) c)"
    "ipc_signals m = [] \<Longrightarrow> session_core (c\<lparr>c_ipc := m\<rparr>)"
  using assms by (simp_all add: session_core_def with_vfs_def with_sys_def)

lemma session_start: "session_ok (kernel_start p)"
proof -
  have "text_flags (vmm_init m)" for m by (simp add: text_flags_def vmm_init_def)
  moreover have "b_index (snd (run_all (boot_new DEFAULT_PHYS_PAGES))) = 8"
    using run_all_log [of "boot_new DEFAULT_PHYS_PAGES"] by (simp add: boot_new_def)
  ultimately show ?thesis
    by (auto simp: session_ok_def session_core_def kernel_start_core booted_parts core_new_def ipc_init_def)
qed

lemma session_parts:
  assumes "session_core c"
  shows "text_flags (c_vmm c)" "ipc_signals (c_ipc c) = []"
  using assms by (simp_all add: session_core_def)

lemma session_vfs: "session_core c \<Longrightarrow> session_core (snd (vfs_command name path c))"
  by (simp add: vfs_command_def Let_def case_prod_beta session_fields split: option.split list.split)

lemma session_boot:
  assumes "session_ok k"
  shows "snd (do_boot P txt k) = k" "snd (do_step txt k) = k"
proof -
  show "snd (do_boot P txt k) = k" using assms by (simp add: do_boot_def session_ok_def Let_def)
  have "kernel_boot_step k = (None, k)"
    using assms by (auto simp: session_ok_def session_core_def kernel_boot_step_def the_core_def boot_step_def)
  then show "snd (do_step txt k) = k" by (simp add: do_step_def)
qed

lemma session_commands:
  assumes ok: "session_ok k"
  shows "session_ok (snd (do_tick txt k))" "session_ok (snd (do_insmod txt k))" "session_ok (snd (do_rmmod txt k))"
    "session_ok (snd (do_vfs txt k))" "session_ok (snd (do_syscall txt k))" "session_ok (snd (do_signal txt k))"
    "session_ok (snd (do_power P txt k))" "session_ok (snd (do_pipe txt k))" "session_ok (snd (do_elf txt k))"
proof -
  have sig: "ipc_signals (snd (send_signal pid g m)) = []" if "ipc_signals m = []" for pid g m
    using that by (simp add: send_signal_def)
  have pipe: "ipc_signals (snd (create_pipe m)) = ipc_signals m" for m by (simp add: create_pipe_def Let_def)
  note u = session_update [OF ok] session_fields session_parts session_vfs shell_syscall_vmm sig pipe
  show "session_ok (snd (do_tick txt k))" "session_ok (snd (do_insmod txt k))" "session_ok (snd (do_rmmod txt k))"
    "session_ok (snd (do_vfs txt k))" "session_ok (snd (do_syscall txt k))" "session_ok (snd (do_signal txt k))"
    using ok by (auto simp: do_tick_def do_insmod_def do_rmmod_def do_vfs_def do_syscall_def do_signal_def Let_def case_prod_beta
        intro!: u split: option.split list.split)
  show "session_ok (snd (do_power P txt k))" "session_ok (snd (do_pipe txt k))"
    using ok by (auto simp: do_power_def do_pipe_def Let_def case_prod_beta do_reboot_kernel session_start u(2-) intro!: session_update [OF ok])
  show "session_ok (snd (do_elf txt k))"
    using ok by (auto simp: session_ok_def do_elf_def Let_def case_prod_beta session_fields(6) text_flags_elf session_parts
        split: sum.split)
qed

lemma session_changing:
  "session_ok k \<Longrightarrow> \<forall>(n, f) \<in> set (commands env). n \<in> set changing \<longrightarrow> session_ok (snd (f txt k))"
  by (simp add: commands_def changing_def session_commands session_boot do_reboot_kernel session_start)

lemma session_onecmd:
  assumes ok: "session_ok k"
  shows "session_ok (snd (onecmd env line k))"
proof (cases rule: onecmd_cases [of env line k])
  case (found f a)
  then show ?thesis using looking_kernel [of env line k] session_changing [OF ok, of env a] ok by force
qed (use ok in \<open>auto simp: emptyline_def default_line_def split: list.splits\<close>)

interpretation sessionm: machine "kernel_start p" shell_step session_ok
proof unfold_locales
  show "session_ok (shell_step e k)" if "session_ok k" for e k
    using that by (cases e) (simp add: session_onecmd)
qed (rule session_start)

lemma pagefault_ends: "session_ok k \<Longrightarrow> ending (fst (do_pagefault txt k)) = Inr False"
proof -
  assume "session_ok k"
  then have "\<exists>f. simulate_page_fault pid addr wr (c_vmm c) = Inr f" if "k_core k = Some c" for c pid addr wr
    using that text_flags_fault session_parts(1) by (auto simp: session_ok_def)
  then show ?thesis
    by (auto simp: do_pagefault_def Let_def intro!: ending_inspect split: option.split sum.split) (metis sum.distinct(1))
qed

lemma onecmd_ends:
  assumes "session_ok k" "command_name line \<noteq> ''syscall''"
  shows "ending (fst (onecmd env line k)) = Inr (command_name line \<in> {''exit'', ''quit'', ''EOF''})"
proof (cases rule: onecmd_cases [of env line k])
  case (other l)
  then show ?thesis by (auto simp: default_line_def commands_def split: list.splits)
next
  case (found f a)
  show ?thesis
  proof (cases "command_name line = ''pagefault''")
    case True
    then have "f = do_pagefault" using found(1) by (simp add: commands_def)
    then show ?thesis using found(2) True pagefault_ends [OF assms(1)] by simp
  next
    case False
    then show ?thesis using raising_commands [of env a k] found assms(2) by fastforce
  qed
qed (simp add: emptyline_def)

text \<open>The only exception a system call typed into the shell can raise is a \<^verbatim>\<open>TypeError\<close>.\<close>

lemma string_calls_raise:
  assumes "sys_inv s"
  shows "fst (sys_handler nr pid (map VStr xs) s) = Inl e \<Longrightarrow> e = TypeError"
proof -
  have "vfs_inv (sys_vfs s)" using assms by (simp add: sys_inv_def)
  then have o: "fst (sys_openat pid d (VStr p) (VStr f) s) \<noteq> Inl e" for d p f
    using open_returns [of "sys_vfs s" p f] by (auto simp: sys_openat_def Let_def case_prod_beta split: option.split sum.split)
  show "fst (sys_handler nr pid (map VStr xs) s) = Inl e \<Longrightarrow> e = TypeError"
    unfolding sys_handler_def string_args
    using o reap_returns
    by (auto simp: sys_read_def sys_write_def sys_close_def sys_mmap_def map_dyn_def sys_munmap_def sys_brk_call_def sys_nanosleep_def
        sys_getpid_def sys_fork_def sys_execve_def sys_exit_def sys_wait4_def sys_kill_def Let_def case_prod_beta
        split: option.splits if_splits pyval.splits sum.splits)
qed

lemma shell_syscall_raises:
  assumes "sys_inv s" "fst (shell_syscall pid nr extra s) = Inl e"
  shows "e = TypeError"
proof -
  have "sys_inv (s\<lparr>sys_brk := []\<rparr>)" using assms(1) by (simp add: sys_inv_def)
  with assms(2) string_calls_raise show ?thesis
    by (auto simp: shell_syscall_def sys_dispatch_def case_prod_beta Let_def take_map split: option.splits if_splits)
qed

lemma do_syscall_ends:
  assumes "kernel_inv k"
  shows "ending (fst (do_syscall txt k)) \<in> {Inr False, Inl TypeError}"
proof -
  have "e = TypeError" if "k_core k = Some c" "fst (shell_syscall pid nr extra (b_sys (c_boot c))) = Inl e" for c pid nr extra e
  proof -
    have "core_ok (k_profile k) (k_booted k) c" using that(1) assms by (simp add: kernel_inv_cases)
    from shell_syscall_raises [OF core_ok_parts(1) [OF this] that(2)] show ?thesis .
  qed
  then show ?thesis
    by (auto simp: do_syscall_def update_def Let_def case_prod_beta split: option.split sum.split)
qed

text \<open>C31: How a line typed into the shell of a booted kernel can end, after any session: the loop is left exactly by
  exit, quit and the end of the input, every other line returns to the prompt, and the only line that can raise is
  a system call, whose exception is a \<^verbatim>\<open>TypeError\<close>.\<close>
theorem shell_line_outcomes:
  "let k = fold shell_step es (kernel_start p); r = snd (fst (onecmd env line k)); name = command_name line
   in r = Inr (name \<in> {''exit'', ''quit'', ''EOF''}) \<or> name = ''syscall'' \<and> r = Inl TypeError"
proof (cases "command_name line = ''syscall''")
  case True
  let ?k = "fold shell_step es (kernel_start p)"
  have inv: "kernel_inv ?k" by (rule shellm.inv_run [OF shellm.inv_init])
  show ?thesis
  proof (cases rule: onecmd_cases [of env line ?k])
    case (found f a)
    then have "f = do_syscall" using True by (simp add: commands_def)
    with found(2) do_syscall_ends [OF inv, of a] True show ?thesis by (auto simp: Let_def)
  qed (use True in \<open>auto simp: commands_def\<close>)
next
  case False
  with onecmd_ends [OF sessionm.inv_run [OF sessionm.inv_init] this] show ?thesis by (simp add: Let_def)
qed

text \<open>C36: In a session no signal is ever delivered, because no command creates the signal table a process
  needs: every attempt fails and no table exists. The devices stay bound as the boot left them.\<close>
theorem shell_never_delivers_signals:
  "let k = fold shell_step es (kernel_start p); c = the_core k
   in ipc_signals (c_ipc c) = [] \<and> \<not> fst (send_signal pid g (c_ipc c)) \<and> b_devices (c_boot c) = start_devices ([], [])"
proof -
  have "session_ok (fold shell_step es (kernel_start p))" by (rule sessionm.inv_run [OF sessionm.inv_init])
  then show ?thesis by (auto simp: session_ok_def session_core_def the_core_def send_signal_def Let_def)
qed

text \<open>C32: The arguments of a system call typed into the shell stay text, so they never name a descriptor, an address, a
  length or a process. Of the fourteen calls, read, write, close, munmap and kill fail with their errno on every
  argument, brk raises, and so does mmap when a length is given; nanosleep and getpid ignore what is typed, and a
  number that is no call fails. None of these changes anything. (The other calls, which open a file by its path, execute a
  program, fork, exit and wait, take text or nothing and work.)\<close>
theorem shell_arguments_are_text:
  "let e = (if pt_get pid (sys_pt s) = None then - EINVAL else - EBADF) in
     shell_syscall pid NR_READ (x # xs) s = (Inr e, s) \<and> shell_syscall pid NR_WRITE (x # xs) s = (Inr e, s)
     \<and> shell_syscall pid NR_CLOSE (x # xs) s = (Inr e, s) \<and> shell_syscall pid NR_MUNMAP (x # xs) s = (Inr (- EINVAL), s)
     \<and> shell_syscall pid NR_KILL (x # xs) s = (Inr (- ESRCH), s) \<and> shell_syscall pid NR_BRK (x # xs) s = (Inl TypeError, s)
     \<and> shell_syscall pid NR_MMAP (x # y # xs) s = (Inl TypeError, s)
     \<and> shell_syscall pid NR_NANOSLEEP (x # xs) s = (Inr 0, s) \<and> shell_syscall pid NR_GETPID (x # xs) s = (Inr pid, s)
     \<and> (nr \<in> {NR_READ, NR_WRITE, NR_OPENAT, NR_CLOSE, NR_MMAP, NR_MUNMAP, NR_BRK, NR_NANOSLEEP, NR_GETPID, NR_FORK, NR_EXECVE,
            NR_EXIT, NR_WAIT4, NR_KILL} \<or> shell_syscall pid nr (x # xs) s = (Inr (- ENOSYS), s))"
  by (simp add: shell_syscall_def sys_dispatch_def sys_arity_def sys_handler_def NR_defs arg_def sys_read_def sys_write_def
      sys_close_def sys_munmap_def sys_kill_def sys_brk_call_def sys_mmap_def sys_nanosleep_def sys_getpid_def Let_def take_Cons'
      split: option.split)

text \<open>Opening a file by its path does work from the shell.\<close>
lemma shell_openat_takes_text:
  "shell_syscall pid NR_OPENAT [d, path] s
     = (let (r, s1) = sys_openat pid (VStr d) (VStr path) (VStr ''r'') (s\<lparr>sys_brk := []\<rparr>) in (r, s1\<lparr>sys_brk := sys_brk s\<rparr>))"
  by (simp add: shell_syscall_def sys_dispatch_def sys_arity_def sys_handler_def NR_defs arg_def)

text \<open>C33: Mapping at an address typed into the shell leaks a frame: the frame is taken before the text address
  raises, no area is added, and the frame is lost. A mapping without an address takes its default and succeeds.\<close>
theorem mapping_at_text_leaks_frame:
  assumes inv: "sys_inv s" and p: "pt_get pid (sys_pt s) \<noteq> None" "map_of (address_spaces (sys_vmm s)) pid \<noteq> None"
    and free: "0 < free_pages (vmm_pmm (sys_vmm s))"
  shows "fst (shell_syscall pid NR_MMAP [x] s) = Inl TypeError
    \<and> address_spaces (sys_vmm (snd (shell_syscall pid NR_MMAP [x] s))) = address_spaces (sys_vmm s)
    \<and> free_pages (vmm_pmm (sys_vmm (snd (shell_syscall pid NR_MMAP [x] s)))) = free_pages (vmm_pmm (sys_vmm s)) - 1
    \<and> fst (shell_syscall pid NR_MMAP [] s) = Inr 0x7f0000000000"
proof -
  have wf: "vmm_wf (sys_vmm s)" "pmm_wf (vmm_pmm (sys_vmm s))" using sys_invD(3) [OF inv] by (simp_all add: vmm_wf_def)
  obtain P sp where P: "pt_get pid (sys_pt s) = Some P" "map_of (address_spaces (sys_vmm s)) pid = Some sp" using p by auto
  have one: "pages_needed 4096 = 1" by (simp add: pages_needed_def PAGE_SIZE_def)
  obtain ps m where a: "alloc_pages 1 pid (vmm_pmm (sys_vmm s)) = (ps, m)" by fastforce
  have "ps \<noteq> []" "free_pages m = free_pages (vmm_pmm (sys_vmm s)) - 1"
    using ps.enough [OF wf(2), of 1 pid] free a by auto
  moreover have "map_pages pid 0x7f0000000000 4096 (VStr ''rw-'') (VStr ''[mmap]'') (sys_vmm s)
      = (True, (sys_vmm s)\<lparr>vmm_pmm := m, address_spaces := AList.update pid (as_map 0x7f0000000000 4096 (VStr ''rw-'') (VStr ''[mmap]'') sp) (address_spaces (sys_vmm s))\<rparr>)"
    using map_pages_succeeds [OF wf(1) P(2), of 4096] free one a by simp
  ultimately show ?thesis
    using P a one by (simp add: shell_syscall_def sys_dispatch_def sys_arity_def sys_handler_def NR_defs arg_def sys_mmap_def map_dyn_def Let_def)
qed

theorem mapping_at_text_leaks_frame_witness:
  "fst (shell_syscall 0 NR_MMAP [''4096''] ((sys_init 4)\<lparr>sys_vmm := create_address_space 0 (vmm_init (pmm_init 4))\<rparr>)) = Inl TypeError"
proof -
  let ?s = "(sys_init 4)\<lparr>sys_vmm := create_address_space 0 (vmm_init (pmm_init 4))\<rparr>"
  have "sys_inv ?s" by (rule inv_vmm [OF sys_inv_init]) auto
  moreover have "pt_get 0 (sys_pt ?s) \<noteq> None" "map_of (address_spaces (sys_vmm ?s)) 0 \<noteq> None" "0 < free_pages (vmm_pmm (sys_vmm ?s))"
    by (simp_all add: sys_init_def pt_get_def pt_init_def create_address_space_def vmm_init_def free_pages_def pmm_init_def)
  ultimately show ?thesis using mapping_at_text_leaks_frame [of ?s 0 "''4096''"] by blast
qed

section \<open>The program\<close>

abbreviation is_profile :: "string \<Rightarrow> bool" where "is_profile a \<equiv> map_of PROFILES a \<noteq> None"

lemma profile_names: "is_profile a \<longleftrightarrow> a \<in> {''debug'', ''release'', ''safe_mode''}"
  by (simp add: PROFILES_def)

lemma main_args_value:
  "main_args args (name, quiet) =
     (if {''--help'', ''-h''} \<inter> set args = {}
      then Some (last (name # filter is_profile args), quiet \<or> {''--quiet'', ''-q''} \<inter> set args \<noteq> {}) else None)"
proof (induction args arbitrary: name quiet)
  case (Cons a args)
  show ?case
  proof (cases "is_profile a")
    case True
    then have "a \<notin> {''--help'', ''-h'', ''--quiet'', ''-q''}" by (auto simp: PROFILES_def)
    with True show ?thesis by (simp add: Cons.IH)
  next
    case False
    then show ?thesis by (simp add: Cons.IH)
  qed
qed simp

lemma cmdloop_session:
  "session_ok k \<Longrightarrow> session_ok (snd (cmdloop P ls k))
     \<and> (snd (fst (cmdloop P ls k)) \<in> {Inr True, Inl KeyboardInterrupt}
        \<or> (\<exists>lg line. Typed lg line \<in> set ls \<and> command_name line = ''syscall''))"
proof (induction P ls k rule: cmdloop.induct)
  case (3 P lg line ls k)
  let ?r = "onecmd \<lparr>e_profiles = P, e_log = lg\<rparr> line k"
  have ok: "session_ok (snd ?r)" using "3.prems" by (rule session_onecmd)
  show ?case
  proof (cases "snd (fst ?r) = Inr False")
    case True
    then show ?thesis using "3.IH" [of ?r "fst ?r" "snd ?r" False] ok
      by (auto simp: case_prod_beta Let_def followed_by_def)
  next
    case False
    then have "cmdloop P (Typed lg line # ls) k = ?r"
      by (auto simp: case_prod_beta Let_def split: sum.splits bool.splits)
    then show ?thesis
      using ok False onecmd_ends [OF "3.prems", of line "\<lparr>e_profiles = P, e_log = lg\<rparr>"]
      by (cases "command_name line = ''syscall''") (auto simp del: cmdloop.simps)
  qed
qed (auto simp: do_EOF_def do_exit_def Let_def followed_by_def say_def)

lemma profile_in_session:
  "is_profile name \<Longrightarrow> profile_in (session_profiles (name, quiet)) name
     = (profile_of name)\<lparr>pr_serial_log := pr_serial_log (profile_of name) \<and> \<not> quiet\<rparr>"
  by (auto simp: profile_in_def session_profiles_def profile_of_def)

text \<open>C4: The program, for every command line and everything typed. A request for help prints it and creates no
  kernel. Otherwise the program boots the last profile named, and when it ends the kernel is booted and
  consistent: it ends by an exit command, the end of the input or an interrupt, and an exception can
  escape only from a line that is a system call.\<close>
theorem program_outcome:
  "case main args input of
     (r, None) \<Rightarrow> r = main_help \<and> {''--help'', ''-h''} \<inter> set args \<noteq> {}
   | (r, Some k) \<Rightarrow> {''--help'', ''-h''} \<inter> set args = {} \<and> kernel_inv k \<and> k_booted k
       \<and> (snd r = Inr True \<or> (\<exists>lg line. Typed lg line \<in> set input \<and> command_name line = ''syscall''))"
proof (cases "main_args args (''debug'', False)")
  case None
  then show ?thesis by (auto simp: main_def main_args_value split: if_splits)
next
  case (Some q)
  obtain name quiet where q: "q = (name, quiet)" by fastforce
  let ?P = "session_profiles q" and ?k = "kernel_start (profile_in (session_profiles q) name)"
  have "kernel_inv (snd (cmdloop ?P input ?k))" using shell_session_inv by blast
  moreover note cmdloop_session [OF session_start, of ?P input "profile_in (session_profiles q) name"]
  moreover have "{''--help'', ''-h''} \<inter> set args = {}" using Some by (auto simp: main_args_value split: if_splits)
  ultimately show ?thesis
    by (auto simp: main_def Some q Let_def case_prod_beta session_ok_def followed_by_def split: sum.splits pyexn.splits)
qed

text \<open>A start without input: the profile is the last one named, or debug, silenced when the start is quiet.\<close>
theorem program_start:
  "main args [] =
     (if {''--help'', ''-h''} \<inter> set args \<noteq> {} then (main_help, None)
      else (let p = profile_of (last (''debug'' # filter is_profile args)); quiet = {''--quiet'', ''-q''} \<inter> set args \<noteq> {}
            in (([Banner, Line [], Line (Text_Tools.dim ''Shutting down ComputeKERNEL-Edu simulator...'')], Inr True),
                Some (kernel_start (p\<lparr>pr_serial_log := pr_serial_log p \<and> \<not> quiet\<rparr>)))))"
proof -
  have "is_profile (last (''debug'' # filter is_profile args))"
  proof -
    let ?names = "''debug'' # filter is_profile args"
    have "\<forall>a \<in> set ?names. is_profile a" by (simp add: PROFILES_def)
    moreover have "last ?names \<in> set ?names" by (rule last_in_set) simp
    ultimately show ?thesis by blast
  qed
  then show ?thesis
    by (simp add: main_def main_args_value profile_in_session Let_def do_EOF_def do_exit_def followed_by_def say_def)
qed

end
