(* ===== verification/Boot_Texts.thy ===== *)
theory Boot_Texts
  imports Boot
begin

text \<open>
  \<^verbatim>\<open>boot.py\<close>: the explanation of each stage, and the questions the pipeline answers without changing.
\<close>

section \<open>Explanations\<close>

definition STAGE_EXPLANATIONS :: "(boot_stage, string) dict" where
  \<open>STAGE_EXPLANATIONS =
    [(FIRMWARE_HANDOFF, py_join NL
      [''FIRMWARE HANDOFF (BIOS/UEFI -> Bootloader):'',
       ''  Real: Power-on triggers CPU reset vector at 0xFFFFFFF0 (16-bit real mode).'',
       ''  BIOS performs POST (Power-On Self Test): memory test, hardware enumeration.'',
       ''  UEFI: loads UEFI firmware drivers, reads ESP partition, finds bootloader.'',
       ''  Hands control to MBR/bootloader with basic hardware initialized.'',
       ''  SIMULATOR: We skip this stage - Python starts in 64-bit user-space already.'']),
     (BOOTLOADER_HANDOFF, py_join NL
      [''BOOTLOADER HANDOFF (GRUB2/Multiboot2 -> Kernel):'',
       ''  Real: GRUB2 loads kernel image (vmlinuz) and initramfs into physical memory.'',
       ''  Passes Multiboot2 info block: memory map, command line, framebuffer info, ACPI RSDP.'',
       ''  Switches CPU to 32-bit protected mode, jumps to kernel's 32-bit entry point.'',
       ''  Kernel startup_32 switches to 64-bit long mode, jumps to startup_64.'',
       ''  SIMULATOR: We simulate receiving the memory map and boot parameters.'']),
     (ARCH_EARLY_INIT, py_join NL
      [''ARCH EARLY INIT (x86_64 architecture setup):'',
       ''  Real: setup_arch() initializes:'',
       ''  - GDT: Global Descriptor Table (kernel code/data, user code/data, TSS segments)'',
       ''  - IDT: Interrupt Descriptor Table (256 vectors: exceptions 0-31, IRQs, syscalls)'',
       ''  - TSS: Task State Segment (holds RSP0 = kernel stack pointer for ring-0 entry)'',
       ''  - CR0/CR4: enable write-protect, PAE, PSE, SSE, SMEP, SMAP'',
       ''  - Page tables: map kernel at 0xFFFF800000000000 (high half canonical)'',
       ''  - IA32_LSTAR MSR: set SYSCALL entry point to entry_SYSCALL_64'',
       ''  - CPUID: detect CPU features (NX, AVX, RDRAND, PCID, etc.)'',
       ''  SIMULATOR: We call arch.detect_cpu_features(), setup_gdt(), setup_idt(), etc.'']),
     (MEMORY_BRINGUP, py_join NL
      [''MEMORY BRINGUP (Physical and Virtual Memory Manager):'',
       ''  Real: mm_init() initializes:'',
       ''  - memblock: early boot allocator for pre-buddy allocations'',
       ''  - Buddy allocator: organizes physical pages into power-of-2 free lists'',
       ''  - Zone setup: DMA (<16MB), DMA32 (<4GB), NORMAL (rest)'',
       ''  - mem_map: struct page array (one entry per physical page frame)'',
       ''  - SLUB allocator: per-CPU slab caches for kmalloc()'',
       ''  - vmalloc area: for large kernel allocations needing virtual contiguity'',
       ''  SIMULATOR: We init PhysicalMemoryManager, VirtualMemoryManager, KmallocAllocator.'']),
     (INTERRUPT_TIMER_SETUP, py_join NL
      [''INTERRUPT/TIMER SETUP (IRQ subsystem + LAPIC timer):'',
       ''  Real: init_IRQ() sets up the interrupt controller:'',
       ''  - Detect APIC (Advanced Programmable Interrupt Controller) via CPUID/ACPI'',
       ''  - Initialize LAPIC (Local APIC) on each CPU: enable, set base address'',
       ''  - Configure IOAPIC: route hardware IRQs to CPU LAPIC vectors'',
       ''  - Calibrate the LAPIC timer against the HPET or TSC'',
       ''  - Set up timer interrupt (IRQ0 or LAPIC timer) at HZ frequency (250Hz)'',
       ''  - Initialize the softirq subsystem (NET_RX, NET_TX, TASKLET, SCHED, RCU)'',
       ''  SIMULATOR: We simulate the timer concept without real APIC programming.'']),
     (SCHEDULER_START, py_join NL
      [''SCHEDULER START (Kernel threads and run queue):'',
       ''  Real: sched_init() creates per-CPU run queues. rest_init() spawns:'',
       ''  - PID 1: kernel_init thread (will become /sbin/init)'',
       ''  - PID 2: kthreadd (kernel thread daemon, spawns other kernel threads)'',
       ''  Common kernel threads: kworker (workqueues), ksoftirqd (softirq), kswapd (swap).'',
       ''  The idle task (PID 0 / swapper) runs HLT when run queue is empty.'',
       ''  SIMULATOR: We call scheduler.init() and spawn kernel threads.'']),
     (VFS_DEVICE_INIT, py_join NL
      [''VFS AND DEVICE INIT (Filesystem + device model):'',
       ''  Real: vfs_caches_init() sets up dcache, icache. Initial rootfs is tmpfs (initramfs).'',
       ''  The initramfs contains /init, /bin/sh, essential modules. After pivoting root,'',
       ''  the real rootfs is mounted (ext4/btrfs from disk).'',
       ''  Device model: device_register() for platform devices, PCI enumeration, driver probing.'',
       ''  udev creates /dev nodes based on uevent notifications from the kernel.'',
       ''  SIMULATOR: We mount tmpfs as /, create standard dirs, register simulated devices.'']),
     (USERSPACE_INIT, py_join NL
      [''USERSPACE INIT (PID 1 / init):'',
       ''  Real: kernel_init() mounts the real rootfs, runs /sbin/init (or systemd).'',
       ''  init reads /etc/inittab or systemd unit files, starts services, gettys.'',
       ''  The kernel's role is now to serve interrupts, syscalls, and scheduling.'',
       ''  If /sbin/init fails, kernel_init() tries /etc/init, /bin/init, /bin/sh.'',
       ''  SIMULATOR: We spawn the init process in the process table.''])]\<close>

text \<open>\<^verbatim>\<open>stage.name\<close>\<close>

fun stage_name :: "boot_stage \<Rightarrow> string" where
  "stage_name FIRMWARE_HANDOFF = ''FIRMWARE_HANDOFF''"
| "stage_name BOOTLOADER_HANDOFF = ''BOOTLOADER_HANDOFF''"
| "stage_name ARCH_EARLY_INIT = ''ARCH_EARLY_INIT''"
| "stage_name MEMORY_BRINGUP = ''MEMORY_BRINGUP''"
| "stage_name INTERRUPT_TIMER_SETUP = ''INTERRUPT_TIMER_SETUP''"
| "stage_name SCHEDULER_START = ''SCHEDULER_START''"
| "stage_name VFS_DEVICE_INIT = ''VFS_DEVICE_INIT''"
| "stage_name USERSPACE_INIT = ''USERSPACE_INIT''"

definition explain_stage :: "boot_stage \<Rightarrow> string" where
  "explain_stage stage =
     (case map_of STAGE_EXPLANATIONS stage of Some t \<Rightarrow> t | None \<Rightarrow> ''No explanation for '' @ stage_name stage)"

definition is_booted :: "boot_state \<Rightarrow> bool" where
  "is_booted s = b_booted s"

section \<open>Properties\<close>

text \<open>Every stage of the pipeline has an explanation of its own, in the order the stages run, and a pipeline has a current
  stage, which a step executes and moves past, exactly until it has run them all.\<close>
theorem stages_are_explained:
  "map fst STAGE_EXPLANATIONS = all_stages \<and> map_of STAGE_EXPLANATIONS g = Some (explain_stage g) \<and> distinct all_stages"
proof -
  have keys: "map fst STAGE_EXPLANATIONS = all_stages" by (simp add: STAGE_EXPLANATIONS_def all_stages_def)
  have "g \<in> set all_stages" by (cases g) (simp_all add: all_stages_def)
  then obtain t where "map_of STAGE_EXPLANATIONS g = Some t"
    by (cases "map_of STAGE_EXPLANATIONS g") (simp_all add: map_of_eq_None_iff flip: keys)
  with keys show ?thesis by (simp add: explain_stage_def) (simp add: all_stages_def)
qed

theorem current_stage_runs:
  "case current_stage s of
     None \<Rightarrow> boot_step s = (None, s)
   | Some g \<Rightarrow> map_option br_stage (fst (boot_step s)) = Some g \<and> b_index (snd (boot_step s)) = Suc (b_index s)
              \<and> is_booted (snd (boot_step s)) = is_booted s"
  by (auto simp: current_stage_def boot_step_def is_booted_def run_next_result run_next_index Let_def case_prod_beta split: option.split)

end
