(* ===== verification/Security.thy ===== *)
theory Security
  imports Processes Text_Tools
begin

text \<open>
  \<^verbatim>\<open>security.py\<close>: capability checks, validation of user pointers and the credential manager, which has
  no state of its own.
\<close>

section \<open>Operations\<close>

definition CAP_CHOWN :: int where "CAP_CHOWN = 0"
definition CAP_DAC_OVERRIDE :: int where "CAP_DAC_OVERRIDE = 1"
definition CAP_SETUID :: int where "CAP_SETUID = 7"
definition CAP_NET_ADMIN :: int where "CAP_NET_ADMIN = 12"
definition CAP_SYS_ADMIN :: int where "CAP_SYS_ADMIN = 21"
definition CAP_SYS_MODULE :: int where "CAP_SYS_MODULE = 16"
definition CAP_SYS_BOOT :: int where "CAP_SYS_BOOT = 22"
definition CAP_SYS_RAWIO :: int where "CAP_SYS_RAWIO = 17"

definition check_permission :: "credentials \<Rightarrow> int \<Rightarrow> bool" where
  "check_permission creds capability = (if cr_euid creds = 0 then True else False)"

definition validate_user_pointer :: "int \<Rightarrow> int \<Rightarrow> int \<Rightarrow> bool" where
  "validate_user_pointer addr sz pid =
     (if addr \<le> 0 \<or> sz \<le> 0 then False else if 0x00007FFFFFFFFFFF < addr + sz then False else True)"

definition create_creds :: "int \<Rightarrow> int \<Rightarrow> credentials" where
  "create_creds uid gid = \<lparr>cr_uid = uid, cr_gid = gid, cr_euid = uid, cr_egid = gid\<rparr>"

definition check_vfs_open :: "credentials \<Rightarrow> string \<Rightarrow> bool \<Rightarrow> bool" where
  "check_vfs_open creds path wr =
     (if is_root creds then True
      else if path \<in> set [''/proc/kcore'', ''/dev/mem'', ''/dev/port''] then False else True)"

definition check_syscall :: "credentials \<Rightarrow> string \<Rightarrow> bool" where
  "check_syscall creds name =
     (if name \<in> {''init_module'', ''delete_module'', ''reboot'', ''kexec_load''}
      then check_permission creds CAP_SYS_ADMIN else True)"

definition drop_privileges :: "credentials \<Rightarrow> int \<Rightarrow> credentials" where
  "drop_privileges creds new_uid =
     \<lparr>cr_uid = new_uid, cr_gid = cr_gid creds, cr_euid = new_uid, cr_egid = cr_egid creds\<rparr>"

section \<open>Properties\<close>

text \<open>C40: A user pointer is accepted exactly when it is not null, its size is positive and every address of
  the range and the one after it are user addresses. So no accepted range touches the kernel half, and
  the ranges that end at the last user address are refused although they lie in user space.\<close>
theorem user_pointer_ranges:
  "(validate_user_pointer addr sz pid \<longleftrightarrow> 0 < addr \<and> 0 < sz \<and> (\<forall>a. addr \<le> a \<longrightarrow> a \<le> addr + sz \<longrightarrow> 0 < a \<and> a \<le> 0x00007FFFFFFFFFFF))
   \<and> (validate_user_pointer addr sz pid \<longrightarrow> (\<forall>a. addr \<le> a \<longrightarrow> a < addr + sz \<longrightarrow> validate_addr a \<and> a < 0xFFFF800000000000))
   \<and> (0 < sz \<longrightarrow> \<not> validate_user_pointer (0x00007FFFFFFFFFFF - sz + 1) sz pid)"
proof -
  have "validate_user_pointer addr sz pid \<longleftrightarrow> 0 < addr \<and> 0 < sz \<and> addr + sz \<le> 0x00007FFFFFFFFFFF" for addr
    by (auto simp: validate_user_pointer_def)
  moreover have "0 < addr \<Longrightarrow> 0 < sz \<Longrightarrow> (\<forall>a. addr \<le> a \<longrightarrow> a \<le> addr + sz \<longrightarrow> 0 < a \<and> a \<le> 0x00007FFFFFFFFFFF)
      \<longleftrightarrow> addr + sz \<le> 0x00007FFFFFFFFFFF"
    by (auto dest: spec [of _ "addr + sz"])
  ultimately show ?thesis by (auto simp: validate_addr_def)
qed

theorem user_pointer_ranges_witness: "\<not> validate_user_pointer 0x7FFFFFFFF000 0x1000 2"
  using user_pointer_ranges [of 1 "0x1000" 2] by simp

text \<open>Everything depends on the effective user alone: user 0 is granted every capability, path and
  system call; any other user is granted no capability and refused exactly the three device paths and
  the four privileged calls. Dropping to a user other than 0 loses all of that and keeps the groups,
  but dropping to user 0 grants it, whoever asks.\<close>
theorem only_root_is_privileged:
  "(cr_euid c = 0 \<longrightarrow> check_permission c k \<and> check_vfs_open c path wr \<and> check_syscall c name)
   \<and> (cr_euid c \<noteq> 0 \<longrightarrow> \<not> check_permission c k
        \<and> (check_vfs_open c path wr \<longleftrightarrow> path \<noteq> ''/proc/kcore'' \<and> path \<noteq> ''/dev/mem'' \<and> path \<noteq> ''/dev/port'')
        \<and> (check_syscall c name \<longleftrightarrow> name \<notin> {''init_module'', ''delete_module'', ''reboot'', ''kexec_load''}))
   \<and> (check_permission (drop_privileges c u) k \<longleftrightarrow> u = 0)
   \<and> cr_gid (drop_privileges c u) = cr_gid c \<and> cr_egid (drop_privileges c u) = cr_egid c
   \<and> (is_root (create_creds u g) \<longleftrightarrow> u = 0)"
  by (simp add: check_permission_def check_vfs_open_def check_syscall_def drop_privileges_def create_creds_def
      is_root_def)

theorem only_root_is_privileged_witness:
  "check_permission (drop_privileges (create_creds 1000 1000) 0) CAP_SYS_ADMIN"
  using only_root_is_privileged [of "create_creds 1000 1000" CAP_SYS_ADMIN "[]" False "[]" 0 0] by blast

end
