(* ===== verification/Spec2Isabelle.thy ===== *)
theory Spec2Isabelle
  imports Shell_Outcomes Boot_Texts Profiles Security
begin

text \<open>
  Verification development for ComputeKERNEL-Edu, a simulator of a UNIX-like kernel written in Python
  (\<^verbatim>\<open>src/computekernel_edu/\<close>). The program runs in one Python process and one thread: a kernel object
  creates the subsystems, a boot pipeline brings them up in eight stages, and an interactive shell reads
  lines, each of which inspects or changes the subsystems. The theories translate that code into HOL
  functions and prove what each part guarantees, what the boot leaves behind, and what no line typed into
  the shell can do.

  \<^bold>\<open>How the parts interact.\<close> \<^verbatim>\<open>kernel.py\<close> owns everything. \<^verbatim>\<open>boot.py\<close> fills it: it detects the processor
  (\<^verbatim>\<open>arch.py\<close>), sets up memory (\<^verbatim>\<open>memory.py\<close>), spawns processes and threads (\<^verbatim>\<open>process.py\<close>,
  \<^verbatim>\<open>thread.py\<close>), queues the threads (\<^verbatim>\<open>scheduler.py\<close>), mounts a root filesystem (\<^verbatim>\<open>vfs.py\<close> over
  \<^verbatim>\<open>fs_tmpfs.py\<close>), registers devices and drivers (\<^verbatim>\<open>device.py\<close>, \<^verbatim>\<open>driver.py\<close>) and starts init.
  \<^verbatim>\<open>syscall.py\<close> gives a process access to the process table, the VFS and virtual memory; \<^verbatim>\<open>shell.py\<close>
  gives the user access to all of it. Thread objects are shared by the thread table and the scheduler's
  queues, and the boot pipeline and the kernel hold the same subsystem objects: each shared object is kept
  once in the model, and the other holders refer to it.

  \<^bold>\<open>Conventions.\<close> A class is a record, an enum a datatype, a Python integer an \<^typ>\<open>int\<close> (unbounded in
  the source too), a byte an 8-bit word, and a dictionary an association list in insertion order, because
  the code iterates over dictionaries and numbers things in that order. An operation takes its arguments
  and the object and returns its result with the new object. An operation that can raise returns
  \<^typ>\<open>'a result\<close>, whose left summand is the exception; an errno is an ordinary negative integer, as it
  is in the source. Arguments of system calls are dynamically typed in the source and are values of
  \<^typ>\<open>pyval\<close>, so that an argument of the wrong type raises here where it raises there. Clocks and host
  time are arguments.

  \<^bold>\<open>Theories.\<close>

  \<^item> \<^verbatim>\<open>Prelude\<close>: exceptions, dynamic values, and the parts of the standard library the sources use
    (dictionaries, slices, bounded deques, splitting and joining strings) with their lemmas.
    \<^verbatim>\<open>Text_Tools\<close>: \<^verbatim>\<open>utils.py\<close>, and stripping, splitting, case and integer parsing of strings.
  \<^item> \<^verbatim>\<open>Interfaces\<close>: the contracts shared by components, as locales: \<^verbatim>\<open>machine\<close> (a state with steps and an
    invariant; reachable states by rule induction over \<^verbatim>\<open>reaches\<close>), \<^verbatim>\<open>id_allocator\<close> (identifiers never
    handed out twice while in use) and \<^verbatim>\<open>bounded_fifo\<close> (a byte queue that keeps the newest bytes).
    Every stateful component interprets \<^verbatim>\<open>machine\<close> with its own operations; PIDs and TIDs interpret
    \<^verbatim>\<open>id_allocator\<close>; the pipe and the serial receiver interpret \<^verbatim>\<open>bounded_fifo\<close>.
  \<^item> \<^verbatim>\<open>Physical_Memory\<close>, \<^verbatim>\<open>Virtual_Memory\<close>, \<^verbatim>\<open>Kmalloc\<close>: the three managers of \<^verbatim>\<open>memory.py\<close>. First-fit
    frames with all-or-nothing batches (locale \<^verbatim>\<open>page_source\<close>), areas and address spaces backed by them,
    and the bump allocator with its list of live blocks.
  \<^item> \<^verbatim>\<open>Processes\<close>, \<^verbatim>\<open>Threads\<close>, \<^verbatim>\<open>Scheduling\<close>: \<^verbatim>\<open>process.py\<close>, \<^verbatim>\<open>thread.py\<close>, \<^verbatim>\<open>scheduler.py\<close>. The tree of
    processes with its exact lists of children, the table of threads with their stacks, and round-robin scheduling: the queue invariant, the
    refinement of an abstract rotation \<^verbatim>\<open>rr_tick\<close>, the period of a rotation and freedom from starvation.
  \<^item> \<^verbatim>\<open>Ipc\<close>: \<^verbatim>\<open>ipc.py\<close>, pipes of 65536 bytes and signal tables.
  \<^item> \<^verbatim>\<open>Vfs_Types\<close>, \<^verbatim>\<open>Inode_Tables\<close>, \<^verbatim>\<open>Tmpfs\<close>, \<^verbatim>\<open>Ext2\<close>, \<^verbatim>\<open>Vfs\<close>: the inode data and the contracts of a
    filesystem driver (locales \<^verbatim>\<open>file_store\<close> and \<^verbatim>\<open>directory_tree\<close>, both drivers and their sum interpret
    them), the tree invariant of an inode table (every inode is reached from the root by exactly one path), the two drivers, and the switch of \<^verbatim>\<open>vfs.py\<close>: mounts,
    resolution of paths, open files with positions, and the operations on paths.
  \<^item> \<^verbatim>\<open>Syscalls\<close>: \<^verbatim>\<open>syscall.py\<close>, the dispatcher and its fourteen handlers over processes, VFS and memory,
    with the ownership of descriptors by processes.
  \<^item> \<^verbatim>\<open>Logger\<close>, \<^verbatim>\<open>Console\<close>, \<^verbatim>\<open>Devices\<close>, \<^verbatim>\<open>Profiles\<close>, \<^verbatim>\<open>Module_Loader\<close>, \<^verbatim>\<open>Security\<close>, \<^verbatim>\<open>Power_States\<close>, \<^verbatim>\<open>Elf\<close>,
    \<^verbatim>\<open>Arch\<close>, \<^verbatim>\<open>Teaching\<close>, \<^verbatim>\<open>Teaching_Topics\<close>: the files of the same purpose (\<^verbatim>\<open>Devices\<close> holds \<^verbatim>\<open>device.py\<close> and
    \<^verbatim>\<open>driver.py\<close>, \<^verbatim>\<open>Profiles\<close> also \<^verbatim>\<open>safe_mode.py\<close>, \<^verbatim>\<open>Logger\<close> also \<^verbatim>\<open>panic.py\<close>, \<^verbatim>\<open>Teaching\<close> also
    \<^verbatim>\<open>roadmap.py\<close>, \<^verbatim>\<open>Teaching_Topics\<close> the table of topics): the bounded log, the binding of drivers to devices, the dependency order of modules,
    validation of user pointers, the power states, the loading of segments and the descriptor tables.
  \<^item> \<^verbatim>\<open>Boot\<close>, \<^verbatim>\<open>Boot_Texts\<close>, \<^verbatim>\<open>Booted\<close>: \<^verbatim>\<open>boot.py\<close>, the stages with their explanations and the pipeline (at once by \<^verbatim>\<open>run_all\<close>, one by one by
    \<^verbatim>\<open>boot_step\<close>), then the state a boot leaves, computed by evaluating the model, and the invariants of
    every component in it.
  \<^item> \<^verbatim>\<open>Kernel\<close>: \<^verbatim>\<open>kernel.py\<close>. \<^verbatim>\<open>Shell_Commands\<close>, \<^verbatim>\<open>Shell\<close>: the commands, the dispatch of a line as
    \<^verbatim>\<open>cmd.Cmd\<close> does it, the loop over what happens at the prompt, and \<^verbatim>\<open>main\<close> from the command line to the end of the session.
    A command returns what it
    prints, whether it leaves the loop or raises, and the new kernel.
  \<^item> \<^verbatim>\<open>Shell_Safety\<close>: every command keeps the invariant of every component, so whatever is typed the
    kernel stays consistent. \<^verbatim>\<open>Shell_Outcomes\<close>: how a line can end, which system calls can succeed from
    the shell, and the two defects that follow from arguments being text; and what the program as a whole can end with.

  \<^bold>\<open>Clients with guards.\<close> Some registries accept calls after which they are no longer consistent, and their
  properties are about clients that do not make them; each such guard is a definition, named in the statement or
  in the step relation it is about. \<^verbatim>\<open>may_call\<close>: modules are registered unloaded, not over a loaded one, and share no
  export. \<^verbatim>\<open>orderly\<close> and \<^verbatim>\<open>dev_step\<close>: devices are bound when free and unregistered when unbound. \<^verbatim>\<open>sched_step\<close>: a
  thread of the table with a time slice is added when it is not blocked, not idle and not running out of the queue,
  and the running one is not removed. \<^verbatim>\<open>vfs_step\<close>: mount points are
  normalised. What goes wrong without them is proved by example (\<^verbatim>\<open>shared_export_lost\<close>,
  \<^verbatim>\<open>rebinding_leaves_stale_entry\<close>, \<^verbatim>\<open>add_blocked_thread_queues_twice\<close>). The boot and the shell stay within
  them, so the theorems about whole sessions have no such hypothesis.

  \<^bold>\<open>Bounds and termination.\<close> No fuel is used: every loop of the source is a total function, structural or
  with a measure (the boot loop decreases the number of stages left, the module and thread walks the list
  they walk). The bounds are those of the code: 1024 frames of 4096 bytes after the boot, pipes of 65536
  bytes, 256 bytes in the serial receiver, 1024 log entries. Properties about memory hold for every number
  of frames, and the liveness of the scheduler for every number of threads and every quantum.

  \<^bold>\<open>Not modelled.\<close> The messages written to the kernel log by other components, and the switching of its
  serial sink: no operation reads them. The logger itself is modelled, and the shell is given the log at the
  time of a line. Stage durations, a difference of two readings of the host clock. The texts of the help of
  \<^verbatim>\<open>cmd.Cmd\<close>, of exceptions, of the banner (which is not ASCII), and \<^verbatim>\<open>repr\<close> strings. An interrupt from the
  keyboard is modelled at the prompt, not in the middle of a command. \<^verbatim>\<open>SYSCALL_TABLE\<close>, a list of names no
  operation uses, and the tests.
\<close>

end
